(* ===== verification/Prelude.thy ===== *)
theory Prelude
  imports Main "HOL-Library.Word" "HOL-Library.AList" "HOL-Library.Char_ord"
    "HOL-Library.List_Lexorder" "HOL-Library.Sublist"
begin

text \<open>
  Shared vocabulary of the development: the machine integers and byte strings of the Go
  sources, Go's built-in map with the interface its clients rely on, the two generic
  state-machine interfaces (deterministic event handlers and step relations), Go's
  conversion of integers to \<open>float64\<close>, and the
  small list, option and word facts the component theories share.

  A Go \<open>string\<close> and a Go \<open>[]byte\<close> are both byte sequences; HOL's \<^typ>\<open>string\<close> is a
  list of 8-bit characters, so the conversions \<open>string(b)\<close> and \<open>[]byte(s)\<close> are the
  identity and \<open>len(s)\<close> is \<^const>\<open>length\<close>.
\<close>

named_theorems keeps_inv "operations that keep an invariant of a component"
named_theorems go_lib "facts on the modelled part of Go's standard library"

type_synonym u8 = "8 word"
type_synonym u16 = "16 word"
type_synonym u32 = "32 word"
type_synonym u64 = "64 word"
type_synonym bytes = string

section \<open>Go's built-in map\<close>

text \<open>
  A Go \<open>map[K]V\<close> is an association list with distinct keys. \<open>v, ok := m[k]\<close> is
  \<open>gm_get m k\<close> (\<^const>\<open>None\<close> for \<open>ok = false\<close>), \<open>m[k] = v\<close> is \<open>gm_put\<close>,
  \<open>delete(m, k)\<close> is \<open>gm_del\<close> and \<open>len(m)\<close> is \<open>gm_len\<close>. The order of the list is not
  observable through these operations; where the source ranges over a map, the result
  is shown not to depend on it.
\<close>

type_synonym ('k, 'v) gomap = "('k \<times> 'v) list"

definition gm_empty :: "('k, 'v) gomap" where
  "gm_empty = []"

definition gm_get :: "('k, 'v) gomap \<Rightarrow> 'k \<Rightarrow> 'v option" where
  "gm_get m k = map_of m k"

definition gm_put :: "('k, 'v) gomap \<Rightarrow> 'k \<Rightarrow> 'v \<Rightarrow> ('k, 'v) gomap" where
  "gm_put m k v = AList.update k v m"

definition gm_del :: "('k, 'v) gomap \<Rightarrow> 'k \<Rightarrow> ('k, 'v) gomap" where
  "gm_del m k = AList.delete k m"

definition gm_len :: "('k, 'v) gomap \<Rightarrow> nat" where
  "gm_len m = length m"

definition gm_keys :: "('k, 'v) gomap \<Rightarrow> 'k list" where
  "gm_keys m = map fst m"

definition gm_ok :: "('k, 'v) gomap \<Rightarrow> bool" where
  "gm_ok m = distinct (map fst m)"

text \<open>The contract of a Go map, stated once and used by every component that keeps one.\<close>

locale go_map =
  fixes empty :: "'m"
    and get :: "'m \<Rightarrow> 'k \<Rightarrow> 'v option"
    and put :: "'m \<Rightarrow> 'k \<Rightarrow> 'v \<Rightarrow> 'm"
    and del :: "'m \<Rightarrow> 'k \<Rightarrow> 'm"
    and len :: "'m \<Rightarrow> nat"
    and keys :: "'m \<Rightarrow> 'k list"
    and ok :: "'m \<Rightarrow> bool"
  assumes ok_empty: "ok empty"
    and ok_put: "ok m \<Longrightarrow> ok (put m k v)"
    and ok_del: "ok m \<Longrightarrow> ok (del m k)"
    and get_empty: "get empty k = None"
    and get_put: "get (put m k v) k' = (if k' = k then Some v else get m k')"
    and get_del: "get (del m k) k' = (if k' = k then None else get m k')"
    and set_keys: "set (keys m) = {k. get m k \<noteq> None}"
    and len_keys: "len m = length (keys m)"
    and distinct_keys: "ok m \<Longrightarrow> distinct (keys m)"
begin

lemma len_eq_card: "ok m \<Longrightarrow> len m = card {k. get m k \<noteq> None}"
  by (metis distinct_card distinct_keys len_keys set_keys)

lemma put_same: "get m k = Some v \<Longrightarrow> get (put m k v) = get m"
  by (auto simp: get_put)

lemma del_absent: "get m k = None \<Longrightarrow> get (del m k) = get m"
  by (auto simp: get_del)

lemma get_fold_del: "get (fold (\<lambda>k m. del m k) ks m) k' = (if k' \<in> set ks then None else get m k')"
  by (induction ks arbitrary: m) (auto simp: get_del)

lemma ok_fold_del: "ok m \<Longrightarrow> ok (fold (\<lambda>k m. del m k) ks m)"
  by (induction ks arbitrary: m) (auto simp: ok_del)

lemma get_fold_put:
  "get (fold (\<lambda>(k, v) m. put m k v) kvs m) k' =
     (case map_of (rev kvs) k' of Some v \<Rightarrow> Some v | None \<Rightarrow> get m k')"
proof (induction kvs arbitrary: m)
  case Nil
  then show ?case by simp
next
  case (Cons kv kvs)
  then show ?case
    by (cases kv) (auto simp: get_put map_add_def split: option.splits)
qed

lemma ok_fold_put: "ok m \<Longrightarrow> ok (fold (\<lambda>(k, v) m. put m k v) kvs m)"
  by (induction kvs arbitrary: m) (auto simp: ok_put)

end

interpretation gm: go_map gm_empty gm_get gm_put gm_del gm_len gm_keys gm_ok
proof unfold_locales
  show "gm_get (gm_put m k v) k' = (if k' = k then Some v else gm_get m k')"
    for m :: "('k, 'v) gomap" and k v k'
    by (simp add: gm_get_def gm_put_def update_conv')
  show "gm_get (gm_del m k) k' = (if k' = k then None else gm_get m k')"
    for m :: "('k, 'v) gomap" and k k'
    by (simp add: gm_get_def gm_del_def delete_conv')
  show "set (gm_keys m) = {k. gm_get m k \<noteq> None}" for m :: "('k, 'v) gomap"
    by (auto simp: gm_keys_def gm_get_def map_of_eq_None_iff)
qed (auto simp: gm_ok_def gm_empty_def gm_put_def gm_del_def gm_get_def gm_len_def gm_keys_def
      distinct_update distinct_delete)

lemmas gm_simps [simp] = gm.get_empty gm.get_put gm.get_del gm.ok_empty gm.ok_put gm.ok_del

lemma gm_get_Some_iff: "gm_ok m \<Longrightarrow> gm_get m k = Some v \<longleftrightarrow> (k, v) \<in> set m"
  by (auto simp: gm_get_def gm_ok_def dest: map_of_SomeD)

lemma gm_get_None_iff: "gm_get m k = None \<longleftrightarrow> k \<notin> fst ` set m"
  by (simp add: gm_get_def map_of_eq_None_iff)

lemma gm_get_rev: "gm_ok m \<Longrightarrow> map_of (rev m) k = gm_get m k"
  by (metis gm_get_def gm_ok_def map_of_inject_set distinct_rev rev_map set_rev)

section \<open>State machines\<close>

text \<open>
  A component that handles events one at a time: the handler keeps an invariant, so every
  run keeps it.
\<close>

locale event_handler =
  fixes handle :: "'e \<Rightarrow> 's \<Rightarrow> 's"
    and inv :: "'s \<Rightarrow> bool"
  assumes handle_inv: "inv s \<Longrightarrow> inv (handle e s)"
begin

lemma run_inv: "inv s \<Longrightarrow> inv (fold handle es s)"
  by (induction es arbitrary: s) (auto simp: handle_inv)

end

text \<open>
  A component whose steps interleave: a step relation, and an invariant that holds in
  every state reachable from an initial one.
\<close>

locale step_system =
  fixes init :: "'s \<Rightarrow> bool"
    and step :: "'s \<Rightarrow> 's \<Rightarrow> bool"
    and inv :: "'s \<Rightarrow> bool"
  assumes init_inv: "init s \<Longrightarrow> inv s"
    and step_inv: "inv s \<Longrightarrow> step s t \<Longrightarrow> inv t"
begin

lemma steps_inv: "step\<^sup>*\<^sup>* s t \<Longrightarrow> inv s \<Longrightarrow> inv t"
  by (induction rule: rtranclp_induct) (auto intro: step_inv)

lemma reachable_inv: "init s \<Longrightarrow> step\<^sup>*\<^sup>* s t \<Longrightarrow> inv t"
  by (blast intro: steps_inv init_inv)

end

section \<open>Conversion of integers to floating point\<close>

text \<open>
  Go's \<open>float64(n)\<close> of an integer \<open>n\<close>: IEEE 754 binary64 has 53 significant bits, and the
  conversion rounds to the nearest multiple of the unit in the last place, ties to the
  even significand. For the integers of 64 bits it is always a finite number and again an
  integer, so such a \<open>float64\<close> is represented by its value.
\<close>

type_synonym float64 = int

function f64_ulp :: "int \<Rightarrow> int" where
  "f64_ulp a = (if a < 9007199254740992 then 1 else 2 * f64_ulp (a div 2))"
  by pat_completeness auto
termination
  by (relation "measure nat") auto

declare f64_ulp.simps [simp del]

definition float64 :: "int \<Rightarrow> float64" where
  "float64 x =
     (let a = \<bar>x\<bar>; u = f64_ulp a; q = a div u; r = a mod u in
      sgn x * ((if u < 2 * r \<or> (2 * r = u \<and> odd q) then q + 1 else q) * u))"

lemma f64_ulp_pos: "1 \<le> f64_ulp a"
proof (induction a rule: f64_ulp.induct)
  case (1 a)
  show ?case
  proof (cases "a < 9007199254740992")
    case False
    with 1 have "1 \<le> f64_ulp (a div 2)" by blast
    with False show ?thesis by (simp add: f64_ulp.simps [of a])
  qed (simp add: f64_ulp.simps [of a])
qed

lemma f64_ulp_le: "1 \<le> a \<Longrightarrow> f64_ulp a \<le> a"
proof (induction a rule: f64_ulp.induct)
  case (1 a)
  show ?case
  proof (cases "a < 9007199254740992")
    case False
    with 1 have "f64_ulp (a div 2) \<le> a div 2" by simp
    with False show ?thesis by (simp add: f64_ulp.simps [of a])
  qed (use 1 in \<open>simp add: f64_ulp.simps [of a]\<close>)
qed

text \<open>Counts below \<open>2\<^sup>5\<^sup>3\<close> are converted exactly, and only zero is converted to zero.\<close>

lemma float64_exact:
  assumes "\<bar>x\<bar> < 9007199254740992"
  shows "float64 x = x"
proof -
  have "f64_ulp \<bar>x\<bar> = 1" using assms by (simp add: f64_ulp.simps [of "\<bar>x\<bar>"])
  then show ?thesis by (simp add: float64_def Let_def mult_sgn_abs)
qed

lemma float64_eq_0 [simp]: "float64 x = 0 \<longleftrightarrow> x = 0"
proof
  assume z: "float64 x = 0"
  show "x = 0"
  proof (rule ccontr)
    assume "x \<noteq> 0"
    then have "f64_ulp \<bar>x\<bar> \<le> \<bar>x\<bar>" by (intro f64_ulp_le) simp
    then have "1 \<le> \<bar>x\<bar> div f64_ulp \<bar>x\<bar>"
      using f64_ulp_pos [of "\<bar>x\<bar>"] by (simp add: pos_imp_zdiv_pos_iff int_one_le_iff_zero_less)
    then show False
      using z \<open>x \<noteq> 0\<close> f64_ulp_pos [of "\<bar>x\<bar>"]
      by (auto simp: float64_def Let_def sgn_if split: if_splits)
  qed
qed (simp add: float64_def)

section \<open>Lists and options\<close>

lemma unit_option_neq [simp]: "(x :: unit option) \<noteq> Some () \<longleftrightarrow> x = None"
  by (cases x) auto

lemma option_eqI: "(\<And>z. x = Some z \<longleftrightarrow> y = Some z) \<Longrightarrow> x = y"
  by (cases x; cases y) auto

lemma list_update_nth_map:
  "i < length xs \<Longrightarrow> f y = f (xs ! i) \<Longrightarrow> map f (xs[i := y]) = map f xs"
  by (metis list_update_id map_update)

end
