(* ===== verification/Go_Strings.thy ===== *)
theory Go_Strings
  imports Prelude
begin

text \<open>
  The part of Go's packages \<open>strings\<close> and \<open>strconv\<close> the sources call, over byte strings.

  Case mapping has an ASCII fast path and a Unicode path in Go. The ASCII path is modelled
  byte by byte; the Unicode path, which reads the Unicode tables, is the parameter
  \<open>unicode\<close> of the definitions that need it, and no theorem assumes anything of it.
\<close>

section \<open>Package strings\<close>

record unicode =
  uniLower :: "string \<Rightarrow> string"
  uniFold :: "string \<Rightarrow> string \<Rightarrow> bool"

text \<open>An instance for the concrete inputs of the development, which are all ASCII.\<close>

definition demo_U :: unicode where
  "demo_U = \<lparr>uniLower = (\<lambda>s. s), uniFold = (\<lambda>s t. s = t)\<rparr>"

definition ascii :: "char \<Rightarrow> bool" where
  "ascii c = (of_char c < (128 :: nat))"

definition is_upper :: "char \<Rightarrow> bool" where
  "is_upper c = (CHR ''A'' \<le> c \<and> c \<le> CHR ''Z'')"

definition is_lower :: "char \<Rightarrow> bool" where
  "is_lower c = (CHR ''a'' \<le> c \<and> c \<le> CHR ''z'')"

definition is_digit :: "char \<Rightarrow> bool" where
  "is_digit c = (CHR ''0'' \<le> c \<and> c \<le> CHR ''9'')"

definition lower_byte :: "char \<Rightarrow> char" where
  "lower_byte c = (if is_upper c then char_of (of_char c + 32 :: nat) else c)"

text \<open>\<open>strings.ToLower\<close>: bytewise when every byte is ASCII, \<open>unicode.ToLower\<close> otherwise.\<close>

definition ToLower :: "unicode \<Rightarrow> string \<Rightarrow> string" where
  "ToLower U s = (if list_all ascii s then map lower_byte s else uniLower U s)"

text \<open>
  \<open>strings.EqualFold\<close>: the ASCII loop, which falls into the Unicode loop at the first
  position where either string has a non-ASCII byte.
\<close>

definition fold_byte_eq :: "char \<Rightarrow> char \<Rightarrow> bool" where
  "fold_byte_eq a b = (a = b \<or> (is_upper a \<and> b = lower_byte a) \<or> (is_upper b \<and> a = lower_byte b))"

fun EqualFold :: "unicode \<Rightarrow> string \<Rightarrow> string \<Rightarrow> bool" where
  "EqualFold U [] [] = True"
| "EqualFold U [] (b # t) = False"
| "EqualFold U (a # s) [] = False"
| "EqualFold U (a # s) (b # t) =
     (if \<not> ascii a \<or> \<not> ascii b then uniFold U (a # s) (b # t)
      else fold_byte_eq a b \<and> EqualFold U s t)"

definition HasPrefix :: "string \<Rightarrow> string \<Rightarrow> bool" where
  "HasPrefix s p = (take (length p) s = p)"

definition HasSuffix :: "string \<Rightarrow> string \<Rightarrow> bool" where
  "HasSuffix s p = (length p \<le> length s \<and> drop (length s - length p) s = p)"

definition TrimPrefix :: "string \<Rightarrow> string \<Rightarrow> string" where
  "TrimPrefix s p = (if HasPrefix s p then drop (length p) s else s)"

definition TrimSuffix :: "string \<Rightarrow> string \<Rightarrow> string" where
  "TrimSuffix s p = (if HasSuffix s p then take (length s - length p) s else s)"

text \<open>\<open>strings.Split(s, sep)\<close> for a separator of one byte.\<close>

fun Split :: "string \<Rightarrow> char \<Rightarrow> string list" where
  "Split [] sep = [[]]"
| "Split (c # cs) sep =
     (if c = sep then [] # Split cs sep
      else (case Split cs sep of [] \<Rightarrow> [[c]] | w # ws \<Rightarrow> (c # w) # ws))"

text \<open>The inverse of \<open>Split\<close>, \<open>strings.Join(ws, sep)\<close>.\<close>

fun Join :: "string list \<Rightarrow> char \<Rightarrow> string" where
  "Join [] sep = []"
| "Join [w] sep = w"
| "Join (w # ws) sep = w @ sep # Join ws sep"

section \<open>Package strconv\<close>

datatype num_error = ErrSyntax | ErrRange

definition digit_val :: "char \<Rightarrow> nat" where
  "digit_val c = of_char c - 48"

text \<open>The loop of \<open>strconv.ParseUint(s, 10, bits)\<close>, with \<open>maxVal = 2^bits - 1\<close>.\<close>

fun parse_uint_loop :: "nat \<Rightarrow> nat \<Rightarrow> string \<Rightarrow> num_error + nat" where
  "parse_uint_loop maxVal n [] = Inr n"
| "parse_uint_loop maxVal n (c # cs) =
     (if \<not> is_digit c then Inl ErrSyntax
      else let n1 = n * 10 + digit_val c
           in if n1 > maxVal then Inl ErrRange else parse_uint_loop maxVal n1 cs)"

definition ParseUint :: "string \<Rightarrow> nat \<Rightarrow> num_error + nat" where
  "ParseUint s bits = (if s = [] then Inl ErrSyntax else parse_uint_loop (2 ^ bits - 1) 0 s)"

text \<open>\<open>strconv.Atoi\<close> on a 64-bit platform: an optional sign, then digits, within \<open>int64\<close>.\<close>

definition Atoi :: "string \<Rightarrow> num_error + int" where
  "Atoi s =
     (if s = [] then Inl ErrSyntax
      else let neg = (hd s = CHR ''-'');
               rest = (if hd s = CHR ''+'' \<or> hd s = CHR ''-'' then tl s else s)
           in (case ParseUint rest 64 of
                 Inl e \<Rightarrow> Inl e
               | Inr un \<Rightarrow>
                   if \<not> neg \<and> un \<ge> 2 ^ 63 then Inl ErrRange
                   else if neg \<and> un > 2 ^ 63 then Inl ErrRange
                   else Inr (if neg then - int un else int un)))"

text \<open>Decimal printing of a number, as \<open>strconv.AppendUint(buf, n, 10)\<close> does.\<close>

fun show_dec :: "nat \<Rightarrow> string" where
  "show_dec n = (if n < 10 then [char_of (48 + n)] else show_dec (n div 10) @ [char_of (48 + n mod 10)])"

declare show_dec.simps [simp del]

section \<open>Facts\<close>

lemma of_char_less_256 [simp]: "of_char c < (256 :: nat)"
  by (metis nat_of_char_less_256)

lemma lower_byte_ascii: "ascii c \<Longrightarrow> ascii (lower_byte c)"
  by (auto simp: lower_byte_def ascii_def is_upper_def less_eq_char_def)

lemma lower_byte_not_upper: "\<not> is_upper (lower_byte c)"
  by (auto simp: lower_byte_def is_upper_def less_eq_char_def)

lemma lower_byte_idem [simp]: "lower_byte (lower_byte c) = lower_byte c"
  by (metis lower_byte_def lower_byte_not_upper)

lemma ToLower_ascii_idem: "list_all ascii s \<Longrightarrow> ToLower U (ToLower U s) = ToLower U s"
  by (auto simp: ToLower_def list_all_iff lower_byte_ascii)

lemma ToLower_Nil [simp]: "ToLower U [] = []"
  by (simp add: ToLower_def)

lemma ToLower_lower: "list_all (\<lambda>c. ascii c \<and> \<not> is_upper c) s \<Longrightarrow> ToLower U s = s"
  by (auto simp: ToLower_def lower_byte_def list_all_iff intro: map_idI)

lemma fold_byte_eq_iff:
  "fold_byte_eq a b \<longleftrightarrow> lower_byte a = lower_byte b"
proof -
  have inj: "a = b" if "is_upper a" "is_upper b" "lower_byte a = lower_byte b"
    using that by (auto simp: lower_byte_def is_upper_def less_eq_char_def)
  show ?thesis
    by (metis fold_byte_eq_def inj lower_byte_def lower_byte_idem)
qed

text \<open>On ASCII names, folding equality is equality after \<open>strings.ToLower\<close>.\<close>

lemma EqualFold_ascii [go_lib]:
  "list_all ascii s \<Longrightarrow> list_all ascii t \<Longrightarrow> EqualFold U s t \<longleftrightarrow> ToLower U s = ToLower U t"
  by (induction U s t rule: EqualFold.induct) (auto simp: ToLower_def fold_byte_eq_iff)

lemma EqualFold_refl_ascii: "list_all ascii s \<Longrightarrow> EqualFold U s s"
  by (simp add: EqualFold_ascii)

lemma Split_not_Nil [simp]: "Split s sep \<noteq> []"
  by (cases s) (auto split: list.splits)

lemma Split_no_sep: "sep \<notin> set s \<Longrightarrow> Split s sep = [s]"
  by (induction s) auto

lemma Split_append [go_lib]: "sep \<notin> set w \<Longrightarrow> Split (w @ sep # s) sep = w # Split s sep"
  by (induction w) auto

lemma Join_Split [go_lib]: "Join (Split s sep) sep = s"
proof (induction s)
  case Nil
  then show ?case by simp
next
  case (Cons c cs)
  obtain w ws where "Split cs sep = w # ws"
    using Split_not_Nil by (metis neq_Nil_conv)
  with Cons show ?case by (cases ws) auto
qed

lemma Split_parts: "w \<in> set (Split s sep) \<Longrightarrow> sep \<notin> set w"
  by (induction s arbitrary: w) (auto split: list.splits if_splits)

lemma TrimSuffix_append [simp]: "TrimSuffix (s @ p) p = s"
  by (simp add: TrimSuffix_def HasSuffix_def)

lemma TrimPrefix_append [simp]: "TrimPrefix (p @ s) p = s"
  by (simp add: TrimPrefix_def HasPrefix_def)

lemma TrimSuffix_cases: "TrimSuffix s p = s \<or> s = TrimSuffix s p @ p"
  by (auto simp: TrimSuffix_def HasSuffix_def) (metis append_take_drop_id)

lemma HasPrefix_iff [go_lib]: "HasPrefix s p \<longleftrightarrow> (\<exists>r. s = p @ r)"
  by (metis HasPrefix_def append_eq_conv_conj)

lemma HasSuffix_iff [go_lib]: "HasSuffix s p \<longleftrightarrow> (\<exists>r. s = r @ p)"
proof
  assume "HasSuffix s p"
  then show "\<exists>r. s = r @ p" by (metis HasSuffix_def append_take_drop_id)
next
  assume "\<exists>r. s = r @ p"
  then show "HasSuffix s p" by (auto simp: HasSuffix_def)
qed

lemma digit_val_less: "is_digit c \<Longrightarrow> digit_val c < 10"
  by (auto simp: is_digit_def digit_val_def less_eq_char_def)

lemma parse_uint_loop_le:
  "n \<le> maxVal \<Longrightarrow> parse_uint_loop maxVal n s = Inr v \<Longrightarrow> v \<le> maxVal"
  by (induction maxVal n s rule: parse_uint_loop.induct) (auto simp: Let_def split: if_splits)

lemma ParseUint_bound [go_lib]: "ParseUint s bits = Inr v \<Longrightarrow> v < 2 ^ bits"
proof -
  assume "ParseUint s bits = Inr v"
  then have "v \<le> 2 ^ bits - 1"
    by (auto simp: ParseUint_def split: if_splits intro: parse_uint_loop_le [of 0])
  then show "v < 2 ^ bits"
    using zero_less_power [of "2 :: nat" bits] by linarith
qed

lemma parse_uint_loop_digits: "parse_uint_loop maxVal n s = Inr v \<Longrightarrow> list_all is_digit s"
  by (induction maxVal n s rule: parse_uint_loop.induct) (auto simp: Let_def split: if_splits)

lemma ParseUint_digits [go_lib]: "ParseUint s bits = Inr v \<Longrightarrow> s \<noteq> [] \<and> list_all is_digit s"
  by (auto simp: ParseUint_def split: if_splits dest: parse_uint_loop_digits)

lemma Atoi_bound [go_lib]: "Atoi s = Inr n \<Longrightarrow> - (2 ^ 63) \<le> n \<and> n < 2 ^ 63"
  by (auto simp: Atoi_def Let_def split: if_splits sum.splits)

lemma is_digit_show: "(d :: nat) < 10 \<Longrightarrow> is_digit (char_of (48 + d))"
  by (auto simp: is_digit_def less_eq_char_def)

lemma digit_val_show: "(d :: nat) < 10 \<Longrightarrow> digit_val (char_of (48 + d)) = d"
  by (auto simp: digit_val_def)

lemma show_dec_digits: "list_all is_digit (show_dec n)"
proof (induction n rule: show_dec.induct)
  case (1 n)
  then show ?case
    by (subst show_dec.simps) (auto intro: is_digit_show)
qed

lemma show_dec_not_Nil [simp]: "show_dec n \<noteq> []"
  by (subst show_dec.simps) auto

lemma parse_uint_loop_append:
  "parse_uint_loop maxVal n (s @ t) =
     (case parse_uint_loop maxVal n s of Inl e \<Rightarrow> Inl e | Inr m \<Rightarrow> parse_uint_loop maxVal m t)"
  by (induction maxVal n s rule: parse_uint_loop.induct) (auto simp: Let_def)

lemma parse_show_dec: "n \<le> maxVal \<Longrightarrow> parse_uint_loop maxVal 0 (show_dec n) = Inr n"
proof (induction n rule: show_dec.induct)
  case (1 n)
  show ?case
  proof (cases "n < 10")
    case True
    with "1.prems" show ?thesis
      by (subst show_dec.simps) (simp add: is_digit_show digit_val_show)
  next
    case False
    with 1 have "parse_uint_loop maxVal 0 (show_dec (n div 10)) = Inr (n div 10)" by simp
    with False "1.prems" show ?thesis
      by (subst show_dec.simps)
        (simp add: parse_uint_loop_append is_digit_show digit_val_show)
  qed
qed

text \<open>Printing then parsing a number that fits is the identity.\<close>

lemma ParseUint_show_dec [go_lib]: "n < 2 ^ bits \<Longrightarrow> ParseUint (show_dec n) bits = Inr n"
  by (simp add: ParseUint_def parse_show_dec)

end
