(* ===== verification/Corefile.thy ===== *)
theory Corefile
  imports Go_Strings
begin

text \<open>
  What both plugins' \<open>setup.go\<close> share: the Corefile dispenser, the two nested loops over it,
  and the order of the directives. The dispenser (\<open>caddy.Controller\<close>) is not part of this
  repository: its operations are the record \<open>dispenser\<close>, and \<open>dispenser_laws\<close> says that
  every token is delivered once, which is what makes the loops end. The loops take fuel,
  and enough of it is shown to exist for every input.
\<close>

section \<open>The dispenser\<close>

record 'd dispenser =
  dNext :: "'d \<Rightarrow> bool \<times> 'd"
  dNextBlock :: "'d \<Rightarrow> bool \<times> 'd"
  dNextArg :: "'d \<Rightarrow> bool \<times> 'd"
  dVal :: "'d \<Rightarrow> string"
  dRemainingArgs :: "'d \<Rightarrow> string list \<times> 'd"

text \<open>\<open>left\<close> counts the tokens not yet delivered; delivering one uses it up.\<close>

definition dispenser_laws :: "'d dispenser \<Rightarrow> ('d \<Rightarrow> nat) \<Rightarrow> bool" where
  "dispenser_laws D left \<longleftrightarrow>
     (\<forall>d d'. dNext D d = (True, d') \<longrightarrow> left d' < left d) \<and>
     (\<forall>d d'. dNextBlock D d = (True, d') \<longrightarrow> left d' < left d) \<and>
     (\<forall>d b d'. dNextBlock D d = (b, d') \<longrightarrow> left d' \<le> left d) \<and>
     (\<forall>d b d'. dNextArg D d = (b, d') \<longrightarrow> left d' \<le> left d) \<and>
     (\<forall>d as d'. dRemainingArgs D d = (as, d') \<longrightarrow> left d' \<le> left d)"

text \<open>The errors \<open>parseConfig\<close> returns, by the message they carry.\<close>

datatype cfg_error =
    ErrArg
  | ErrUnknownProperty string
  | ErrInvalid string string
  | ErrOutOfRange string nat
  | ErrNotPositive string string
  | ErrRequired string
  | ErrArgCount nat
  | ErrDuplicate string
  | ErrNotHTTPS string
  | ErrHasPath string
  | ErrWrongMode string

section \<open>The loops of parseConfig\<close>

text \<open>
  \<open>for c.NextBlock() { ... }\<close> around a body that returns an error or the new configuration,
  and \<open>for c.Next() { ... }\<close> around it. \<^const>\<open>None\<close> is running out of fuel.
\<close>

fun block_loop ::
  "'d dispenser \<Rightarrow> ('c \<Rightarrow> 'd \<Rightarrow> cfg_error + 'c \<times> 'd) \<Rightarrow> nat \<Rightarrow> 'c \<Rightarrow> 'd \<Rightarrow> (cfg_error + 'c \<times> 'd) option" where
  "block_loop D body 0 cfg d = None"
| "block_loop D body (Suc fuel) cfg d =
     (case dNextBlock D d of
        (False, d1) \<Rightarrow> Some (Inr (cfg, d1))
      | (True, d1) \<Rightarrow>
          (case body cfg d1 of
             Inl err \<Rightarrow> Some (Inl err)
           | Inr (cfg1, d2) \<Rightarrow> block_loop D body fuel cfg1 d2))"

fun config_loop ::
  "'d dispenser \<Rightarrow> ('c \<Rightarrow> 'd \<Rightarrow> cfg_error + 'c \<times> 'd) \<Rightarrow> nat \<Rightarrow> 'c \<Rightarrow> 'd \<Rightarrow> (cfg_error + 'c) option" where
  "config_loop D body 0 cfg d = None"
| "config_loop D body (Suc fuel) cfg d =
     (case dNext D d of
        (False, d1) \<Rightarrow> Some (Inr cfg)
      | (True, d1) \<Rightarrow>
          (case block_loop D body fuel cfg d1 of
             None \<Rightarrow> None
           | Some (Inl err) \<Rightarrow> Some (Inl err)
           | Some (Inr (cfg1, d2)) \<Rightarrow> config_loop D body fuel cfg1 d2))"

text \<open>The argument of a property with one: \<open>if !c.NextArg() { return nil, c.ArgErr() }\<close>.\<close>

definition one_arg ::
  "'d dispenser \<Rightarrow> 'd \<Rightarrow> (string \<Rightarrow> cfg_error + 'c) \<Rightarrow> cfg_error + 'c \<times> 'd" where
  "one_arg D d f =
     (case dNextArg D d of
        (False, d1) \<Rightarrow> Inl ErrArg
      | (True, d1) \<Rightarrow> (case f (dVal D d1) of Inl err \<Rightarrow> Inl err | Inr cfg \<Rightarrow> Inr (cfg, d1)))"

section \<open>Directive order\<close>

text \<open>
  The loop of \<open>CheckDirectiveOrder\<close>, which both plugins have with their own name: the last
  positions of the plugin and of \<open>cache\<close>, \<open>-1\<close> for none.
\<close>

fun order_loop :: "string \<Rightarrow> int \<Rightarrow> int \<Rightarrow> int \<Rightarrow> string list \<Rightarrow> int \<times> int" where
  "order_loop name i at cacheAt [] = (at, cacheAt)"
| "order_loop name i at cacheAt (d # ds) =
     (if d = name then order_loop name (i + 1) i cacheAt ds
      else if d = ''cache'' then order_loop name (i + 1) at i ds
      else order_loop name (i + 1) at cacheAt ds)"

datatype order_error = ErrNotRegistered | ErrAfterCache int int

definition check_order :: "string \<Rightarrow> string list \<Rightarrow> order_error option" where
  "check_order name directives =
     (let (at, cacheAt) = order_loop name 0 (-1) (-1) directives in
      if at < 0 then Some ErrNotRegistered
      else if cacheAt \<ge> 0 \<and> cacheAt < at then Some (ErrAfterCache cacheAt at)
      else None)"

definition zonedns_CheckDirectiveOrder :: "string list \<Rightarrow> order_error option" where
  "zonedns_CheckDirectiveOrder directives = check_order ''zonedns'' directives"

definition agent_CheckDirectiveOrder :: "string list \<Rightarrow> order_error option" where
  "agent_CheckDirectiveOrder directives = check_order ''zonedns_agent'' directives"

text \<open>\<open>insertBeforeCache\<close> of the build file that adds the plugin to node-local-dns.\<close>

fun insert_loop :: "string \<Rightarrow> string list \<Rightarrow> string list" where
  "insert_loop name [] = []"
| "insert_loop name (d # ds) = (if d = ''cache'' then [name, d] else [d]) @ insert_loop name ds"

definition insertBeforeCache :: "string \<Rightarrow> string list \<Rightarrow> string list" where
  "insertBeforeCache name directives = (if name \<in> set directives then directives else insert_loop name directives)"

definition register_init :: "string list \<Rightarrow> string list" where
  "register_init directives = insertBeforeCache ''zonedns_agent'' directives"

section \<open>Facts\<close>

subsection \<open>The loops end\<close>

text \<open>What a body has to keep: it puts no token back, and an invariant of the configuration.\<close>

definition body_uses :: "('d \<Rightarrow> nat) \<Rightarrow> ('c \<Rightarrow> 'd \<Rightarrow> cfg_error + 'c \<times> 'd) \<Rightarrow> bool" where
  "body_uses left body \<longleftrightarrow> (\<forall>cfg d cfg' d'. body cfg d = Inr (cfg', d') \<longrightarrow> left d' \<le> left d)"

definition body_keeps :: "('c \<Rightarrow> bool) \<Rightarrow> ('c \<Rightarrow> 'd \<Rightarrow> cfg_error + 'c \<times> 'd) \<Rightarrow> bool" where
  "body_keeps P body \<longleftrightarrow> (\<forall>cfg d cfg' d'. P cfg \<longrightarrow> body cfg d = Inr (cfg', d') \<longrightarrow> P cfg')"

lemma block_loop_total:
  assumes "dispenser_laws D left" "body_uses left body"
  shows "left d < fuel \<Longrightarrow> \<exists>r. block_loop D body fuel cfg d = Some r \<and>
    (\<forall>cfg' d'. r = Inr (cfg', d') \<longrightarrow> left d' \<le> left d)"
proof (induction fuel arbitrary: cfg d)
  case (Suc fuel)
  obtain b d1 where nb: "dNextBlock D d = (b, d1)" by fastforce
  show ?case
  proof (cases b)
    case False
    then show ?thesis using nb assms(1) unfolding dispenser_laws_def by auto
  next
    case True
    then have "dNextBlock D d = (True, d1)" using nb by simp
    then have lt: "left d1 < left d" using assms(1) unfolding dispenser_laws_def by blast
    show ?thesis
    proof (cases "body cfg d1")
      case (Inl err)
      then show ?thesis using nb True by simp
    next
      case (Inr p)
      obtain cfg1 d2 where p: "p = (cfg1, d2)" by fastforce
      have "left d2 \<le> left d1" using assms(2) Inr p unfolding body_uses_def by blast
      with lt Suc.prems have "left d2 < fuel" by linarith
      then obtain r where "block_loop D body fuel cfg1 d2 = Some r"
          "\<forall>cfg' d'. r = Inr (cfg', d') \<longrightarrow> left d' \<le> left d2" using Suc.IH by blast
      with \<open>left d2 \<le> left d1\<close> lt show ?thesis using nb True Inr p by fastforce
    qed
  qed
qed simp

lemma config_loop_total:
  assumes "dispenser_laws D left" "body_uses left body"
  shows "left d < fuel \<Longrightarrow> \<exists>r. config_loop D body fuel cfg d = Some r"
proof (induction fuel arbitrary: cfg d)
  case (Suc fuel)
  obtain b d1 where nx: "dNext D d = (b, d1)" by fastforce
  show ?case
  proof (cases b)
    case True
    then have "dNext D d = (True, d1)" using nx by simp
    then have "left d1 < left d" using assms(1) unfolding dispenser_laws_def by blast
    with Suc.prems have lt: "left d1 < fuel" by linarith
    then obtain r where r: "block_loop D body fuel cfg d1 = Some r"
        "\<forall>cfg' d'. r = Inr (cfg', d') \<longrightarrow> left d' \<le> left d1"
      using block_loop_total [OF assms] by blast
    show ?thesis
    proof (cases r)
      case (Inl err)
      then show ?thesis using nx True r(1) by simp
    next
      case (Inr p)
      obtain cfg1 d2 where p: "p = (cfg1, d2)" by fastforce
      then have "left d2 < fuel" using r(2) Inr lt by auto
      then show ?thesis using Suc.IH [of d2 cfg1] nx True r(1) Inr p by simp
    qed
  qed (use nx in simp)
qed simp

subsection \<open>Invariants of the loops\<close>

lemma block_loop_inv:
  assumes "body_keeps P body"
  shows "P cfg \<Longrightarrow> block_loop D body fuel cfg d = Some (Inr (cfg', d')) \<Longrightarrow> P cfg'"
proof (induction fuel arbitrary: cfg d)
  case (Suc fuel)
  obtain b d1 where nb: "dNextBlock D d = (b, d1)" by fastforce
  show ?case
  proof (cases b)
    case True
    with Suc.prems(2) nb obtain cfg1 d2 where "body cfg d1 = Inr (cfg1, d2)"
        "block_loop D body fuel cfg1 d2 = Some (Inr (cfg', d'))"
      by (cases "body cfg d1") auto
    then show ?thesis using Suc.IH assms Suc.prems(1) unfolding body_keeps_def by blast
  qed (use Suc.prems nb in simp)
qed simp

lemma config_loop_inv:
  assumes "body_keeps P body"
  shows "P cfg \<Longrightarrow> config_loop D body fuel cfg d = Some (Inr cfg') \<Longrightarrow> P cfg'"
proof (induction fuel arbitrary: cfg d)
  case (Suc fuel)
  obtain b d1 where nx: "dNext D d = (b, d1)" by fastforce
  show ?case
  proof (cases b)
    case True
    with Suc.prems(2) nx obtain cfg1 d2 where "block_loop D body fuel cfg d1 = Some (Inr (cfg1, d2))"
        "config_loop D body fuel cfg1 d2 = Some (Inr cfg')"
      by (auto split: option.splits sum.splits)
    then show ?thesis using Suc.IH block_loop_inv [OF assms] Suc.prems(1) by blast
  qed (use Suc.prems nx in simp)
qed simp

lemma one_arg_Inr:
  "one_arg D d f = Inr (cfg, d') \<longleftrightarrow> dNextArg D d = (True, d') \<and> f (dVal D d') = Inr cfg"
  by (auto simp: one_arg_def split: prod.splits bool.splits sum.splits)

lemma one_arg_left: "dispenser_laws D left \<Longrightarrow> one_arg D d f = Inr (cfg, d') \<Longrightarrow> left d' \<le> left d"
  unfolding dispenser_laws_def one_arg_Inr by blast

lemmas loop_facts = one_arg_Inr one_arg_left

subsection \<open>Directive order\<close>

lemma order_loop_append:
  "order_loop name i a c (us @ vs) =
     (let (a', c') = order_loop name i a c us in order_loop name (i + int (length us)) a' c' vs)"
  by (induction us arbitrary: i a c) (auto simp: algebra_simps)

lemma order_loop_fst: "name \<notin> set ds \<Longrightarrow> fst (order_loop name i a c ds) = a"
  by (induction ds arbitrary: i a c) auto

lemma order_loop_snd: "name \<noteq> ''cache'' \<Longrightarrow> ''cache'' \<notin> set ds \<Longrightarrow> snd (order_loop name i a c ds) = c"
  by (induction ds arbitrary: i a c) auto

lemma order_loop_bounds:
  assumes "a < i" "c < i"
  shows "fst (order_loop name i a c ds) < i + int (length ds) \<and> snd (order_loop name i a c ds) < i + int (length ds) \<and>
    a \<le> fst (order_loop name i a c ds) \<and> c \<le> snd (order_loop name i a c ds)"
  using assms
proof (induction ds arbitrary: i a c)
  case (Cons d ds)
  show ?case
    using Cons.IH [of i "i + 1" c] Cons.IH [of a "i + 1" i] Cons.IH [of a "i + 1" c] Cons.prems by auto
qed simp

text \<open>The last of the two names to occur decides.\<close>

lemma order_loop_name:
  assumes "name \<notin> set vs"
  shows "fst (order_loop name 0 (-1) (-1) (us @ name # vs)) = int (length us)"
  using order_loop_fst [OF assms] by (simp add: order_loop_append Let_def split_beta)

lemma order_loop_cache:
  assumes "name \<noteq> ''cache''" "''cache'' \<notin> set vs"
  shows "snd (order_loop name 0 (-1) (-1) (us @ ''cache'' # vs)) = int (length us)"
  using order_loop_snd [OF assms] assms(1) by (simp add: order_loop_append Let_def split_beta)

lemma split_last: "x \<in> set ds \<Longrightarrow> \<exists>us vs. ds = us @ x # vs \<and> x \<notin> set vs"
  by (meson split_list_last)

lemma check_order_None:
  "check_order name ds = None \<longleftrightarrow>
     fst (order_loop name 0 (-1) (-1) ds) \<ge> 0 \<and>
     (snd (order_loop name 0 (-1) (-1) ds) \<ge> 0 \<longrightarrow>
        fst (order_loop name 0 (-1) (-1) ds) \<le> snd (order_loop name 0 (-1) (-1) ds))"
  by (auto simp: check_order_def split_beta Let_def)

lemma check_order_present: "name \<notin> set ds \<Longrightarrow> check_order name ds = Some ErrNotRegistered"
  using order_loop_fst [of name ds 0 "-1" "-1"] by (simp add: check_order_def split_beta Let_def)

lemma check_order_distinct:
  assumes "distinct ds" "name \<noteq> ''cache''"
  shows "check_order name ds = None \<longleftrightarrow> (\<exists>us vs. ds = us @ name # vs \<and> ''cache'' \<notin> set us)"
proof (cases "name \<in> set ds")
  case True
  then obtain us vs where ds: "ds = us @ name # vs" by (meson split_list)
  then have n: "name \<notin> set us" "name \<notin> set vs" using assms(1) by auto
  have at: "fst (order_loop name 0 (-1) (-1) ds) = int (length us)" using n(2) by (simp add: ds order_loop_name)
  have uniq: "us' = us" if "ds = us' @ name # vs'" for us' vs'
    using that n ds by (metis append_Cons_eq_iff assms(1) distinct_append distinct.simps(2))
  show ?thesis
  proof (cases "''cache'' \<in> set us")
    case True
    then have "''cache'' \<notin> set (name # vs)" using assms ds by auto
    then have "snd (order_loop name 0 (-1) (-1) ds) = snd (order_loop name 0 (-1) (-1) us)"
      using order_loop_snd [OF assms(2), of "name # vs"] by (simp add: ds order_loop_append split_beta Let_def del: order_loop.simps)
    moreover obtain as bs where "us = as @ ''cache'' # bs" "''cache'' \<notin> set bs"
      using split_last [OF True] by blast
    ultimately have "snd (order_loop name 0 (-1) (-1) ds) = int (length as)" "length as < length us"
      using assms(2) by (simp_all add: order_loop_cache)
    then show ?thesis using at True uniq by (auto simp: check_order_None)
  next
    case False
    have "snd (order_loop name 0 (-1) (-1) ds) = -1 \<or> int (length us) \<le> snd (order_loop name 0 (-1) (-1) ds)"
    proof (cases "''cache'' \<in> set vs")
      case True
      then obtain as bs where "vs = as @ ''cache'' # bs" "''cache'' \<notin> set bs" using split_last by metis
      then show ?thesis using assms(2) ds order_loop_cache [of name bs "us @ name # as"] by simp
    next
      case f: False
      then have "''cache'' \<notin> set ds" using False ds assms(2) by auto
      then show ?thesis using order_loop_snd [OF assms(2)] by simp
    qed
    then show ?thesis using at False ds by (auto simp: check_order_None)
  qed
next
  case False
  then show ?thesis using check_order_present [OF False] by auto
qed

lemma insert_loop_append: "insert_loop name (us @ vs) = insert_loop name us @ insert_loop name vs"
  by (induction us) auto

lemma insert_loop_absent: "''cache'' \<notin> set ds \<Longrightarrow> insert_loop name ds = ds"
  by (induction ds) auto

lemma filter_insert_loop: "name \<noteq> ''cache'' \<Longrightarrow> name \<notin> set ds \<Longrightarrow> filter (\<lambda>d. d \<noteq> name) (insert_loop name ds) = ds"
  by (induction ds) auto

subsection \<open>A concrete dispenser\<close>

text \<open>One occurrence of the plugin, its block as lines of tokens.\<close>

record block_text =
  btStarted :: bool
  btLines :: "string list list"
  btVal :: string
  btArgs :: "string list"

definition block_dispenser :: "block_text dispenser" where
  "block_dispenser =
     \<lparr>dNext = (\<lambda>d. (\<not> btStarted d, d\<lparr>btStarted := True\<rparr>)),
      dNextBlock = (\<lambda>d. case btLines d of
          [] \<Rightarrow> (False, d)
        | l # ls \<Rightarrow> (True, d\<lparr>btLines := ls, btVal := (case l of [] \<Rightarrow> [] | v # _ \<Rightarrow> v), btArgs := tl l\<rparr>)),
      dNextArg = (\<lambda>d. case btArgs d of [] \<Rightarrow> (False, d) | v # vs \<Rightarrow> (True, d\<lparr>btVal := v, btArgs := vs\<rparr>)),
      dVal = btVal,
      dRemainingArgs = (\<lambda>d. (btArgs d, d\<lparr>btArgs := []\<rparr>))\<rparr>"

definition block_left :: "block_text \<Rightarrow> nat" where
  "block_left d = (if btStarted d then 0 else 1) + length (btLines d)"

definition block_of :: "string list list \<Rightarrow> block_text" where
  "block_of ls = \<lparr>btStarted = False, btLines = ls, btVal = [], btArgs = []\<rparr>"

lemma block_dispenser_laws: "dispenser_laws block_dispenser block_left"
  by (auto simp: dispenser_laws_def block_dispenser_def block_left_def split: list.splits)

section \<open>Properties\<close>

text \<open>
  Property C33. The start-up check of the plugin order, on a list without duplicates: it accepts
  exactly the lists in which the plugin is registered and nothing before it is \<open>cache\<close>, so
  that the zone-blind cache never sees a query before either plugin does.
\<close>

theorem directive_order_sound:
  assumes "distinct directives"
  shows "(zonedns_CheckDirectiveOrder directives = None \<longleftrightarrow>
      (\<exists>us vs. directives = us @ ''zonedns'' # vs \<and> ''cache'' \<notin> set us)) \<and>
    (agent_CheckDirectiveOrder directives = None \<longleftrightarrow>
      (\<exists>us vs. directives = us @ ''zonedns_agent'' # vs \<and> ''cache'' \<notin> set us))"
  using check_order_distinct [OF assms, of "''zonedns''"] check_order_distinct [OF assms, of "''zonedns_agent''"]
  by (simp add: zonedns_CheckDirectiveOrder_def agent_CheckDirectiveOrder_def)

theorem directive_order_sound_witness:
  "\<exists>us vs. [''errors'', ''zonedns'', ''cache'', ''forward''] = us @ ''zonedns'' # vs \<and> ''cache'' \<notin> set us"
proof -
  have "zonedns_CheckDirectiveOrder [''errors'', ''zonedns'', ''cache'', ''forward''] = None"
    by code_simp
  then show ?thesis
    using directive_order_sound [of "[''errors'', ''zonedns'', ''cache'', ''forward'']"] by simp
qed

text \<open>
  Property C34. The build hook and the start-up check fit together: on a list that has \<open>cache\<close>
  and not yet the plugin, the hook yields a list the check accepts, with the plugin before
  every \<open>cache\<close> and all other directives in their order; on a list without \<open>cache\<close> it adds
  nothing, and the check refuses to start instead of running without the plugin.
\<close>

theorem register_passes_check:
  assumes "''zonedns_agent'' \<notin> set ds"
  shows "filter (\<lambda>d. d \<noteq> ''zonedns_agent'') (register_init ds) = ds \<and>
    agent_CheckDirectiveOrder (register_init ds) = (if ''cache'' \<in> set ds then None else Some ErrNotRegistered)"
proof
  show "filter (\<lambda>d. d \<noteq> ''zonedns_agent'') (register_init ds) = ds"
    using assms by (simp add: register_init_def insertBeforeCache_def filter_insert_loop)
  show "agent_CheckDirectiveOrder (register_init ds) = (if ''cache'' \<in> set ds then None else Some ErrNotRegistered)"
  proof (cases "''cache'' \<in> set ds")
    case True
    then obtain us vs where ds: "ds = us @ ''cache'' # vs" "''cache'' \<notin> set vs" using split_last by metis
    let ?us = "insert_loop ''zonedns_agent'' us"
    have reg: "register_init ds = ?us @ ''zonedns_agent'' # ''cache'' # vs"
      using assms ds by (simp add: register_init_def insertBeforeCache_def insert_loop_append insert_loop_absent)
    have "fst (order_loop ''zonedns_agent'' 0 (-1) (-1) (register_init ds)) = int (length ?us)"
      unfolding reg using assms ds by (intro order_loop_name) auto
    moreover have "snd (order_loop ''zonedns_agent'' 0 (-1) (-1) (register_init ds)) = int (length ?us) + 1"
      unfolding reg using ds(2) order_loop_cache [of "''zonedns_agent''" vs "?us @ [''zonedns_agent'']"] by simp
    ultimately show ?thesis using True by (simp add: agent_CheckDirectiveOrder_def check_order_None)
  next
    case False
    then have "register_init ds = ds"
      using assms by (simp add: register_init_def insertBeforeCache_def insert_loop_absent)
    then show ?thesis using False assms by (simp add: agent_CheckDirectiveOrder_def check_order_present)
  qed
qed

theorem register_passes_check_witness:
  "agent_CheckDirectiveOrder (register_init [''errors'', ''cache'', ''forward'']) = None"
  using register_passes_check [of "[''errors'', ''cache'', ''forward'']"] by simp

text \<open>
  The check keeps only the last position of each name, so a list with a second
  \<open>cache\<close> behind the plugin hides the one in front of it.
\<close>

theorem directive_order_duplicates:
  "zonedns_CheckDirectiveOrder ([''cache''] @ ds @ [''zonedns'', ''cache'']) = None"
proof -
  have "snd (order_loop ''zonedns'' 0 (-1) (-1) ([''cache''] @ ds @ [''zonedns'', ''cache''])) = int (length ds) + 2"
    using order_loop_cache [of "''zonedns''" "[]" "[''cache''] @ ds @ [''zonedns'']"] by simp
  moreover have "fst (order_loop ''zonedns'' 0 (-1) (-1) ([''cache''] @ ds @ [''zonedns'', ''cache''])) = int (length ds) + 1"
    using order_loop_name [of "''zonedns''" "[''cache'']" "[''cache''] @ ds"] by simp
  ultimately show ?thesis by (simp add: zonedns_CheckDirectiveOrder_def check_order_None)
qed

end
