(* ===== verification/Dns_Msg.thy ===== *)
theory Dns_Msg
  imports Prelude
begin

text \<open>
  DNS messages as the sources see them (the struct fields of \<open>dns.Msg\<close> they read or
  write), and the operations of the packages \<open>github.com/miekg/dns\<close> and
  \<open>github.com/coredns/coredns/request\<close> they call. Those packages are not part of this
  repository: their operations are the fields of the records \<open>dnslib\<close> and \<open>reqlib\<close>, which
  every definition that calls them takes as an argument, and what the sources rely on is
  stated by named predicates. A reference instance of each shows that the predicates can
  hold together.
\<close>

section \<open>Messages\<close>

definition TypeA :: u16 where "TypeA = 1"
definition TypeAAAA :: u16 where "TypeAAAA = 28"
definition TypeOPT :: u16 where "TypeOPT = 41"
definition ClassINET :: u16 where "ClassINET = 1"
definition RcodeSuccess :: int where "RcodeSuccess = 0"
definition RcodeServerFailure :: int where "RcodeServerFailure = 2"
definition DefaultMsgSize :: u16 where "DefaultMsgSize = 4096"

text \<open>
  \<open>dns.EDNS0\<close> is an interface; the sources only ask whether an option is an
  \<open>*dns.EDNS0_LOCAL\<close>.
\<close>

datatype edns0 = EDNS0_LOCAL u16 bytes | EDNS0_OTHER u16 bytes

record rr_header =
  hName :: string
  hRrtype :: u16
  hClass :: u16
  hTtl :: u32

text \<open>\<open>dns.RR\<close>: the three record types the sources build or inspect, and any other.\<close>

datatype rr =
    RR_A (rr_hdr: rr_header) "u8 list"
  | RR_AAAA (rr_hdr: rr_header) "u8 list"
  | RR_OPT (rr_hdr: rr_header) "edns0 list"
  | RR_Other (rr_hdr: rr_header) bytes

record question =
  qName :: string
  qQtype :: u16
  qQclass :: u16

record dns_msg =
  mId :: u16
  mResponse :: bool
  mAuthoritative :: bool
  mRcode :: int
  mQuestion :: "question list"
  mAnswer :: "rr list"
  mNs :: "rr list"
  mExtra :: "rr list"

text \<open>\<open>new(dns.Msg)\<close>.\<close>

definition new_msg :: dns_msg where
  "new_msg = \<lparr>mId = 0, mResponse = False, mAuthoritative = False, mRcode = 0, mQuestion = [],
     mAnswer = [], mNs = [], mExtra = []\<rparr>"

definition is_OPT :: "rr \<Rightarrow> bool" where
  "is_OPT r = (case r of RR_OPT h os \<Rightarrow> True | _ \<Rightarrow> False)"

text \<open>
  A message whose record types agree with their headers, as every message off the wire
  has them.
\<close>

definition rr_ok :: "rr \<Rightarrow> bool" where
  "rr_ok r = (is_OPT r \<longleftrightarrow> hRrtype (rr_hdr r) = TypeOPT)"

definition msg_ok :: "dns_msg \<Rightarrow> bool" where
  "msg_ok m = (list_all rr_ok (mAnswer m) \<and> list_all rr_ok (mNs m) \<and> list_all rr_ok (mExtra m))"

text \<open>
  A \<open>*dns.OPT\<close> obtained from a message points into its additional section: it is the
  position of the record there. \<open>opt_options\<close> reads \<open>opt.Option\<close> through the pointer and
  \<open>set_options\<close> assigns to it.
\<close>

definition opt_options :: "dns_msg \<Rightarrow> nat \<Rightarrow> edns0 list" where
  "opt_options m i =
     (if i < length (mExtra m) then
        case mExtra m ! i of RR_OPT h os \<Rightarrow> os | _ \<Rightarrow> []
      else [])"

fun with_options :: "edns0 list \<Rightarrow> rr \<Rightarrow> rr" where
  "with_options os (RR_OPT h _) = RR_OPT h os"
| "with_options os r = r"

definition set_options :: "dns_msg \<Rightarrow> nat \<Rightarrow> edns0 list \<Rightarrow> dns_msg" where
  "set_options m i os =
     (if i < length (mExtra m) then m\<lparr>mExtra := (mExtra m)[i := with_options os (mExtra m ! i)]\<rparr> else m)"

section \<open>Package miekg/dns\<close>

record dnslib =
  IsEdns0 :: "dns_msg \<Rightarrow> nat option"
  SetEdns0 :: "dns_msg \<Rightarrow> u16 \<Rightarrow> bool \<Rightarrow> dns_msg"
  SetReply :: "dns_msg \<Rightarrow> dns_msg \<Rightarrow> dns_msg"

text \<open>
  \<open>IsEdns0\<close> returns an OPT record of the additional section when there is one, and nil
  otherwise; which one it returns depends on the record types only, not on their options.
  \<open>SetEdns0\<close> appends an OPT record with no options and changes nothing else.
\<close>

definition edns_laws :: "dnslib \<Rightarrow> bool" where
  "edns_laws L \<longleftrightarrow>
     (\<forall>m. IsEdns0 L m = None \<longleftrightarrow> (\<forall>r \<in> set (mExtra m). \<not> is_OPT r)) \<and>
     (\<forall>m i. IsEdns0 L m = Some i \<longrightarrow> i < length (mExtra m) \<and> is_OPT (mExtra m ! i)) \<and>
     (\<forall>m m'. map is_OPT (mExtra m) = map is_OPT (mExtra m') \<longrightarrow> IsEdns0 L m = IsEdns0 L m') \<and>
     (\<forall>m sz do. \<exists>h. hRrtype h = TypeOPT \<and>
        SetEdns0 L m sz do = m\<lparr>mExtra := mExtra m @ [RR_OPT h []]\<rparr>)"

text \<open>
  \<open>SetReply\<close> makes its receiver a reply to the request: the request's ID and first
  question, the response bit and a success code. The three record sections stay.
\<close>

definition reply_laws :: "dnslib \<Rightarrow> bool" where
  "reply_laws L \<longleftrightarrow>
     (\<forall>m r. mId (SetReply L m r) = mId r \<and> mResponse (SetReply L m r) \<and>
        mRcode (SetReply L m r) = RcodeSuccess \<and>
        (mQuestion r \<noteq> [] \<longrightarrow> mQuestion (SetReply L m r) = [hd (mQuestion r)]) \<and>
        mAnswer (SetReply L m r) = mAnswer m \<and> mNs (SetReply L m r) = mNs m \<and>
        mExtra (SetReply L m r) = mExtra m)"

text \<open>A reference instance: the last OPT record counts.\<close>

fun last_opt :: "rr list \<Rightarrow> nat option" where
  "last_opt [] = None"
| "last_opt (r # rs) =
     (case last_opt rs of
        Some i \<Rightarrow> Some (Suc i)
      | None \<Rightarrow> if is_OPT r then Some 0 else None)"

definition dnslib_ref :: dnslib where
  "dnslib_ref =
     \<lparr>IsEdns0 = (\<lambda>m. last_opt (mExtra m)),
      SetEdns0 = (\<lambda>m sz do. m\<lparr>mExtra := mExtra m @
        [RR_OPT \<lparr>hName = ''.'', hRrtype = TypeOPT, hClass = sz, hTtl = (if do then 0x8000 else 0)\<rparr> []]\<rparr>),
      SetReply = (\<lambda>m r. m\<lparr>mId := mId r, mResponse := True, mRcode := RcodeSuccess,
        mQuestion := (if mQuestion r = [] then mQuestion m else [hd (mQuestion r)])\<rparr>)\<rparr>"

section \<open>Package coredns/request\<close>

text \<open>
  \<open>request.Request\<close> wraps a query: its name in canonical form, its name as asked, its
  type, the client's address as text, and \<open>SizeAndDo\<close>, which puts the OPT record that
  answers the request's one on a response.
\<close>

record reqlib =
  reqName :: "dns_msg \<Rightarrow> string"
  reqQName :: "dns_msg \<Rightarrow> string"
  reqQType :: "dns_msg \<Rightarrow> u16"
  reqSizeAndDo :: "dns_msg \<Rightarrow> dns_msg \<Rightarrow> dns_msg"

definition reqlib_laws :: "reqlib \<Rightarrow> bool" where
  "reqlib_laws Q \<longleftrightarrow>
     (\<forall>r. reqQType Q r = (case mQuestion r of [] \<Rightarrow> 0 | q # _ \<Rightarrow> qQtype q)) \<and>
     (\<forall>r q qs. mQuestion r = q # qs \<longrightarrow> reqQName Q r = qName q) \<and>
     (\<forall>r m. \<exists>e. reqSizeAndDo Q r m = m\<lparr>mExtra := e\<rparr>) \<and>
     (\<forall>r r'. mQuestion r = mQuestion r' \<longrightarrow> reqName Q r = reqName Q r')"

text \<open>A reference instance of the request wrapper.\<close>

definition reqlib_ref :: reqlib where
  "reqlib_ref =
     \<lparr>reqName = (\<lambda>r. case mQuestion r of [] \<Rightarrow> ''.'' | q # _ \<Rightarrow> qName q),
      reqQName = (\<lambda>r. case mQuestion r of [] \<Rightarrow> ''.'' | q # _ \<Rightarrow> qName q),
      reqQType = (\<lambda>r. case mQuestion r of [] \<Rightarrow> 0 | q # _ \<Rightarrow> qQtype q),
      reqSizeAndDo = (\<lambda>r m. m\<lparr>mExtra := filter is_OPT (mExtra r)\<rparr>)\<rparr>"

section \<open>Facts\<close>

lemma new_msg_simps [simp]: "mAnswer new_msg = []" "mNs new_msg = []" "mExtra new_msg = []"
  by (simp_all add: new_msg_def)

lemma is_OPT_simps [simp]:
  "is_OPT (RR_OPT h os)" "\<not> is_OPT (RR_A h a)" "\<not> is_OPT (RR_AAAA h a)" "\<not> is_OPT (RR_Other h b)"
  by (simp_all add: is_OPT_def)

lemma is_OPT_with_options [simp]: "is_OPT (with_options os r) = is_OPT r"
  by (cases r) auto

lemma map_is_OPT_set_options [simp]: "map is_OPT (mExtra (set_options m i os)) = map is_OPT (mExtra m)"
  by (auto simp: set_options_def intro: list_update_nth_map)

lemma set_options_frame [simp]:
  "mQuestion (set_options m i os) = mQuestion m" "mAnswer (set_options m i os) = mAnswer m"
  "mNs (set_options m i os) = mNs m" "mId (set_options m i os) = mId m"
  "mRcode (set_options m i os) = mRcode m" "length (mExtra (set_options m i os)) = length (mExtra m)"
  by (simp_all add: set_options_def)

lemma opt_options_set_options:
  "i < length (mExtra m) \<Longrightarrow> is_OPT (mExtra m ! i) \<Longrightarrow> opt_options (set_options m i os) i = os"
  by (auto simp: opt_options_def set_options_def is_OPT_def split: rr.splits)

lemma with_options_twice [simp]: "with_options os' (with_options os r) = with_options os' r"
  by (cases r) auto

lemma set_options_set_options [simp]:
  "set_options (set_options m i os) i os' = set_options m i os'"
  by (simp add: set_options_def)

lemma edns_None: "edns_laws L \<Longrightarrow> IsEdns0 L m = None \<longleftrightarrow> (\<forall>r \<in> set (mExtra m). \<not> is_OPT r)"
  unfolding edns_laws_def by blast

lemma edns_Some: "edns_laws L \<Longrightarrow> IsEdns0 L m = Some i \<Longrightarrow> i < length (mExtra m) \<and> is_OPT (mExtra m ! i)"
  unfolding edns_laws_def by blast

lemma edns_cong:
  "edns_laws L \<Longrightarrow> map is_OPT (mExtra m) = map is_OPT (mExtra m') \<Longrightarrow> IsEdns0 L m = IsEdns0 L m'"
  unfolding edns_laws_def by blast

lemma edns_set_options [simp]: "edns_laws L \<Longrightarrow> IsEdns0 L (set_options m i os) = IsEdns0 L m"
  by (rule edns_cong) simp_all

lemma edns_SetEdns0:
  "edns_laws L \<Longrightarrow> \<exists>h. hRrtype h = TypeOPT \<and> SetEdns0 L m sz do = m\<lparr>mExtra := mExtra m @ [RR_OPT h []]\<rparr>"
  unfolding edns_laws_def by blast

lemma edns_opt_options_set:
  "edns_laws L \<Longrightarrow> IsEdns0 L m = Some i \<Longrightarrow> opt_options (set_options m i os) i = os"
  by (blast intro: opt_options_set_options dest: edns_Some)

lemma reply_simps:
  assumes "reply_laws L"
  shows "mId (SetReply L m r) = mId r" "mResponse (SetReply L m r)" "mRcode (SetReply L m r) = RcodeSuccess"
    "mQuestion r = q # qs \<Longrightarrow> mQuestion (SetReply L m r) = [q]"
    "mAnswer (SetReply L m r) = mAnswer m" "mNs (SetReply L m r) = mNs m" "mExtra (SetReply L m r) = mExtra m"
  using assms unfolding reply_laws_def by auto

lemma req_simps:
  assumes "reqlib_laws Q" and "mQuestion r = q # qs"
  shows "reqQType Q r = qQtype q" "reqQName Q r = qName q"
  using assms unfolding reqlib_laws_def by auto

lemma req_SizeAndDo: "reqlib_laws Q \<Longrightarrow> \<exists>e. reqSizeAndDo Q r m = m\<lparr>mExtra := e\<rparr>"
  unfolding reqlib_laws_def by blast

lemma req_Name_cong: "reqlib_laws Q \<Longrightarrow> mQuestion r = mQuestion r' \<Longrightarrow> reqName Q r = reqName Q r'"
  unfolding reqlib_laws_def by blast

lemma last_opt_None: "last_opt rs = None \<longleftrightarrow> (\<forall>r \<in> set rs. \<not> is_OPT r)"
  by (induction rs) (auto split: option.splits)

lemma last_opt_Some: "last_opt rs = Some i \<Longrightarrow> i < length rs \<and> is_OPT (rs ! i)"
  by (induction rs arbitrary: i) (auto split: option.splits if_splits)

lemma last_opt_cong: "map is_OPT rs = map is_OPT rs' \<Longrightarrow> last_opt rs = last_opt rs'"
proof (induction rs arbitrary: rs')
  case Nil
  then show ?case by simp
next
  case (Cons r rs)
  then obtain r' rs'' where "rs' = r' # rs''" "is_OPT r = is_OPT r'" "map is_OPT rs = map is_OPT rs''"
    by (cases rs') auto
  with Cons.IH show ?case by fastforce
qed

lemma edns_laws_ref [simp]: "edns_laws dnslib_ref"
proof -
  have "\<exists>h. hRrtype h = TypeOPT \<and> SetEdns0 dnslib_ref m sz do = m\<lparr>mExtra := mExtra m @ [RR_OPT h []]\<rparr>"
    for m sz do
    unfolding dnslib_ref_def
    by (rule exI [of _ "\<lparr>hName = ''.'', hRrtype = TypeOPT, hClass = sz, hTtl = (if do then 0x8000 else 0)\<rparr>"]) simp
  then show ?thesis
    unfolding edns_laws_def by (auto simp: dnslib_ref_def last_opt_None dest: last_opt_Some intro: last_opt_cong)
qed

lemma reqlib_laws_ref [simp]: "reqlib_laws reqlib_ref"
  unfolding reqlib_laws_def reqlib_ref_def by auto

lemma reply_laws_ref [simp]: "reply_laws dnslib_ref"
  by (simp add: reply_laws_def dnslib_ref_def)

end
