(* ===== verification/Spiffe_Zone.thy ===== *)
theory Spiffe_Zone
  imports Go_Strings
begin

text \<open>
  Package \<open>internal/spiffezone\<close>: the zone is the second segment of a SPIFFE ID path of the
  form \<open>/zone/<zone>/...\<close>. \<open>url.Parse\<close> is the parameter \<open>url_parse\<close> of \<open>FromID\<close>: the
  source reads only the scheme and the path of its result.
\<close>

section \<open>Definitions\<close>

text \<open>The fields of \<open>url.URL\<close> the sources read, with the text \<open>URL.String\<close> returns.\<close>

record url =
  uScheme :: string
  uPath :: string
  uString :: string

datatype spiffe_error = ErrNoZone | ErrParse string | ErrNotSpiffe string

definition FromPath :: "string \<Rightarrow> spiffe_error + string" where
  "FromPath path =
     (let segs = Split (TrimPrefix path ''/'') CHR ''/''
      in if length segs < 2 \<or> segs ! 0 \<noteq> ''zone'' \<or> segs ! 1 = [] then Inl ErrNoZone
         else Inr (segs ! 1))"

definition FromID :: "(string \<Rightarrow> url option) \<Rightarrow> string \<Rightarrow> spiffe_error + string" where
  "FromID url_parse i =
     (case url_parse i of
        None \<Rightarrow> Inl (ErrParse i)
      | Some u \<Rightarrow> if uScheme u \<noteq> ''spiffe'' then Inl (ErrNotSpiffe i) else FromPath (uPath u))"

text \<open>The path a registration entry of a workload in zone \<open>z\<close> has.\<close>

definition zone_path :: "string \<Rightarrow> string list \<Rightarrow> string" where
  "zone_path z rest = CHR ''/'' # Join (''zone'' # z # rest) CHR ''/''"

section \<open>Facts\<close>

lemma Split_Cons2_iff:
  "Split s sep = a # b # ws \<longleftrightarrow>
     (\<exists>t. s = a @ sep # t \<and> sep \<notin> set a \<and> Split t sep = b # ws)"
proof
  assume sp: "Split s sep = a # b # ws"
  have "s = a @ sep # Join (b # ws) sep"
    using Join_Split [of s sep] sp by simp
  moreover have "sep \<notin> set a"
    using Split_parts [of a s sep] sp by simp
  ultimately show "\<exists>t. s = a @ sep # t \<and> sep \<notin> set a \<and> Split t sep = b # ws"
    using sp by (intro exI [of _ "Join (b # ws) sep"]) (auto simp: Split_append)
qed (auto simp: Split_append)

lemma Split_hd_cases:
  "Split s sep = b # ws \<Longrightarrow> sep \<notin> set b \<and> (s = b \<or> (\<exists>r. s = b @ sep # r))"
  using Join_Split [of s sep] Split_parts [of b s sep] by (cases ws) auto

lemma FromPath_Inr_iff:
  "FromPath p = Inr z \<longleftrightarrow>
     z \<noteq> [] \<and> CHR ''/'' \<notin> set z \<and>
     (TrimPrefix p ''/'' = ''zone/'' @ z \<or> (\<exists>r. TrimPrefix p ''/'' = ''zone/'' @ z @ CHR ''/'' # r))"
proof -
  let ?s = "TrimPrefix p ''/''"
  have "FromPath p = Inr z \<longleftrightarrow> (\<exists>ws. Split ?s CHR ''/'' = ''zone'' # z # ws) \<and> z \<noteq> []"
    by (cases "Split ?s CHR ''/''"; cases "tl (Split ?s CHR ''/'')") (auto simp: FromPath_def Let_def)
  also have "\<dots> \<longleftrightarrow> (\<exists>t ws. ?s = ''zone/'' @ t \<and> Split t CHR ''/'' = z # ws) \<and> z \<noteq> []"
    by (auto simp: Split_Cons2_iff)
  also have "\<dots> \<longleftrightarrow> z \<noteq> [] \<and> CHR ''/'' \<notin> set z \<and>
      (?s = ''zone/'' @ z \<or> (\<exists>r. ?s = ''zone/'' @ z @ CHR ''/'' # r))"
    by (auto simp: Split_no_sep Split_append dest!: Split_hd_cases)
  finally show ?thesis .
qed

lemma FromPath_zone_path:
  "z \<noteq> [] \<Longrightarrow> CHR ''/'' \<notin> set z \<Longrightarrow> FromPath (zone_path z rest) = Inr z"
  by (cases rest) (auto simp: FromPath_Inr_iff zone_path_def TrimPrefix_def HasPrefix_def)

section \<open>Properties\<close>

text \<open>
  \<open>FromPath\<close> extracts exactly the segment after \<open>zone/\<close>: it returns a zone
  iff the path, less one leading slash, is \<open>zone/<z>\<close> or \<open>zone/<z>/...\<close> with a
  non-empty \<open>z\<close> that has no slash, and otherwise reports \<open>ErrNoZone\<close>; in particular it
  reads the zone back from every path built from one.
\<close>

theorem FromPath_correct:
  "(FromPath p = Inr z \<longleftrightarrow>
      z \<noteq> [] \<and> CHR ''/'' \<notin> set z \<and>
      (TrimPrefix p ''/'' = ''zone/'' @ z \<or> (\<exists>r. TrimPrefix p ''/'' = ''zone/'' @ z @ CHR ''/'' # r))) \<and>
   (FromPath p = Inl ErrNoZone \<or> (\<exists>y. FromPath p = Inr y)) \<and>
   (FromPath (zone_path z rest) = Inr z \<or> z = [] \<or> CHR ''/'' \<in> set z)"
proof (intro conjI)
  show "FromPath p = Inl ErrNoZone \<or> (\<exists>y. FromPath p = Inr y)"
    by (simp add: FromPath_def Let_def)
  show "FromPath (zone_path z rest) = Inr z \<or> z = [] \<or> CHR ''/'' \<in> set z"
    using FromPath_zone_path by blast
qed (rule FromPath_Inr_iff)

end
