(* ===== verification/Transport.thy ===== *)
theory Transport
  imports Dns_Msg Spiffe_Zone
begin

text \<open>
  The data a handler is given beside the query: the request context, the TLS state of the
  connection and the response writer. Only what the sources read is kept.

  A Go pointer that may be nil is an \<open>option\<close>. \<open>ctxHTTP\<close> is the context value under
  \<open>dnsserver.HTTPRequestKey\<close>: \<^const>\<open>None\<close> when there is none of type \<open>*http.Request\<close>,
  \<open>Some None\<close> for a nil pointer. \<open>wConn\<close> is \<^const>\<open>None\<close> for a writer that does not
  implement \<open>dns.ConnectionStater\<close> (a wrapped one, for example), \<open>Some None\<close> when its
  \<open>ConnectionState\<close> is nil.
\<close>

record cert =
  cURIs :: "url option list"

record tls_state =
  tlsPeerCertificates :: "cert list"

record http_request =
  httpTLS :: "tls_state option"

record go_context =
  ctxHTTP :: "http_request option option"

record writer =
  wConn :: "tls_state option option"
  wRemoteIP :: string
  wWritten :: "dns_msg list"

text \<open>
  \<open>WriteMsg\<close>. The sources only log its error, so the messages handed to the writer, in
  order, are all there is to know of it.
\<close>

definition WriteMsg :: "writer \<Rightarrow> dns_msg \<Rightarrow> writer" where
  "WriteMsg w m = w\<lparr>wWritten := wWritten w @ [m]\<rparr>"

lemma WriteMsg_simps [simp]:
  "wWritten (WriteMsg w m) = wWritten w @ [m]" "wConn (WriteMsg w m) = wConn w"
  "wRemoteIP (WriteMsg w m) = wRemoteIP w"
  by (simp_all add: WriteMsg_def)

end
