(* ===== verification/Edns_Zone.thy ===== *)
theory Edns_Zone
  imports Dns_Msg
begin

text \<open>
  Package \<open>internal/ednszone\<close>: the EDNS0 option that carries the source zone from the node
  side to central. \<open>ednszone_Valid\<close> is the character rule both ends apply,
  \<open>ednszone_Set\<close> writes the declaration and \<open>ednszone_Get\<close> reads it. The last section
  states the wire contract as an interface, \<open>zone_wire\<close>, on which the node side and
  central rely.
\<close>

section \<open>Definitions\<close>

definition ednszone_DefaultCode :: u16 where
  "ednszone_DefaultCode = 65001"

definition ednszone_MaxLen :: nat where
  "ednszone_MaxLen = 63"

definition zone_byte :: "char \<Rightarrow> bool" where
  "zone_byte c =
     ((CHR ''a'' \<le> c \<and> c \<le> CHR ''z'') \<or>
      (CHR ''A'' \<le> c \<and> c \<le> CHR ''Z'') \<or>
      (CHR ''0'' \<le> c \<and> c \<le> CHR ''9'') \<or>
      (c = CHR ''-'' \<or> c = CHR ''_''))"

fun valid_loop :: "string \<Rightarrow> bool" where
  "valid_loop [] = True"
| "valid_loop (c # cs) = (if zone_byte c then valid_loop cs else False)"

definition ednszone_Valid :: "string \<Rightarrow> bool" where
  "ednszone_Valid zone =
     (if zone = [] \<or> length zone > ednszone_MaxLen then False else valid_loop zone)"

text \<open>\<open>l, isLocal := o.(*dns.EDNS0_LOCAL); isLocal \<and> l.Code == code\<close>\<close>

fun is_local_code :: "u16 \<Rightarrow> edns0 \<Rightarrow> bool" where
  "is_local_code code (EDNS0_LOCAL c d) = (c = code)"
| "is_local_code code (EDNS0_OTHER c d) = False"

text \<open>The filter loop shared by \<open>Set\<close> and by the node side's \<open>stripZoneOption\<close>.\<close>

fun kept_options :: "u16 \<Rightarrow> edns0 list \<Rightarrow> edns0 list" where
  "kept_options code [] = []"
| "kept_options code (o' # os) =
     (if is_local_code code o' then kept_options code os else o' # kept_options code os)"

text \<open>
  \<open>Set\<close>. The result is \<^const>\<open>None\<close> where the Go code would dereference a nil OPT
  pointer, which happens only if \<open>IsEdns0\<close> still finds none after \<open>SetEdns0\<close>.
\<close>

definition ednszone_Set :: "dnslib \<Rightarrow> dns_msg \<Rightarrow> u16 \<Rightarrow> string \<Rightarrow> dns_msg option" where
  "ednszone_Set L m code zone =
     (let m1 = (case IsEdns0 L m of None \<Rightarrow> SetEdns0 L m DefaultMsgSize False | Some _ \<Rightarrow> m)
      in (case IsEdns0 L m1 of
            None \<Rightarrow> None
          | Some i \<Rightarrow>
              Some (set_options m1 i (kept_options code (opt_options m1 i) @ [EDNS0_LOCAL code zone]))))"

text \<open>The loop of \<open>Get\<close>: \<^const>\<open>None\<close> is the early \<open>return "", false\<close> on a second match.\<close>

fun get_loop :: "u16 \<Rightarrow> nat \<Rightarrow> string \<Rightarrow> edns0 list \<Rightarrow> (nat \<times> string) option" where
  "get_loop code matches zone [] = Some (matches, zone)"
| "get_loop code matches zone (EDNS0_OTHER c d # os) = get_loop code matches zone os"
| "get_loop code matches zone (EDNS0_LOCAL c d # os) =
     (if c \<noteq> code then get_loop code matches zone os
      else if matches + 1 > 1 then None
      else get_loop code (matches + 1) d os)"

definition ednszone_Get :: "dnslib \<Rightarrow> dns_msg \<Rightarrow> u16 \<Rightarrow> string option" where
  "ednszone_Get L m code =
     (case IsEdns0 L m of
        None \<Rightarrow> None
      | Some i \<Rightarrow>
          (case get_loop code 0 [] (opt_options m i) of
             None \<Rightarrow> None
           | Some (matches, zone) \<Rightarrow>
               if matches \<noteq> 1 \<or> \<not> ednszone_Valid zone then None else Some zone))"

section \<open>Facts\<close>

lemma valid_loop_iff: "valid_loop z \<longleftrightarrow> (\<forall>c \<in> set z. zone_byte c)"
  by (induction z) auto

lemma ednszone_Valid_iff:
  "ednszone_Valid z \<longleftrightarrow> z \<noteq> [] \<and> length z \<le> 63 \<and> (\<forall>c \<in> set z. zone_byte c)"
  by (auto simp: ednszone_Valid_def ednszone_MaxLen_def valid_loop_iff)

lemma Valid_not_Nil [simp]: "\<not> ednszone_Valid []"
  by (simp add: ednszone_Valid_iff)

lemma kept_options_filter: "kept_options code os = filter (\<lambda>o'. \<not> is_local_code code o') os"
  by (induction os) auto

lemma is_local_codeE: "is_local_code code o' \<Longrightarrow> (\<And>d. o' = EDNS0_LOCAL code d \<Longrightarrow> P) \<Longrightarrow> P"
  by (cases o') auto

lemma get_loop_one:
  "get_loop code (Suc 0) zone os =
     (if filter (is_local_code code) os = [] then Some (1, zone) else None)"
  by (induction code "Suc 0" zone os rule: get_loop.induct) auto

lemma get_loop_zero:
  "get_loop code 0 z0 os =
     (case filter (is_local_code code) os of
        [] \<Rightarrow> Some (0, z0)
      | [EDNS0_LOCAL c d] \<Rightarrow> Some (1, d)
      | _ \<Rightarrow> None)"
proof (induction code "0 :: nat" z0 os rule: get_loop.induct)
  case (3 code zone c d os)
  show ?case
  proof (cases "c = code")
    case True
    then show ?thesis by (simp add: get_loop_one split: list.splits)
  next
    case False
    with 3 show ?thesis by simp
  qed
qed auto

lemma get_loop_Some_one:
  "get_loop code 0 [] os = Some (Suc 0, z) \<longleftrightarrow> filter (is_local_code code) os = [EDNS0_LOCAL code z]"
proof
  assume a: "get_loop code 0 [] os = Some (Suc 0, z)"
  then obtain o' where f: "filter (is_local_code code) os = [o']"
    by (auto simp: get_loop_zero split: list.splits edns0.splits)
  then have "o' \<in> set (filter (is_local_code code) os)" by simp
  then have "is_local_code code o'" by simp
  with a f show "filter (is_local_code code) os = [EDNS0_LOCAL code z]"
    by (auto simp: get_loop_zero elim!: is_local_codeE)
qed (simp add: get_loop_zero)

lemma get_loop_matches: "get_loop code 0 z0 os = Some (n, z) \<Longrightarrow> n \<le> 1"
  by (auto simp: get_loop_zero split: list.splits edns0.splits)

lemma filter_kept_options:
  "filter (is_local_code code) (kept_options code os) = []"
  by (simp add: kept_options_filter filter_empty_conv)

lemma kept_options_idem [simp]:
  "kept_options code (kept_options code os @ [EDNS0_LOCAL code z]) = kept_options code os"
  by (simp add: kept_options_filter)

lemma Get_iff:
  "ednszone_Get L m code = Some z \<longleftrightarrow>
     (\<exists>i. IsEdns0 L m = Some i \<and>
          filter (is_local_code code) (opt_options m i) = [EDNS0_LOCAL code z] \<and> ednszone_Valid z)"
proof -
  have "(case get_loop code 0 [] os of None \<Rightarrow> None
         | Some (matches, zone) \<Rightarrow> if matches \<noteq> 1 \<or> \<not> ednszone_Valid zone then None else Some zone) = Some z
      \<longleftrightarrow> get_loop code 0 [] os = Some (Suc 0, z) \<and> ednszone_Valid z" for os
    by (auto split: option.splits if_splits)
  then show ?thesis
    by (simp add: ednszone_Get_def get_loop_Some_one split: option.splits)
qed

lemma Get_valid: "ednszone_Get L m code = Some z \<Longrightarrow> ednszone_Valid z"
  by (auto simp: Get_iff)

lemma Get_no_opt: "IsEdns0 L m = None \<Longrightarrow> ednszone_Get L m code = None"
  by (simp add: ednszone_Get_def)

lemma Get_no_match:
  "IsEdns0 L m = Some i \<Longrightarrow> filter (is_local_code code) (opt_options m i) = [] \<Longrightarrow> ednszone_Get L m code = None"
  by (simp add: ednszone_Get_def get_loop_zero)

text \<open>What \<open>Get\<close> reads is determined by the OPT records of the additional section.\<close>

lemma Get_cong:
  assumes "edns_laws L" and "mExtra m = mExtra m'"
  shows "ednszone_Get L m code = ednszone_Get L m' code"
proof -
  have "IsEdns0 L m = IsEdns0 L m'"
    by (rule edns_cong) (simp_all add: assms)
  moreover have "opt_options m = opt_options m'"
    by (simp add: fun_eq_iff opt_options_def assms(2))
  ultimately show ?thesis
    by (simp add: ednszone_Get_def cong: option.case_cong)
qed

text \<open>
  \<open>Set\<close> in closed form: the message it writes into (the original, or the original with a
  fresh OPT record), and the option list it leaves there.
\<close>

lemma Set_cases:
  assumes "edns_laws L"
  obtains (existing) i where "IsEdns0 L m = Some i"
      "ednszone_Set L m code z =
         Some (set_options m i (kept_options code (opt_options m i) @ [EDNS0_LOCAL code z]))"
  | (fresh) h where "IsEdns0 L m = None" "hRrtype h = TypeOPT"
      "ednszone_Set L m code z = Some (m\<lparr>mExtra := mExtra m @ [RR_OPT h [EDNS0_LOCAL code z]]\<rparr>)"
proof (cases "IsEdns0 L m")
  case (Some i)
  then show ?thesis by (intro existing [of i]) (simp_all add: ednszone_Set_def)
next
  case None
  obtain h where h: "hRrtype h = TypeOPT"
      "SetEdns0 L m DefaultMsgSize False = m\<lparr>mExtra := mExtra m @ [RR_OPT h []]\<rparr>"
    using edns_SetEdns0 [OF assms] by blast
  let ?m1 = "m\<lparr>mExtra := mExtra m @ [RR_OPT h []]\<rparr>"
  from assms None have no: "\<forall>r \<in> set (mExtra m). \<not> is_OPT r" by (simp add: edns_None)
  have "IsEdns0 L ?m1 \<noteq> None" using edns_None [OF assms, of ?m1] by simp
  then obtain i where i: "IsEdns0 L ?m1 = Some i" by blast
  have "i = length (mExtra m)"
    using edns_Some [OF assms i] no by (auto simp: nth_append nth_mem split: if_splits)
  with i h None show ?thesis
    by (intro fresh [of h]) (simp_all add: ednszone_Set_def opt_options_def set_options_def)
qed

lemma Set_total: "edns_laws L \<Longrightarrow> \<exists>m'. ednszone_Set L m code z = Some m'"
  by (metis Set_cases)

lemma Set_options:
  assumes "edns_laws L" and "ednszone_Set L m code z = Some m'"
  shows "\<exists>i. IsEdns0 L m' = Some i \<and>
     opt_options m' i = (case IsEdns0 L m of None \<Rightarrow> [] | Some j \<Rightarrow> kept_options code (opt_options m j)) @
       [EDNS0_LOCAL code z]"
  using assms(1)
proof (cases rule: Set_cases [of L m code z])
  case (existing i)
  with assms show ?thesis
    by (auto simp: edns_opt_options_set)
next
  case (fresh h)
  with assms have m': "m' = m\<lparr>mExtra := mExtra m @ [RR_OPT h [EDNS0_LOCAL code z]]\<rparr>" by simp
  have no: "\<forall>r \<in> set (mExtra m). \<not> is_OPT r" using assms(1) fresh(1) by (simp add: edns_None)
  have "IsEdns0 L m' \<noteq> None" using edns_None [OF assms(1), of m'] by (simp add: m')
  then obtain i where i: "IsEdns0 L m' = Some i" by blast
  have "i = length (mExtra m)"
    using edns_Some [OF assms(1) i] no by (auto simp: m' nth_append nth_mem split: if_splits)
  with i fresh(1) show ?thesis by (simp add: m' opt_options_def)
qed

lemma Set_frame:
  assumes "edns_laws L" and "ednszone_Set L m code z = Some m'"
  shows "mQuestion m' = mQuestion m \<and> mAnswer m' = mAnswer m \<and> mNs m' = mNs m \<and>
         mId m' = mId m \<and> mRcode m' = mRcode m"
  using assms by (cases rule: Set_cases [of L m code z]) auto

lemma Get_Set:
  assumes "edns_laws L" and "ednszone_Set L m code z = Some m'"
  shows "ednszone_Get L m' code = (if ednszone_Valid z then Some z else None)"
proof -
  obtain i ks where i: "IsEdns0 L m' = Some i"
      "filter (is_local_code code) (opt_options m' i) = [EDNS0_LOCAL code z]"
    using Set_options [OF assms] by (auto simp: filter_kept_options split: option.splits)
  then show ?thesis
    by (simp add: ednszone_Get_def get_loop_zero)
qed

section \<open>The wire contract\<close>

text \<open>
  What both ends rely on: a valid zone written is the zone read, whatever the message
  carried before, and nothing invalid is ever read.
\<close>

locale zone_wire =
  fixes lib_ok :: bool
    and declare_zone :: "'m \<Rightarrow> string \<Rightarrow> 'm option"
    and read_zone :: "'m \<Rightarrow> string option"
    and valid :: "string \<Rightarrow> bool"
  assumes declare_total: "lib_ok \<Longrightarrow> \<exists>m'. declare_zone m z = Some m'"
    and read_declared:
      "lib_ok \<Longrightarrow> declare_zone m z = Some m' \<Longrightarrow> read_zone m' = (if valid z then Some z else None)"
    and read_valid: "read_zone m = Some z \<Longrightarrow> valid z"
begin

lemma declared_read: "lib_ok \<Longrightarrow> valid z \<Longrightarrow> \<exists>m'. declare_zone m z = Some m' \<and> read_zone m' = Some z"
  using declare_total read_declared by metis

lemma last_declaration_wins:
  "lib_ok \<Longrightarrow> declare_zone m y = Some m' \<Longrightarrow> declare_zone m' z = Some m'' \<Longrightarrow> valid z \<Longrightarrow>
     read_zone m'' = Some z"
  by (simp add: read_declared)

lemma declaration_injective:
  "lib_ok \<Longrightarrow> declare_zone m z = Some m' \<Longrightarrow> declare_zone m z' = Some m' \<Longrightarrow>
     valid z \<Longrightarrow> valid z' \<Longrightarrow> z = z'"
  by (metis option.inject read_declared)

end

text \<open>The package's own operations provide the contract, over every DNS library that keeps
  \<open>edns_laws\<close>.\<close>

interpretation zw: zone_wire "edns_laws L" "\<lambda>m. ednszone_Set L m code" "\<lambda>m. ednszone_Get L m code"
    ednszone_Valid for L code
  by unfold_locales (auto simp: Set_total Get_Set Get_valid)

section \<open>Properties\<close>

text \<open>
  Property C8. Round trip of the wire format: for every DNS library with the documented
  EDNS0 behaviour, every message and every option code, \<open>Set\<close> of a valid zone succeeds
  and \<open>Get\<close> reads back exactly that zone, whatever options (older declarations
  included) the message carried before; the question, the answers and the message ID are
  untouched.
\<close>

theorem wire_roundtrip:
  assumes "edns_laws L" and "ednszone_Valid z"
  shows "\<exists>m'. ednszone_Set L m code z = Some m' \<and> ednszone_Get L m' code = Some z \<and>
     mQuestion m' = mQuestion m \<and> mAnswer m' = mAnswer m \<and> mNs m' = mNs m \<and> mId m' = mId m"
proof -
  obtain m' where m': "ednszone_Set L m code z = Some m'" "ednszone_Get L m' code = Some z"
    using zw.declared_read [OF assms] by blast
  with Set_frame [OF assms(1) m'(1)] show ?thesis by auto
qed

theorem wire_roundtrip_witness:
  "edns_laws dnslib_ref \<and> ednszone_Valid ''zone-a'' \<and>
   (\<exists>m'. ednszone_Set dnslib_ref
       \<lparr>mId = 7, mResponse = False, mAuthoritative = False, mRcode = 0,
        mQuestion = [\<lparr>qName = ''payments.example.com.'', qQtype = TypeA, qQclass = ClassINET\<rparr>],
        mAnswer = [], mNs = [],
        mExtra = [RR_OPT \<lparr>hName = ''.'', hRrtype = TypeOPT, hClass = 1232, hTtl = 0\<rparr>
          [EDNS0_LOCAL 65001 ''zone-b'', EDNS0_OTHER 3 ''id'']]\<rparr> 65001 ''zone-a'' = Some m' \<and>
     ednszone_Get dnslib_ref m' 65001 = Some ''zone-a'')"
proof -
  have v: "ednszone_Valid ''zone-a''" by code_simp
  show ?thesis
    using wire_roundtrip [OF edns_laws_ref v] v by fastforce
qed

text \<open>
  Property C15. \<open>Get\<close> fails closed: it returns a zone exactly when the OPT record carries
  one single local option under the code, and its payload is a well-formed zone. No OPT
  record, no such option, two or more of them (even identical ones) or an ill-formed
  payload all read as no declaration.
\<close>

theorem Get_fails_closed:
  "ednszone_Get L m code = Some z \<longleftrightarrow>
     (\<exists>i us vs. IsEdns0 L m = Some i \<and> opt_options m i = us @ EDNS0_LOCAL code z # vs \<and>
        (\<forall>d. EDNS0_LOCAL code d \<notin> set us \<union> set vs) \<and>
        z \<noteq> [] \<and> length z \<le> 63 \<and> list_all zone_byte z)"
proof -
  have none: "filter (is_local_code code) os = [] \<longleftrightarrow> (\<forall>d. EDNS0_LOCAL code d \<notin> set os)" for os
    by (force simp: filter_empty_conv elim!: is_local_codeE)
  have one: "filter (is_local_code code) os = [EDNS0_LOCAL code z] \<longleftrightarrow>
      (\<exists>us vs. os = us @ EDNS0_LOCAL code z # vs \<and> (\<forall>d. EDNS0_LOCAL code d \<notin> set us \<union> set vs))" for os
  proof
    assume "filter (is_local_code code) os = [EDNS0_LOCAL code z]"
    then obtain us vs where "os = us @ EDNS0_LOCAL code z # vs"
        "\<forall>u \<in> set us. \<not> is_local_code code u" "filter (is_local_code code) vs = []"
      by (auto simp: filter_eq_Cons_iff)
    then show "\<exists>us vs. os = us @ EDNS0_LOCAL code z # vs \<and> (\<forall>d. EDNS0_LOCAL code d \<notin> set us \<union> set vs)"
      using none by (intro exI [of _ us] exI [of _ vs]) auto
  next
    assume "\<exists>us vs. os = us @ EDNS0_LOCAL code z # vs \<and> (\<forall>d. EDNS0_LOCAL code d \<notin> set us \<union> set vs)"
    then show "filter (is_local_code code) os = [EDNS0_LOCAL code z]"
      using none [THEN iffD2] by (auto simp del: filter_empty_conv)
  qed
  show ?thesis
    unfolding list_all_iff by (auto simp: Get_iff one ednszone_Valid_iff)
qed

end
