(* ===== verification/Identity.thy ===== *)
theory Identity
  imports Transport Edns_Zone
begin

text \<open>
  Package \<open>internal/identity\<close>, the trust boundary of central: the client certificate of a
  query, the SPIFFE ID of its leaf, and the source zone, which is read from the query only
  for an authorized agent. The interface \<open>trust_boundary\<close> states what the handler relies
  on.
\<close>

section \<open>Peer certificates (peercert.go)\<close>

definition certsFromState :: "tls_state option \<Rightarrow> cert list option" where
  "certsFromState st =
     (case st of
        None \<Rightarrow> None
      | Some s \<Rightarrow> if length (tlsPeerCertificates s) = 0 then None else Some (tlsPeerCertificates s))"

definition PeerCertificates :: "go_context \<Rightarrow> writer \<Rightarrow> cert list option" where
  "PeerCertificates ctx w =
     (case ctxHTTP ctx of
        Some (Some req) \<Rightarrow> certsFromState (httpTLS req)
      | _ \<Rightarrow>
          (case wConn w of
             Some cs \<Rightarrow> certsFromState cs
           | None \<Rightarrow> None))"

definition SPIFFEIDFromCert :: "cert \<Rightarrow> string option" where
  "SPIFFEIDFromCert c =
     (if length (cURIs c) \<noteq> 1 then None
      else (case cURIs c ! 0 of
              None \<Rightarrow> None
            | Some u \<Rightarrow> if uScheme u \<noteq> ''spiffe'' then None else Some (uString u)))"

section \<open>Source zone (identity.go)\<close>

text \<open>\<open>type Reason int\<close>: the four constants, and any other integer.\<close>

datatype Reason = ReasonOK | ReasonNoTLS | ReasonUnauthorizedAgent | ReasonNoDeclaration | ReasonOther int

fun Reason_String :: "Reason \<Rightarrow> string" where
  "Reason_String ReasonOK = ''ok''"
| "Reason_String ReasonNoTLS = ''no_tls''"
| "Reason_String ReasonUnauthorizedAgent = ''unauthorized_agent''"
| "Reason_String ReasonNoDeclaration = ''no_declaration''"
| "Reason_String (ReasonOther n) = ''unknown''"

record identity_config =
  icAuthorized :: "(string, unit) gomap"
  icCode :: u16

definition NewConfig :: "string list \<Rightarrow> u16 \<Rightarrow> identity_config" where
  "NewConfig agents code =
     \<lparr>icAuthorized = fold (\<lambda>a s. gm_put s a ()) agents gm_empty, icCode = code\<rparr>"

text \<open>\<open>certs[0]\<close> is in range: \<open>certsFromState\<close> returns non-empty chains only.\<close>

definition SourceZone :: "dnslib \<Rightarrow> identity_config \<Rightarrow> go_context \<Rightarrow> writer \<Rightarrow> dns_msg \<Rightarrow> string \<times> Reason" where
  "SourceZone L c ctx w r =
     (case PeerCertificates ctx w of
        None \<Rightarrow> ([], ReasonNoTLS)
      | Some certs \<Rightarrow>
          (case SPIFFEIDFromCert (certs ! 0) of
             None \<Rightarrow> ([], ReasonUnauthorizedAgent)
           | Some i \<Rightarrow>
               if gm_get (icAuthorized c) i = None then ([], ReasonUnauthorizedAgent)
               else (case ednszone_Get L r (icCode c) of
                       None \<Rightarrow> ([], ReasonNoDeclaration)
                     | Some zone \<Rightarrow> (zone, ReasonOK))))"

section \<open>Facts\<close>

lemma certsFromState_not_Nil: "certsFromState st = Some cs \<Longrightarrow> cs \<noteq> []"
  by (auto simp: certsFromState_def split: option.splits if_splits)

lemma PeerCertificates_not_Nil: "PeerCertificates ctx w = Some cs \<Longrightarrow> cs \<noteq> []"
  by (auto simp: PeerCertificates_def split: option.splits dest: certsFromState_not_Nil)

lemma PeerCertificates_DoH:
  "ctxHTTP ctx = Some (Some req) \<Longrightarrow> PeerCertificates ctx w = certsFromState (httpTLS req)"
  by (simp add: PeerCertificates_def)

lemma SPIFFEIDFromCert_iff:
  "SPIFFEIDFromCert c = Some i \<longleftrightarrow>
     (\<exists>u. cURIs c = [Some u] \<and> uScheme u = ''spiffe'' \<and> i = uString u)"
  by (cases "cURIs c") (auto simp: SPIFFEIDFromCert_def split: option.splits if_splits)

lemma authorized_NewConfig:
  "gm_get (icAuthorized (NewConfig agents code)) i = (if i \<in> set agents then Some () else None)"
proof -
  have "gm_get (fold (\<lambda>a s. gm_put s a ()) agents m) i =
      (if i \<in> set agents then Some () else gm_get m i)" for m
    by (induction agents arbitrary: m) auto
  then show ?thesis by (simp add: NewConfig_def)
qed

lemma NewConfig_code [simp]: "icCode (NewConfig agents code) = code"
  by (simp add: NewConfig_def)

text \<open>
  The identity a connection proves: the SPIFFE ID of the leaf certificate, if it has
  exactly one.
\<close>

definition peer_id :: "go_context \<Rightarrow> writer \<Rightarrow> string option" where
  "peer_id ctx w =
     (case PeerCertificates ctx w of None \<Rightarrow> None | Some cs \<Rightarrow> SPIFFEIDFromCert (hd cs))"

definition authorized_peer :: "string list \<Rightarrow> go_context \<Rightarrow> writer \<Rightarrow> bool" where
  "authorized_peer agents ctx w = (\<exists>i \<in> set agents. peer_id ctx w = Some i)"

lemma SourceZone_authorized:
  "authorized_peer agents ctx w \<Longrightarrow>
     SourceZone L (NewConfig agents code) ctx w r =
       (case ednszone_Get L r code of None \<Rightarrow> ([], ReasonNoDeclaration) | Some z \<Rightarrow> (z, ReasonOK))"
  by (auto simp: authorized_peer_def peer_id_def SourceZone_def authorized_NewConfig hd_conv_nth
      PeerCertificates_not_Nil split: option.splits)

lemma SourceZone_unauthorized:
  "\<not> authorized_peer agents ctx w \<Longrightarrow>
     SourceZone L (NewConfig agents code) ctx w r =
       ([], if PeerCertificates ctx w = None then ReasonNoTLS else ReasonUnauthorizedAgent)"
  by (auto simp: authorized_peer_def peer_id_def SourceZone_def authorized_NewConfig hd_conv_nth
      PeerCertificates_not_Nil split: option.splits)

lemma SourceZone_OK_iff:
  "SourceZone L (NewConfig agents code) ctx w r = (z, ReasonOK) \<longleftrightarrow>
     authorized_peer agents ctx w \<and> ednszone_Get L r code = Some z"
proof (cases "authorized_peer agents ctx w")
  case True
  then show ?thesis by (auto simp: SourceZone_authorized split: option.splits)
next
  case False
  then show ?thesis by (auto simp: SourceZone_unauthorized split: if_splits)
qed

section \<open>The interface of the trust boundary\<close>

text \<open>
  What central's handler relies on: a source zone comes only from an authorized peer and
  is well formed, and the message of any other peer has no influence.
\<close>

locale trust_boundary =
  fixes source_zone :: "'c \<Rightarrow> 'm \<Rightarrow> string \<times> Reason"
    and trusted :: "'c \<Rightarrow> bool"
  assumes ok_trusted: "source_zone c m = (z, ReasonOK) \<Longrightarrow> trusted c"
    and ok_valid: "source_zone c m = (z, ReasonOK) \<Longrightarrow> ednszone_Valid z"
    and untrusted_ignored: "\<not> trusted c \<Longrightarrow> source_zone c m = source_zone c m'"
begin

lemma untrusted_not_ok: "\<not> trusted c \<Longrightarrow> snd (source_zone c m) \<noteq> ReasonOK"
  by (metis ok_trusted prod.collapse)

lemma ok_not_empty: "source_zone c m = (z, ReasonOK) \<Longrightarrow> z \<noteq> []"
  using ok_valid by fastforce

end

interpretation tb: trust_boundary "\<lambda>(ctx, w) r. SourceZone L (NewConfig agents code) ctx w r"
    "\<lambda>(ctx, w). authorized_peer agents ctx w" for L agents code
proof unfold_locales
  fix c m m' z
  show "(case c of (ctx, w) \<Rightarrow> authorized_peer agents ctx w)"
    if "(case c of (ctx, w) \<Rightarrow> \<lambda>r. SourceZone L (NewConfig agents code) ctx w r) m = (z, ReasonOK)"
    using that by (auto simp: SourceZone_OK_iff split: prod.splits)
  show "ednszone_Valid z"
    if "(case c of (ctx, w) \<Rightarrow> \<lambda>r. SourceZone L (NewConfig agents code) ctx w r) m = (z, ReasonOK)"
    using that by (auto simp: SourceZone_OK_iff Get_valid split: prod.splits)
  show "(case c of (ctx, w) \<Rightarrow> \<lambda>r. SourceZone L (NewConfig agents code) ctx w r) m =
      (case c of (ctx, w) \<Rightarrow> \<lambda>r. SourceZone L (NewConfig agents code) ctx w r) m'"
    if "\<not> (case c of (ctx, w) \<Rightarrow> authorized_peer agents ctx w)"
    using that by (auto simp: SourceZone_unauthorized split: prod.splits)
qed

section \<open>Properties\<close>

text \<open>
  Property C5. The trust boundary: central obtains source zone \<open>z\<close> from a query exactly when
  the connection presents a certificate chain whose leaf carries one single URI SAN, that
  SAN is a SPIFFE ID on the configured list of agents, and the query carries one single
  well-formed declaration of \<open>z\<close>. An empty list of agents authorizes nobody.
\<close>

theorem SourceZone_trust_boundary:
  "SourceZone L (NewConfig agents code) ctx w r = (z, ReasonOK) \<longleftrightarrow>
     (\<exists>leaf chain u. PeerCertificates ctx w = Some (leaf # chain) \<and>
        cURIs leaf = [Some u] \<and> uScheme u = ''spiffe'' \<and> uString u \<in> set agents) \<and>
     ednszone_Get L r code = Some z"
proof -
  have "authorized_peer agents ctx w \<longleftrightarrow>
      (\<exists>leaf chain u. PeerCertificates ctx w = Some (leaf # chain) \<and>
        cURIs leaf = [Some u] \<and> uScheme u = ''spiffe'' \<and> uString u \<in> set agents)"
    using PeerCertificates_not_Nil [of ctx w]
    by (auto simp: authorized_peer_def peer_id_def SPIFFEIDFromCert_iff neq_Nil_conv split: option.splits)
  then show ?thesis by (simp add: SourceZone_OK_iff)
qed

text \<open>
  Property C21. A declaration by anybody but an authorized agent is not read: for a peer
  whose leaf certificate does not prove an authorized SPIFFE ID, two queries that differ
  arbitrarily give the same verdict, it is never \<open>ReasonOK\<close>, and the verdict is
  \<open>ReasonUnauthorizedAgent\<close> whenever any certificate was presented.
\<close>

theorem SourceZone_ignores_unauthorized:
  assumes "\<not> authorized_peer agents ctx w"
  shows "SourceZone L (NewConfig agents code) ctx w r = SourceZone L (NewConfig agents code) ctx w r' \<and>
     snd (SourceZone L (NewConfig agents code) ctx w r) =
       (if PeerCertificates ctx w = None then ReasonNoTLS else ReasonUnauthorizedAgent)"
  using assms tb.untrusted_ignored [of agents "(ctx, w)" L code r r'] by (simp add: SourceZone_unauthorized)

theorem SourceZone_ignores_unauthorized_witness:
  "\<not> authorized_peer [''spiffe://d/agent'']
      \<lparr>ctxHTTP = Some (Some \<lparr>httpTLS = Some \<lparr>tlsPeerCertificates =
         [\<lparr>cURIs = [Some \<lparr>uScheme = ''spiffe'', uPath = ''/agent'', uString = ''spiffe://d/agent''\<rparr>,
                   Some \<lparr>uScheme = ''spiffe'', uPath = ''/x'', uString = ''spiffe://d/x''\<rparr>]\<rparr>]\<rparr>\<rparr>)\<rparr>
      \<lparr>wConn = None, wRemoteIP = ''10.0.0.1'', wWritten = []\<rparr> \<and>
   snd (SourceZone dnslib_ref (NewConfig [''spiffe://d/agent''] 65001)
      \<lparr>ctxHTTP = Some (Some \<lparr>httpTLS = Some \<lparr>tlsPeerCertificates =
         [\<lparr>cURIs = [Some \<lparr>uScheme = ''spiffe'', uPath = ''/agent'', uString = ''spiffe://d/agent''\<rparr>,
                   Some \<lparr>uScheme = ''spiffe'', uPath = ''/x'', uString = ''spiffe://d/x''\<rparr>]\<rparr>]\<rparr>\<rparr>)\<rparr>
      \<lparr>wConn = None, wRemoteIP = ''10.0.0.1'', wWritten = []\<rparr>
      \<lparr>mId = 7, mResponse = False, mAuthoritative = False, mRcode = 0, mQuestion = [],
        mAnswer = [], mNs = [], mExtra = [RR_OPT \<lparr>hName = ''.'', hRrtype = TypeOPT, hClass = 1232, hTtl = 0\<rparr>
          [EDNS0_LOCAL 65001 ''zone-b'']]\<rparr>) = ReasonUnauthorizedAgent"
  (is "\<not> authorized_peer ?a ?c ?w \<and> snd (SourceZone _ _ _ _ ?m) = _")
proof -
  have certs: "PeerCertificates ?c ?w = Some
      [\<lparr>cURIs = [Some \<lparr>uScheme = ''spiffe'', uPath = ''/agent'', uString = ''spiffe://d/agent''\<rparr>,
        Some \<lparr>uScheme = ''spiffe'', uPath = ''/x'', uString = ''spiffe://d/x''\<rparr>]\<rparr>]"
    by (simp add: PeerCertificates_def certsFromState_def)
  have un: "\<not> authorized_peer ?a ?c ?w"
    unfolding authorized_peer_def peer_id_def certs by (simp add: SPIFFEIDFromCert_def)
  show ?thesis
    using SourceZone_ignores_unauthorized [OF un, of dnslib_ref 65001 ?m ?m] un certs by simp
qed

text \<open>
  On DNS over HTTPS the verdict does not depend on the response writer: a
  plugin that wraps the writer (so that it no longer exposes the connection state) cannot
  switch zone verification off.
\<close>

theorem SourceZone_DoH_wrapping:
  assumes "ctxHTTP ctx = Some (Some req)"
  shows "SourceZone L c ctx w r = SourceZone L c ctx w' r"
  by (simp add: SourceZone_def PeerCertificates_DoH [OF assms])

theorem SourceZone_DoH_wrapping_witness:
  "SourceZone dnslib_ref (NewConfig [''spiffe://d/agent''] 65001)
      \<lparr>ctxHTTP = Some (Some \<lparr>httpTLS = Some \<lparr>tlsPeerCertificates =
         [\<lparr>cURIs = [Some \<lparr>uScheme = ''spiffe'', uPath = ''/agent'', uString = ''spiffe://d/agent''\<rparr>]\<rparr>]\<rparr>\<rparr>)\<rparr>
      \<lparr>wConn = Some None, wRemoteIP = ''10.0.0.1'', wWritten = []\<rparr>
      \<lparr>mId = 7, mResponse = False, mAuthoritative = False, mRcode = 0, mQuestion = [],
        mAnswer = [], mNs = [], mExtra = []\<rparr> =
   SourceZone dnslib_ref (NewConfig [''spiffe://d/agent''] 65001)
      \<lparr>ctxHTTP = Some (Some \<lparr>httpTLS = Some \<lparr>tlsPeerCertificates =
         [\<lparr>cURIs = [Some \<lparr>uScheme = ''spiffe'', uPath = ''/agent'', uString = ''spiffe://d/agent''\<rparr>]\<rparr>]\<rparr>\<rparr>)\<rparr>
      \<lparr>wConn = None, wRemoteIP = ''10.0.0.1'', wWritten = []\<rparr>
      \<lparr>mId = 7, mResponse = False, mAuthoritative = False, mRcode = 0, mQuestion = [],
        mAnswer = [], mNs = [], mExtra = []\<rparr>"
  by (rule SourceZone_DoH_wrapping) simp

end
