(* ===== verification/Registry.thy ===== *)
theory Registry
  imports Spiffe_Zone Edns_Zone
begin

text \<open>
  Package \<open>internal/registry\<close>, file \<open>registry.go\<close>: the snapshot that maps a DNS name to the
  zone of its registration entries, and the store that holds the current one. The
  specification \<open>declared\<close> says which zones the entries declare for a name; the snapshot
  resolves a name exactly when that is one single zone.
\<close>

section \<open>Definitions\<close>

record Entry =
  eSPIFFEIDPath :: string
  eDNSNames :: "string list"

record Stats =
  sNames :: nat
  sConflicts :: nat
  sSkipped :: nat

record Snapshot =
  snZoneOf :: "(string, string) gomap"

definition normalize_name :: "unicode \<Rightarrow> string \<Rightarrow> string" where
  "normalize_name U name = ToLower U (TrimSuffix name ''.'')"

text \<open>The inner loop of \<open>BuildSnapshot\<close>, over the names of one entry.\<close>

fun add_names ::
  "unicode \<Rightarrow> string \<Rightarrow> string list \<Rightarrow> (string, string) gomap \<times> (string, unit) gomap \<Rightarrow>
     (string, string) gomap \<times> (string, unit) gomap" where
  "add_names U zone [] (zoneOf, conflicting) = (zoneOf, conflicting)"
| "add_names U zone (raw # raws) (zoneOf, conflicting) =
     (let name = normalize_name U raw in
      if name = [] then add_names U zone raws (zoneOf, conflicting)
      else (case gm_get zoneOf name of
              Some prev \<Rightarrow>
                if prev \<noteq> zone then add_names U zone raws (zoneOf, gm_put conflicting name ())
                else add_names U zone raws (gm_put zoneOf name zone, conflicting)
            | None \<Rightarrow> add_names U zone raws (gm_put zoneOf name zone, conflicting)))"

text \<open>The outer loop, over the entries.\<close>

fun add_entries ::
  "unicode \<Rightarrow> Entry list \<Rightarrow> (string, string) gomap \<times> (string, unit) gomap \<Rightarrow> nat \<Rightarrow>
     ((string, string) gomap \<times> (string, unit) gomap) \<times> nat" where
  "add_entries U [] acc skipped = (acc, skipped)"
| "add_entries U (e # es) acc skipped =
     (case FromPath (eSPIFFEIDPath e) of
        Inl _ \<Rightarrow> add_entries U es acc (skipped + 1)
      | Inr zone \<Rightarrow>
          if \<not> ednszone_Valid zone then add_entries U es acc (skipped + 1)
          else add_entries U es (add_names U zone (eDNSNames e) acc) skipped)"

definition BuildSnapshot :: "unicode \<Rightarrow> Entry list \<Rightarrow> Snapshot \<times> Stats" where
  "BuildSnapshot U entries =
     (let ((zoneOf, conflicting), skipped) = add_entries U entries (gm_empty, gm_empty) 0;
          zoneOf' = fold (\<lambda>name m. gm_del m name) (gm_keys conflicting) zoneOf
      in (\<lparr>snZoneOf = zoneOf'\<rparr>,
          \<lparr>sNames = gm_len zoneOf', sConflicts = gm_len conflicting, sSkipped = skipped\<rparr>))"

definition Snapshot_Lookup :: "unicode \<Rightarrow> Snapshot \<Rightarrow> string \<Rightarrow> string option" where
  "Snapshot_Lookup U s fqdn = gm_get (snZoneOf s) (normalize_name U fqdn)"

record Store =
  stCur :: "Snapshot option"

definition NewStore :: Store where
  "NewStore = \<lparr>stCur = None\<rparr>"

definition Replace :: "Store \<Rightarrow> Snapshot \<Rightarrow> Store" where
  "Replace st s = st\<lparr>stCur := Some s\<rparr>"

definition Ready :: "Store \<Rightarrow> bool" where
  "Ready st = (stCur st \<noteq> None)"

definition Store_Lookup :: "unicode \<Rightarrow> Store \<Rightarrow> string \<Rightarrow> string option" where
  "Store_Lookup U st fqdn = (case stCur st of None \<Rightarrow> None | Some s \<Rightarrow> Snapshot_Lookup U s fqdn)"

section \<open>Specification\<close>

text \<open>The zone of an entry, if it takes part at all.\<close>

definition entry_zone :: "Entry \<Rightarrow> string option" where
  "entry_zone e =
     (case FromPath (eSPIFFEIDPath e) of Inl _ \<Rightarrow> None | Inr z \<Rightarrow> if ednszone_Valid z then Some z else None)"

text \<open>\<open>declared U es n z\<close>: some entry in zone \<open>z\<close> carries the DNS name \<open>n\<close>.\<close>

definition declared :: "unicode \<Rightarrow> Entry list \<Rightarrow> string \<Rightarrow> string \<Rightarrow> bool" where
  "declared U es n z =
     (n \<noteq> [] \<and> (\<exists>e \<in> set es. entry_zone e = Some z \<and> n \<in> normalize_name U ` set (eDNSNames e)))"

section \<open>Facts\<close>

text \<open>The declarations in the order the loops meet them.\<close>

definition entry_decls :: "unicode \<Rightarrow> Entry \<Rightarrow> (string \<times> string) list" where
  "entry_decls U e =
     (case entry_zone e of
        None \<Rightarrow> []
      | Some z \<Rightarrow> map (\<lambda>n. (n, z)) (filter (\<lambda>n. n \<noteq> []) (map (normalize_name U) (eDNSNames e))))"

definition decls :: "unicode \<Rightarrow> Entry list \<Rightarrow> (string \<times> string) list" where
  "decls U es = concat (map (entry_decls U) es)"

lemma decls_declared: "(n, z) \<in> set (decls U es) \<longleftrightarrow> declared U es n z"
  by (force simp: decls_def entry_decls_def declared_def split: option.splits)

text \<open>One declaration's effect, and both loops as one fold over the declarations.\<close>

definition add_decl ::
  "string \<times> string \<Rightarrow> (string, string) gomap \<times> (string, unit) gomap \<Rightarrow>
     (string, string) gomap \<times> (string, unit) gomap" where
  "add_decl d acc =
     (case gm_get (fst acc) (fst d) of
        Some prev \<Rightarrow>
          if prev \<noteq> snd d then (fst acc, gm_put (snd acc) (fst d) ())
          else (gm_put (fst acc) (fst d) (snd d), snd acc)
      | None \<Rightarrow> (gm_put (fst acc) (fst d) (snd d), snd acc))"

lemma add_names_fold:
  "add_names U z raws acc =
     fold add_decl (map (\<lambda>n. (n, z)) (filter (\<lambda>n. n \<noteq> []) (map (normalize_name U) raws))) acc"
  by (induction U z raws acc rule: add_names.induct)
    (auto simp: Let_def add_decl_def split: option.splits)

lemma add_entries_fold:
  "add_entries U es acc sk =
     (fold add_decl (decls U es) acc, sk + length (filter (\<lambda>e. entry_zone e = None) es))"
  by (induction U es acc sk rule: add_entries.induct)
    (auto simp: decls_def entry_decls_def entry_zone_def add_names_fold split: sum.splits)

text \<open>
  The accumulators after a list of declarations: the first zone declared for each name,
  and the names for which a different one came later.
\<close>

lemma fold_add_decl:
  "fold add_decl ds (gm_empty, gm_empty) = (zo, co) \<Longrightarrow>
     gm_ok zo \<and> gm_ok co \<and> (\<forall>n. gm_get zo n = map_of ds n) \<and>
     (\<forall>n. gm_get co n \<noteq> None \<longleftrightarrow> (\<exists>z. (n, z) \<in> set ds \<and> map_of ds n \<noteq> Some z))"
proof (induction ds arbitrary: zo co rule: rev_induct)
  case Nil
  then show ?case by auto
next
  case (snoc d ds)
  obtain n z where d: "d = (n, z)" by (cases d)
  obtain zo' co' where acc: "fold add_decl ds (gm_empty, gm_empty) = (zo', co')" by fastforce
  note IH = snoc.IH [OF acc]
  have res: "(zo, co) = add_decl (n, z) (zo', co')"
    using snoc.prems by (simp add: acc d)
  have mem: "map_of ds k = None \<Longrightarrow> (k, y) \<notin> set ds" for k y
    by (force simp: map_of_eq_None_iff)
  show ?case
  proof (cases "map_of ds n")
    case None
    with IH res have "zo = gm_put zo' n z" "co = co'" by (auto simp: add_decl_def)
    with IH None show ?thesis
      using mem by (auto simp: d map_add_def split: option.splits)
  next
    case (Some prev)
    show ?thesis
    proof (cases "prev = z")
      case True
      with IH res Some have "zo = gm_put zo' n z" "co = co'" by (auto simp: add_decl_def)
      with IH Some True show ?thesis
        by (auto simp: d map_add_def split: option.splits)
    next
      case False
      with IH res Some have "zo = zo'" "co = gm_put co' n ()" by (auto simp: add_decl_def)
      with IH Some False show ?thesis
        by (auto simp: d map_add_def split: option.splits)
    qed
  qed
qed

lemma map_of_unique:
  "(map_of ds n = Some z \<and> \<not> (\<exists>y. (n, y) \<in> set ds \<and> map_of ds n \<noteq> Some y)) \<longleftrightarrow>
     {y. (n, y) \<in> set ds} = {z}"
proof
  assume "map_of ds n = Some z \<and> \<not> (\<exists>y. (n, y) \<in> set ds \<and> map_of ds n \<noteq> Some y)"
  then show "{y. (n, y) \<in> set ds} = {z}" by (auto dest: map_of_SomeD)
next
  assume one: "{y. (n, y) \<in> set ds} = {z}"
  then have in': "(n, z) \<in> set ds" by blast
  then obtain y where y: "map_of ds n = Some y"
    by (metis map_of_eq_None_iff not_Some_eq fst_conv image_eqI)
  then have "y = z" using one by (auto dest: map_of_SomeD)
  with y one show "map_of ds n = Some z \<and> \<not> (\<exists>y. (n, y) \<in> set ds \<and> map_of ds n \<noteq> Some y)"
    by auto
qed

lemma map_of_conflict:
  "(\<exists>y. (n, y) \<in> set ds \<and> map_of ds n \<noteq> Some y) \<longleftrightarrow> (\<exists>y z. (n, y) \<in> set ds \<and> (n, z) \<in> set ds \<and> y \<noteq> z)"
  by (metis map_of_SomeD option.inject weak_map_of_SomeI)

lemma BuildSnapshot_cases:
  obtains zo co where
    "fold add_decl (decls U es) (gm_empty, gm_empty) = (zo, co)"
    "BuildSnapshot U es =
       (\<lparr>snZoneOf = fold (\<lambda>name m. gm_del m name) (gm_keys co) zo\<rparr>,
        \<lparr>sNames = gm_len (fold (\<lambda>name m. gm_del m name) (gm_keys co) zo), sConflicts = gm_len co,
         sSkipped = length (filter (\<lambda>e. entry_zone e = None) es)\<rparr>)"
  by (cases "fold add_decl (decls U es) (gm_empty, gm_empty)")
    (auto simp: BuildSnapshot_def add_entries_fold Let_def)

lemma BuildSnapshot_get:
  "gm_get (snZoneOf (fst (BuildSnapshot U es))) n = Some z \<longleftrightarrow> {y. declared U es n y} = {z}"
proof -
  obtain zo co where f: "fold add_decl (decls U es) (gm_empty, gm_empty) = (zo, co)"
    and b: "fst (BuildSnapshot U es) = \<lparr>snZoneOf = fold (\<lambda>name m. gm_del m name) (gm_keys co) zo\<rparr>"
    by (metis BuildSnapshot_cases fst_conv)
  note inv = fold_add_decl [OF f]
  have "gm_get (snZoneOf (fst (BuildSnapshot U es))) n = Some z \<longleftrightarrow>
      gm_get co n = None \<and> gm_get zo n = Some z"
    by (cases "gm_get co n") (simp_all add: b gm.get_fold_del gm.set_keys)
  also have "\<dots> \<longleftrightarrow> map_of (decls U es) n = Some z \<and>
      \<not> (\<exists>y. (n, y) \<in> set (decls U es) \<and> map_of (decls U es) n \<noteq> Some y)"
    using inv by metis
  also have "\<dots> \<longleftrightarrow> {y. (n, y) \<in> set (decls U es)} = {z}"
    by (rule map_of_unique)
  finally show ?thesis by (simp add: decls_declared)
qed

lemma BuildSnapshot_stats:
  "snd (BuildSnapshot U es) =
     \<lparr>sNames = card {n. \<exists>z. {y. declared U es n y} = {z}},
      sConflicts = card {n. \<exists>y z. declared U es n y \<and> declared U es n z \<and> y \<noteq> z},
      sSkipped = length (filter (\<lambda>e. entry_zone e = None) es)\<rparr>"
proof -
  obtain zo co where f: "fold add_decl (decls U es) (gm_empty, gm_empty) = (zo, co)"
    and b: "BuildSnapshot U es =
       (\<lparr>snZoneOf = fold (\<lambda>name m. gm_del m name) (gm_keys co) zo\<rparr>,
        \<lparr>sNames = gm_len (fold (\<lambda>name m. gm_del m name) (gm_keys co) zo), sConflicts = gm_len co,
         sSkipped = length (filter (\<lambda>e. entry_zone e = None) es)\<rparr>)"
    by (rule BuildSnapshot_cases)
  note inv = fold_add_decl [OF f]
  have "gm_len co = card {n. \<exists>y z. declared U es n y \<and> declared U es n z \<and> y \<noteq> z}"
    using inv by (simp add: gm.len_eq_card map_of_conflict [unfolded decls_declared] flip: decls_declared)
  moreover have "gm_len (fold (\<lambda>name m. gm_del m name) (gm_keys co) zo) =
      card {n. \<exists>z. gm_get (snZoneOf (fst (BuildSnapshot U es))) n = Some z}"
    using inv by (simp add: gm.len_eq_card gm.ok_fold_del b)
  ultimately show ?thesis
    by (simp add: BuildSnapshot_get) (simp add: b)
qed

lemma Store_simps [simp]:
  "stCur NewStore = None" "stCur (Replace st s) = Some s" "Ready (Replace st s)" "\<not> Ready NewStore"
  "Store_Lookup U NewStore n = None"
  by (simp_all add: NewStore_def Replace_def Ready_def Store_Lookup_def)

lemma entry_zone_Some:
  "entry_zone e = Some z \<longleftrightarrow> FromPath (eSPIFFEIDPath e) = Inr z \<and> ednszone_Valid z"
  by (auto simp: entry_zone_def split: sum.splits)

lemma declared_valid: "declared U es n z \<Longrightarrow> ednszone_Valid z"
  by (auto simp: declared_def entry_zone_Some)

lemma Lookup_built:
  "Snapshot_Lookup U (fst (BuildSnapshot U es)) q = Some z \<longleftrightarrow> {y. declared U es (normalize_name U q) y} = {z}"
  by (simp add: Snapshot_Lookup_def BuildSnapshot_get)

section \<open>The interface of a registry\<close>

text \<open>
  What central's handler relies on: nothing resolves before the first snapshot, and after
  a snapshot built from entries a name resolves exactly to the one zone they declare for it.
\<close>

locale zone_registry =
  fixes new :: "'st"
    and install :: "'st \<Rightarrow> Entry list \<Rightarrow> 'st"
    and lookup :: "'st \<Rightarrow> string \<Rightarrow> string option"
    and decl :: "Entry list \<Rightarrow> string \<Rightarrow> string \<Rightarrow> bool"
  assumes lookup_new: "lookup new q = None"
    and lookup_install: "lookup (install st es) q = Some z \<longleftrightarrow> {y. decl es q y} = {z}"
begin

lemma lookup_sound: "lookup (install st es) q = Some z \<Longrightarrow> decl es q z"
  by (auto simp: lookup_install)

lemma lookup_conflict:
  assumes "decl es q y" and "decl es q z" and "y \<noteq> z"
  shows "lookup (install st es) q = None"
proof (rule ccontr)
  assume "lookup (install st es) q \<noteq> None"
  then obtain x where "lookup (install st es) q = Some x" by auto
  then have "{y. decl es q y} = {x}" by (simp only: lookup_install)
  then have "y = x" "z = x" using assms(1,2) by auto
  with assms(3) show False by simp
qed

lemma lookup_latest: "lookup (install (install st es) es') q = lookup (install st' es') q"
  by (rule option_eqI) (simp add: lookup_install)

end

interpretation zr: zone_registry NewStore "\<lambda>st es. Replace st (fst (BuildSnapshot U es))"
    "Store_Lookup U" "\<lambda>es q. declared U es (normalize_name U q)" for U
  by unfold_locales (simp_all add: Store_Lookup_def Lookup_built)

section \<open>Properties\<close>

text \<open>
  Property C9. The snapshot resolves a query name to zone \<open>z\<close> exactly when the registration
  entries declare one single zone for it, and that zone is \<open>z\<close>: entries without a
  well-formed zone take no part, names are compared without case and trailing dot, and a
  name declared into two different zones is not resolvable at all.
\<close>

theorem BuildSnapshot_resolves:
  "Snapshot_Lookup U (fst (BuildSnapshot U es)) q = Some z \<longleftrightarrow>
     (\<exists>e \<in> set es. FromPath (eSPIFFEIDPath e) = Inr z \<and> ednszone_Valid z \<and>
        normalize_name U q \<noteq> [] \<and> normalize_name U q \<in> normalize_name U ` set (eDNSNames e)) \<and>
     (\<forall>e \<in> set es. \<forall>y. FromPath (eSPIFFEIDPath e) = Inr y \<longrightarrow> ednszone_Valid y \<longrightarrow>
        normalize_name U q \<in> normalize_name U ` set (eDNSNames e) \<longrightarrow> y = z)"
proof -
  have "{y. declared U es (normalize_name U q) y} = {z} \<longleftrightarrow>
      declared U es (normalize_name U q) z \<and> (\<forall>y. declared U es (normalize_name U q) y \<longrightarrow> y = z)"
    by auto
  then show ?thesis
    by (auto simp: Lookup_built declared_def entry_zone_Some)
qed

theorem BuildSnapshot_resolves_witness:
  "\<exists>e \<in> set [\<lparr>eSPIFFEIDPath = ''/zone/a/sa/x'', eDNSNames = [''pay.io'', ''two.io'']\<rparr>,
             \<lparr>eSPIFFEIDPath = ''/zone/b/sa/y'', eDNSNames = [''TWO.io.'']\<rparr>,
             \<lparr>eSPIFFEIDPath = ''/zone/z.x/sa/y'', eDNSNames = [''pay.io'']\<rparr>].
     FromPath (eSPIFFEIDPath e) = Inr ''a'' \<and>
     Snapshot_Lookup \<lparr>uniLower = id, uniFold = (=)\<rparr>
       (fst (BuildSnapshot \<lparr>uniLower = id, uniFold = (=)\<rparr>
          [\<lparr>eSPIFFEIDPath = ''/zone/a/sa/x'', eDNSNames = [''pay.io'', ''two.io'']\<rparr>,
           \<lparr>eSPIFFEIDPath = ''/zone/b/sa/y'', eDNSNames = [''TWO.io.'']\<rparr>,
           \<lparr>eSPIFFEIDPath = ''/zone/z.x/sa/y'', eDNSNames = [''pay.io'']\<rparr>])) ''Pay.IO.'' = Some ''a''"
  (is "\<exists>e \<in> set ?es. _ \<and> Snapshot_Lookup ?U _ _ = _")
proof -
  have "Snapshot_Lookup ?U (fst (BuildSnapshot ?U ?es)) ''Pay.IO.'' = Some ''a''"
    by code_simp
  with BuildSnapshot_resolves [of ?U ?es "''Pay.IO.''" "''a''"] show ?thesis by blast
qed

text \<open>
  Property C32. The statistics of a snapshot are what their names say: the number of names
  with one single declared zone, the number of names with conflicting zones, and the number
  of entries without a well-formed zone. Neither they nor the mapping depend on the order
  in which the entries arrived.
\<close>

theorem BuildSnapshot_stats_correct:
  "snd (BuildSnapshot U es) =
     \<lparr>sNames = card {n. \<exists>z. {y. declared U es n y} = {z}},
      sConflicts = card {n. \<exists>y z. declared U es n y \<and> declared U es n z \<and> y \<noteq> z},
      sSkipped = length (filter (\<lambda>e. entry_zone e = None) es)\<rparr> \<and>
   snd (BuildSnapshot U (rev es)) = snd (BuildSnapshot U es) \<and>
   Snapshot_Lookup U (fst (BuildSnapshot U (rev es))) q = Snapshot_Lookup U (fst (BuildSnapshot U es)) q"
proof -
  have d: "declared U (rev es) = declared U es"
    by (simp add: fun_eq_iff declared_def)
  have "Snapshot_Lookup U (fst (BuildSnapshot U (rev es))) q = Snapshot_Lookup U (fst (BuildSnapshot U es)) q"
    by (rule option_eqI) (simp add: Lookup_built d)
  then show ?thesis
    by (simp add: BuildSnapshot_stats d rev_filter [symmetric])
qed

end
