(* ===== verification/Netip.thy ===== *)
theory Netip
  imports Go_Strings
begin

text \<open>
  The part of Go's packages \<open>net/netip\<close> and \<open>net\<close> the sources call: \<open>netip.Addr\<close>,
  \<open>netip.ParseAddr\<close>, \<open>Addr.String\<close>, \<open>Addr.IsValid\<close>, \<open>net.ParseIP\<close>, \<open>IP.To4\<close> and
  \<open>IP.To16\<close>. Both ends of the program pass addresses through their text form: the node
  side parses the query's source address, and central prints the configured gateway
  address and parses it again with the other package.

  The error values carry only a message, so a failed parse is \<^const>\<open>None\<close>.
\<close>

section \<open>Addresses\<close>

text \<open>
  \<open>netip.Addr\<close>: the zero value (not an address), four bytes, or eight 16-bit groups with
  a scope zone (the empty string for none).
\<close>

datatype addr = AddrZero | Addr4 u8 u8 u8 u8 | Addr6 "u16 list" string

definition addr_ok :: "addr \<Rightarrow> bool" where
  "addr_ok a = (case a of Addr6 gs z \<Rightarrow> length gs = 8 | _ \<Rightarrow> True)"

definition IsValid :: "addr \<Rightarrow> bool" where
  "IsValid a = (a \<noteq> AddrZero)"

definition addr_zone :: "addr \<Rightarrow> string" where
  "addr_zone a = (case a of Addr6 gs z \<Rightarrow> z | _ \<Rightarrow> [])"

definition Is4In6 :: "addr \<Rightarrow> bool" where
  "Is4In6 a = (case a of Addr6 gs z \<Rightarrow> take 6 gs = [0, 0, 0, 0, 0, 0xFFFF] | _ \<Rightarrow> False)"

definition group_bytes :: "u16 \<Rightarrow> u8 list" where
  "group_bytes g = [ucast (drop_bit 8 g), ucast g]"

definition bytes_group :: "u8 \<Rightarrow> u8 \<Rightarrow> u16" where
  "bytes_group hi lo = push_bit 8 (ucast hi) + ucast lo"

section \<open>Parsing\<close>

text \<open>
  \<open>parseIPv4Fields\<close>: \<open>val\<close> and \<open>digLen\<close> are the value and the number of digits of the
  current octet, \<open>octs\<close> the octets already closed by a dot.
\<close>

fun parse_v4_fields :: "nat \<Rightarrow> nat \<Rightarrow> nat list \<Rightarrow> string \<Rightarrow> nat list option" where
  "parse_v4_fields val digLen octs [] =
     (if length octs < 3 then None else Some (octs @ [val]))"
| "parse_v4_fields val digLen octs (c # cs) =
     (if is_digit c then
        if digLen = 1 \<and> val = 0 then None
        else if val * 10 + digit_val c > 255 then None
        else parse_v4_fields (val * 10 + digit_val c) (Suc digLen) octs cs
      else if c = CHR ''.'' then
        if digLen = 0 \<or> cs = [] then None
        else if length octs = 3 then None
        else parse_v4_fields 0 0 (octs @ [val]) cs
      else None)"

definition parseIPv4 :: "string \<Rightarrow> addr option" where
  "parseIPv4 s =
     (case parse_v4_fields 0 0 [] s of
        Some [a, b, c, d] \<Rightarrow> Some (Addr4 (of_nat a) (of_nat b) (of_nat c) (of_nat d))
      | _ \<Rightarrow> None)"

definition hex_val :: "char \<Rightarrow> nat option" where
  "hex_val c =
     (if is_digit c then Some (of_char c - 48)
      else if CHR ''a'' \<le> c \<and> c \<le> CHR ''f'' then Some (of_char c - 97 + 10)
      else if CHR ''A'' \<le> c \<and> c \<le> CHR ''F'' then Some (of_char c - 65 + 10)
      else None)"

text \<open>The inner loop of \<open>parseIPv6\<close>: digits read, their value, and the rest of the text.\<close>

fun hex_scan :: "nat \<Rightarrow> nat \<Rightarrow> string \<Rightarrow> (nat \<times> nat \<times> string) option" where
  "hex_scan off acc [] = Some (off, acc, [])"
| "hex_scan off acc (c # cs) =
     (case hex_val c of
        None \<Rightarrow> Some (off, acc, c # cs)
      | Some d \<Rightarrow>
          if off > 3 then None
          else if acc * 16 + d > 65535 then None
          else hex_scan (Suc off) (acc * 16 + d) cs)"

text \<open>
  The outer loop of \<open>parseIPv6\<close>: the groups stored so far (Go's \<open>i\<close> is twice their
  number), the position of the ellipsis, and the rest of the text.
\<close>

function v6_loop ::
  "u16 list \<Rightarrow> nat option \<Rightarrow> string \<Rightarrow> (u16 list \<times> nat option \<times> string) option" where
  "v6_loop gs ell s =
     (if length gs \<ge> 8 then Some (gs, ell, s)
      else case hex_scan 0 0 s of
        None \<Rightarrow> None
      | Some (off, acc, rest) \<Rightarrow>
          if off = 0 then None
          else if rest \<noteq> [] \<and> hd rest = CHR ''.'' then
            if ell = None \<and> length gs \<noteq> 6 then None
            else if length gs > 6 then None
            else case parse_v4_fields 0 0 [] s of
                Some [a, b, c, d] \<Rightarrow>
                  Some (gs @ [bytes_group (of_nat a) (of_nat b), bytes_group (of_nat c) (of_nat d)],
                        ell, [])
              | _ \<Rightarrow> None
          else
            let gs' = gs @ [of_nat acc] in
            case rest of
              [] \<Rightarrow> Some (gs', ell, [])
            | c # t \<Rightarrow>
                if c \<noteq> CHR '':'' \<or> t = [] then None
                else if hd t = CHR '':'' then
                  if ell \<noteq> None then None
                  else if tl t = [] then Some (gs', Some (length gs'), [])
                  else v6_loop gs' (Some (length gs')) (tl t)
                else v6_loop gs' ell t)"
  by pat_completeness auto
termination
  by (relation "measure (\<lambda>(gs, ell, s). 8 - length gs)") auto

declare v6_loop.simps [simp del]

definition v6_expand :: "u16 list \<Rightarrow> nat option \<Rightarrow> string \<Rightarrow> u16 list option" where
  "v6_expand gs ell s =
     (if s \<noteq> [] then None
      else if length gs < 8 then
        case ell of
          None \<Rightarrow> None
        | Some e \<Rightarrow> Some (take e gs @ replicate (8 - length gs) 0 @ drop e gs)
      else if ell \<noteq> None then None
      else Some gs)"

definition parse_v6_groups :: "string \<Rightarrow> u16 list option" where
  "parse_v6_groups s =
     (if HasPrefix s ''::'' then
        if drop 2 s = [] then Some (replicate 8 0)
        else (case v6_loop [] (Some 0) (drop 2 s) of
                None \<Rightarrow> None
              | Some (gs, ell, rest) \<Rightarrow> v6_expand gs ell rest)
      else (case v6_loop [] None s of
              None \<Rightarrow> None
            | Some (gs, ell, rest) \<Rightarrow> v6_expand gs ell rest))"

definition parseIPv6 :: "string \<Rightarrow> addr option" where
  "parseIPv6 s =
     (if CHR ''%'' \<in> set s then
        let body = takeWhile (\<lambda>c. c \<noteq> CHR ''%'') s;
            zone = tl (dropWhile (\<lambda>c. c \<noteq> CHR ''%'') s)
        in if zone = [] then None else map_option (\<lambda>gs. Addr6 gs zone) (parse_v6_groups body)
      else map_option (\<lambda>gs. Addr6 gs []) (parse_v6_groups s))"

fun ParseAddr_scan :: "string \<Rightarrow> string \<Rightarrow> addr option" where
  "ParseAddr_scan s [] = None"
| "ParseAddr_scan s (c # cs) =
     (if c = CHR ''.'' then parseIPv4 s
      else if c = CHR '':'' then parseIPv6 s
      else if c = CHR ''%'' then None
      else ParseAddr_scan s cs)"

definition ParseAddr :: "string \<Rightarrow> addr option" where
  "ParseAddr s = ParseAddr_scan s s"

section \<open>Printing\<close>

definition string4 :: "u8 \<Rightarrow> u8 \<Rightarrow> u8 \<Rightarrow> u8 \<Rightarrow> string" where
  "string4 a b c d =
     show_dec (unat a) @ ''.'' @ show_dec (unat b) @ ''.'' @ show_dec (unat c) @ ''.'' @ show_dec (unat d)"

definition hex_digit :: "nat \<Rightarrow> char" where
  "hex_digit d = (if d < 10 then char_of (48 + d) else char_of (87 + d))"

fun show_hex :: "nat \<Rightarrow> string" where
  "show_hex n = (if n < 16 then [hex_digit n] else show_hex (n div 16) @ [hex_digit (n mod 16)])"

declare show_hex.simps [simp del]

text \<open>
  The first longest run of at least two zero groups, as the loop of \<open>appendTo6\<close> finds it:
  at every position, the length of the run that starts there, kept when it is strictly
  longer than the best so far.
\<close>

definition zero_run_at :: "u16 list \<Rightarrow> nat \<Rightarrow> nat" where
  "zero_run_at gs i = length (takeWhile (\<lambda>g. g = 0) (drop i gs))"

definition best_zero_run :: "u16 list \<Rightarrow> (nat \<times> nat) option" where
  "best_zero_run gs =
     fold (\<lambda>i best.
        let l = zero_run_at gs i
        in if l \<ge> 2 \<and> l > (case best of None \<Rightarrow> 0 | Some (zs, ze) \<Rightarrow> ze - zs)
           then Some (i, i + l) else best) [0..<8] None"

definition show_groups :: "u16 list \<Rightarrow> string" where
  "show_groups gs = Join (map (\<lambda>g. show_hex (unat g)) gs) CHR '':''"

definition string6 :: "u16 list \<Rightarrow> string" where
  "string6 gs =
     (case best_zero_run gs of
        None \<Rightarrow> show_groups gs
      | Some (zs, ze) \<Rightarrow> show_groups (take zs gs) @ ''::'' @ show_groups (drop ze gs))"

definition zone_suffix :: "string \<Rightarrow> string" where
  "zone_suffix z = (if z = [] then [] else CHR ''%'' # z)"

definition addr_String :: "addr \<Rightarrow> string" where
  "addr_String a =
     (case a of
        AddrZero \<Rightarrow> ''invalid IP''
      | Addr4 a b c d \<Rightarrow> string4 a b c d
      | Addr6 gs z \<Rightarrow>
          if Is4In6 (Addr6 gs z) then
            (let bs = concat (map group_bytes (drop 6 gs))
             in ''::ffff:'' @ string4 (bs ! 0) (bs ! 1) (bs ! 2) (bs ! 3)) @ zone_suffix z
          else string6 gs @ zone_suffix z)"

section \<open>Package net\<close>

text \<open>\<open>net.IP\<close> is a byte slice; the nil slice is the empty list.\<close>

definition As16 :: "addr \<Rightarrow> u8 list" where
  "As16 a =
     (case a of
        AddrZero \<Rightarrow> replicate 16 0
      | Addr4 a b c d \<Rightarrow> replicate 10 0 @ [0xFF, 0xFF, a, b, c, d]
      | Addr6 gs z \<Rightarrow> concat (map group_bytes gs))"

definition ParseIP :: "string \<Rightarrow> u8 list" where
  "ParseIP s =
     (case ParseAddr s of
        None \<Rightarrow> []
      | Some a \<Rightarrow> if addr_zone a \<noteq> [] then [] else As16 a)"

definition To4 :: "u8 list \<Rightarrow> u8 list" where
  "To4 ip =
     (if length ip = 4 then ip
      else if length ip = 16 \<and> take 10 ip = replicate 10 0 \<and> ip ! 10 = 0xFF \<and> ip ! 11 = 0xFF
      then drop 12 ip
      else [])"

definition To16 :: "u8 list \<Rightarrow> u8 list" where
  "To16 ip =
     (if length ip = 4 then replicate 10 0 @ [0xFF, 0xFF] @ ip
      else if length ip = 16 then ip
      else [])"

section \<open>Facts\<close>

lemma parse_v4_fields_length: "parse_v4_fields v d fs s = Some r \<Longrightarrow> length fs \<le> 3 \<Longrightarrow> length r = 4"
  by (induction v d fs s rule: parse_v4_fields.induct) (auto split: if_splits)

lemma parse_v4_fields_show:
  "n \<le> 255 \<Longrightarrow> parse_v4_fields 0 0 fs (show_dec n @ rest) = parse_v4_fields n (length (show_dec n)) fs rest"
proof (induction n arbitrary: rest rule: show_dec.induct)
  case (1 n)
  show ?case
  proof (cases "n < 10")
    case True
    with "1.prems" show ?thesis
      by (simp add: show_dec.simps [of n] is_digit_show digit_val_show)
  next
    case False
    with 1 have "parse_v4_fields 0 0 fs (show_dec (n div 10) @ char_of (48 + n mod 10) # rest) =
        parse_v4_fields (n div 10) (length (show_dec (n div 10))) fs (char_of (48 + n mod 10) # rest)"
      by simp
    moreover from False have "n div 10 \<noteq> 0" by simp
    ultimately show ?thesis
      using False "1.prems"
      by (simp add: show_dec.simps [of n] is_digit_show digit_val_show del: div_eq_0_iff)
  qed
qed

lemma not_digit_dot [simp]: "\<not> is_digit CHR ''.''"
  by (simp add: is_digit_def less_eq_char_def)

lemma parse_string4: "parse_v4_fields 0 0 [] (string4 a b c d) = Some [unat a, unat b, unat c, unat d]"
proof -
  have u: "unat x \<le> 255" for x :: u8
    using unsigned_less [of x, where ?'a = nat] by simp
  show ?thesis
    using parse_v4_fields_show [where rest = "[]"]
    by (simp add: string4_def parse_v4_fields_show u)
qed

lemma ParseAddr_scan_digits: "list_all is_digit w \<Longrightarrow> ParseAddr_scan s (w @ t) = ParseAddr_scan s t"
  by (induction w) (auto simp: is_digit_def less_eq_char_def)

text \<open>Printing an IPv4 address and parsing it again is the identity.\<close>

lemma ParseAddr_string4 [go_lib]: "ParseAddr (string4 a b c d) = Some (Addr4 a b c d)"
proof -
  have "ParseAddr (string4 a b c d) = parseIPv4 (string4 a b c d)"
    by (simp add: ParseAddr_def) (simp add: string4_def ParseAddr_scan_digits show_dec_digits)
  then show ?thesis
    by (simp add: parseIPv4_def parse_string4)
qed

lemma ParseIP_string4 [go_lib]: "ParseIP (string4 a b c d) = replicate 10 0 @ [0xFF, 0xFF, a, b, c, d]"
  by (simp add: ParseIP_def ParseAddr_string4 addr_zone_def As16_def)

lemma To4_mapped [simp]: "To4 (replicate 10 0 @ [0xFF, 0xFF, a, b, c, d]) = [a, b, c, d]"
  by (simp add: To4_def nth_append)

lemma v6_loop_length: "v6_loop gs ell s = Some (gs', ell', s') \<Longrightarrow> length gs \<le> 8 \<Longrightarrow> length gs' \<le> 8"
proof (induction gs ell s rule: v6_loop.induct)
  case (1 gs ell s)
  from "1.prems" show ?case
    apply (subst (asm) v6_loop.simps)
    apply (auto simp: Let_def split: if_splits option.splits prod.splits list.splits)
    using "1.IH" by fastforce+
qed

lemma v6_expand_length:
  "v6_expand gs ell s = Some r \<Longrightarrow> length gs \<le> 8 \<Longrightarrow> length r = 8"
  by (auto simp: v6_expand_def split: if_splits option.splits)

lemma parse_v6_groups_length: "parse_v6_groups s = Some gs \<Longrightarrow> length gs = 8"
  by (auto simp: parse_v6_groups_def split: if_splits option.splits prod.splits
      dest!: v6_loop_length v6_expand_length)

text \<open>Every address \<open>ParseAddr\<close> returns is valid and well formed.\<close>

lemma ParseAddr_scan_ok: "ParseAddr_scan s t = Some a \<Longrightarrow> addr_ok a \<and> IsValid a"
  by (induction t)
    (auto simp: parseIPv4_def parseIPv6_def addr_ok_def IsValid_def Let_def
      dest: parse_v6_groups_length split: if_splits option.splits list.splits)

lemma ParseAddr_ok [go_lib]: "ParseAddr s = Some a \<Longrightarrow> addr_ok a \<and> IsValid a"
  by (auto simp: ParseAddr_def dest: ParseAddr_scan_ok)

end
