(* ===== verification/Decision.thy ===== *)
theory Decision
  imports Netip
begin

text \<open>
  Packages \<open>internal/zonetable\<close> (zone to gateway address, read only after start-up) and
  \<open>internal/decision\<close> (the decision table of the design, a pure function). The table is
  specified a second time, as the five rows of the design document, and the function is
  shown to implement exactly those rows.
\<close>

section \<open>Package zonetable\<close>

record zone_table =
  tGw :: "(string, addr) gomap"

definition zonetable_New :: "(string, addr) gomap \<Rightarrow> zone_table" where
  "zonetable_New entries = \<lparr>tGw = fold (\<lambda>(z, a) gw. gm_put gw z a) entries gm_empty\<rparr>"

definition zonetable_Gateway :: "zone_table \<Rightarrow> string \<Rightarrow> addr option" where
  "zonetable_Gateway t zone = gm_get (tGw t) zone"

definition zonetable_Len :: "zone_table \<Rightarrow> nat" where
  "zonetable_Len t = gm_len (tGw t)"

section \<open>Package decision\<close>

text \<open>\<open>type Action int\<close>: the three constants, and any other integer.\<close>

datatype Action = ActionPassThrough | ActionAnswerGateway | ActionServFail | ActionOther int

fun Action_String :: "Action \<Rightarrow> string" where
  "Action_String ActionPassThrough = ''passthrough''"
| "Action_String ActionAnswerGateway = ''gateway''"
| "Action_String ActionServFail = ''servfail''"
| "Action_String (ActionOther n) = ''unknown''"

record Input =
  iSourceZone :: string
  iSourceOK :: bool
  iDestZone :: string
  iDestOK :: bool

record Decision =
  dAction :: Action
  dGateway :: addr

definition Decide :: "Input \<Rightarrow> (string \<Rightarrow> addr option) \<Rightarrow> Decision" where
  "Decide inp gateway =
     (if \<not> iSourceOK inp then \<lparr>dAction = ActionPassThrough, dGateway = AddrZero\<rparr>
      else if \<not> iDestOK inp then \<lparr>dAction = ActionPassThrough, dGateway = AddrZero\<rparr>
      else if iDestZone inp = iSourceZone inp then \<lparr>dAction = ActionPassThrough, dGateway = AddrZero\<rparr>
      else (case gateway (iDestZone inp) of
              None \<Rightarrow> \<lparr>dAction = ActionServFail, dGateway = AddrZero\<rparr>
            | Some gw \<Rightarrow> \<lparr>dAction = ActionAnswerGateway, dGateway = gw\<rparr>))"

section \<open>The decision table as a specification\<close>

text \<open>
  The source and the destination as the design speaks of them: known zones or nothing.
  Each rule is one row of the table of section 6.4.
\<close>

definition known :: "bool \<Rightarrow> string \<Rightarrow> string option" where
  "known ok z = (if ok then Some z else None)"

inductive table_row ::
  "(string \<Rightarrow> addr option) \<Rightarrow> string option \<Rightarrow> string option \<Rightarrow> Action \<Rightarrow> addr \<Rightarrow> bool" for gw where
  same_zone: "table_row gw (Some z) (Some z) ActionPassThrough AddrZero"
| cross_zone: "s \<noteq> d \<Longrightarrow> gw d = Some a \<Longrightarrow> table_row gw (Some s) (Some d) ActionAnswerGateway a"
| not_registered: "table_row gw (Some s) None ActionPassThrough AddrZero"
| no_gateway: "s \<noteq> d \<Longrightarrow> gw d = None \<Longrightarrow> table_row gw (Some s) (Some d) ActionServFail AddrZero"
| unknown_source: "table_row gw None d ActionPassThrough AddrZero"

inductive_simps table_row_simps [simp]:
  "table_row gw None d act a"
  "table_row gw (Some s) None act a"
  "table_row gw (Some s) (Some d) act a"

section \<open>Facts\<close>

lemma Decide_simps [simp]:
  "\<not> iSourceOK inp \<Longrightarrow> Decide inp gw = \<lparr>dAction = ActionPassThrough, dGateway = AddrZero\<rparr>"
  "\<not> iDestOK inp \<Longrightarrow> Decide inp gw = \<lparr>dAction = ActionPassThrough, dGateway = AddrZero\<rparr>"
  "iDestZone inp = iSourceZone inp \<Longrightarrow> Decide inp gw = \<lparr>dAction = ActionPassThrough, dGateway = AddrZero\<rparr>"
  by (simp_all add: Decide_def)

lemma Decide_cross:
  "iSourceOK inp \<Longrightarrow> iDestOK inp \<Longrightarrow> iDestZone inp \<noteq> iSourceZone inp \<Longrightarrow>
     Decide inp gw = (case gw (iDestZone inp) of
        None \<Rightarrow> \<lparr>dAction = ActionServFail, dGateway = AddrZero\<rparr>
      | Some a \<Rightarrow> \<lparr>dAction = ActionAnswerGateway, dGateway = a\<rparr>)"
  by (simp add: Decide_def)

lemma Decide_table_row:
  "table_row gw (known (iSourceOK inp) (iSourceZone inp)) (known (iDestOK inp) (iDestZone inp)) act a
     \<longleftrightarrow> Decide inp gw = \<lparr>dAction = act, dGateway = a\<rparr>"
  by (auto simp: Decide_def known_def split: option.splits)

lemma Decide_gateway_iff:
  "dAction (Decide inp gw) = ActionAnswerGateway \<longleftrightarrow>
     iSourceOK inp \<and> iDestOK inp \<and> iDestZone inp \<noteq> iSourceZone inp \<and> gw (iDestZone inp) \<noteq> None"
  by (auto simp: Decide_def split: option.splits)

lemma Decide_servfail_iff:
  "dAction (Decide inp gw) = ActionServFail \<longleftrightarrow>
     iSourceOK inp \<and> iDestOK inp \<and> iDestZone inp \<noteq> iSourceZone inp \<and> gw (iDestZone inp) = None"
  by (auto simp: Decide_def split: option.splits)

lemma Decide_not_other: "dAction (Decide inp gw) \<noteq> ActionOther n"
  by (auto simp: Decide_def split: option.splits)

lemma Decide_pass_iff:
  "dAction (Decide inp gw) = ActionPassThrough \<longleftrightarrow>
     \<not> iSourceOK inp \<or> \<not> iDestOK inp \<or> iDestZone inp = iSourceZone inp"
  by (auto simp: Decide_def split: option.splits)

section \<open>The interface of a gateway table\<close>

text \<open>
  What the decision relies on of the table it is given: a table built from a configuration
  answers with the configured gateway and with nothing for any other zone.
\<close>

locale gateway_table =
  fixes new :: "(string, addr) gomap \<Rightarrow> 't"
    and gateway :: "'t \<Rightarrow> string \<Rightarrow> addr option"
    and len :: "'t \<Rightarrow> nat"
  assumes gateway_new: "gm_ok m \<Longrightarrow> gateway (new m) z = gm_get m z"
    and len_new: "gm_ok m \<Longrightarrow> len (new m) = gm_len m"
begin

lemma decide_configured:
  "gm_ok m \<Longrightarrow> Decide inp (gateway (new m)) = Decide inp (gm_get m)"
  by (simp add: Decide_def gateway_new)

lemma answers_only_configured:
  "gm_ok m \<Longrightarrow> Decide inp (gateway (new m)) = \<lparr>dAction = ActionAnswerGateway, dGateway = a\<rparr> \<Longrightarrow>
     (iDestZone inp, a) \<in> set m \<and> iDestZone inp \<noteq> iSourceZone inp"
  by (auto simp: Decide_def gateway_new gm_get_Some_iff split: if_splits option.splits)

end

lemma zonetable_New_get: "gm_ok m \<Longrightarrow> gm_get (tGw (zonetable_New m)) z = gm_get m z"
  by (simp add: zonetable_New_def gm.get_fold_put gm_get_rev split: option.splits)

lemma zonetable_New_ok: "gm_ok (tGw (zonetable_New m))"
  by (simp add: zonetable_New_def gm.ok_fold_put)

lemma zonetable_New_len: "gm_ok m \<Longrightarrow> zonetable_Len (zonetable_New m) = gm_len m"
  by (simp add: zonetable_Len_def gm.len_eq_card zonetable_New_ok zonetable_New_get)

interpretation zt: gateway_table zonetable_New zonetable_Gateway zonetable_Len
  by unfold_locales (simp_all add: zonetable_Gateway_def zonetable_New_get zonetable_New_len)

section \<open>Properties\<close>

text \<open>
  Property C16. \<open>Decide\<close> implements the decision table of the design: for every input and
  gateway table, the action and gateway it returns are the ones of a row of the table,
  and of no other row, so the rows are exhaustive and do not overlap.
\<close>

theorem Decide_implements_table:
  "table_row gw (known (iSourceOK inp) (iSourceZone inp)) (known (iDestOK inp) (iDestZone inp)) act a
     \<longleftrightarrow> act = dAction (Decide inp gw) \<and> a = dGateway (Decide inp gw)"
  by (cases "Decide inp gw") (auto simp: Decide_table_row)

text \<open>
  With the table \<open>zonetable.New\<close> builds from a configuration, a gateway answer
  is given exactly to a known source in another zone than the registered destination, and
  its address is the one configured for the destination zone; a known cross-zone query
  whose zone has no gateway is never passed through (it fails with SERVFAIL).
\<close>

theorem Decide_configured_gateways:
  assumes "gm_ok conf"
  shows "(Decide inp (zonetable_Gateway (zonetable_New conf)) =
            \<lparr>dAction = ActionAnswerGateway, dGateway = a\<rparr> \<longleftrightarrow>
            iSourceOK inp \<and> iDestOK inp \<and> iDestZone inp \<noteq> iSourceZone inp \<and> (iDestZone inp, a) \<in> set conf) \<and>
         (dAction (Decide inp (zonetable_Gateway (zonetable_New conf))) = ActionServFail \<longleftrightarrow>
            iSourceOK inp \<and> iDestOK inp \<and> iDestZone inp \<noteq> iSourceZone inp \<and> iDestZone inp \<notin> fst ` set conf) \<and>
         zonetable_Len (zonetable_New conf) = length conf"
  using assms
  by (auto simp: Decide_def zt.gateway_new zt.len_new gm_len_def split: option.splits
      simp flip: gm_get_Some_iff gm_get_None_iff)

theorem Decide_configured_gateways_witness:
  "gm_ok [(''zone-b'', Addr4 10 0 0 9)] \<and>
   Decide \<lparr>iSourceZone = ''zone-a'', iSourceOK = True, iDestZone = ''zone-b'', iDestOK = True\<rparr>
     (zonetable_Gateway (zonetable_New [(''zone-b'', Addr4 10 0 0 9)])) =
     \<lparr>dAction = ActionAnswerGateway, dGateway = Addr4 10 0 0 9\<rparr>"
proof -
  have ok: "gm_ok [(''zone-b'', Addr4 10 0 0 9)]" by (simp add: gm_ok_def)
  show ?thesis
    using Decide_configured_gateways [OF ok,
        of "\<lparr>iSourceZone = ''zone-a'', iSourceOK = True, iDestZone = ''zone-b'', iDestOK = True\<rparr>" "Addr4 10 0 0 9"] ok
    by simp
qed

end
