(* ===== verification/Netip_Text.thy ===== *)
theory Netip_Text
  imports Netip
begin

text \<open>
  The text form of IP addresses is faithful: \<open>netip.ParseAddr\<close> reads back every valid
  address \<open>Addr.String\<close> prints (IPv4, IPv6 with its longest zero run compressed,
  IPv4-mapped IPv6, and scoped IPv6), and \<open>net.ParseIP\<close> reads back every unscoped one.
  Central's gateway answer passes through this text form.
\<close>

unbundle bit_operations_syntax

definition hexish :: "char \<Rightarrow> bool" where
  "hexish c = (hex_val c \<noteq> None)"

text \<open>The four bytes \<open>To4\<close> finds in an address: IPv4, or IPv4 mapped into IPv6.\<close>

definition addr_v4 :: "addr \<Rightarrow> u8 list" where
  "addr_v4 a =
     (case a of
        AddrZero \<Rightarrow> []
      | Addr4 a b c d \<Rightarrow> [a, b, c, d]
      | Addr6 gs z \<Rightarrow> if Is4In6 (Addr6 gs z) then concat (map group_bytes (drop 6 gs)) else [])"

section \<open>Hexadecimal groups\<close>

lemma hex_val_digit: "d < 16 \<Longrightarrow> hex_val (hex_digit d) = Some d"
proof (cases "d < 10")
  case True
  then show ?thesis by (simp add: hex_digit_def hex_val_def is_digit_show)
next
  case False
  assume "d < 16"
  with False show ?thesis
    by (auto simp: hex_digit_def hex_val_def is_digit_def less_eq_char_def)
qed

lemma hexish_not_special: "hexish c \<Longrightarrow> c \<noteq> CHR ''.'' \<and> c \<noteq> CHR '':'' \<and> c \<noteq> CHR ''%''"
  by (auto simp: hexish_def hex_val_def is_digit_def less_eq_char_def)

lemma hexish_digit: "d < 16 \<Longrightarrow> hexish (hex_digit d)"
  by (simp add: hexish_def hex_val_digit)

lemma show_hex_hexish: "list_all hexish (show_hex n)"
proof (induction n rule: show_hex.induct)
  case (1 n)
  then show ?case
    by (subst show_hex.simps) (auto simp: hexish_digit)
qed

lemma show_hex_not_Nil [simp]: "show_hex n \<noteq> []"
  by (subst show_hex.simps) auto

lemma hex_scan_show:
  "n < 16 ^ k \<Longrightarrow> 0 < k \<Longrightarrow> k \<le> 4 \<Longrightarrow>
     \<exists>off. off \<noteq> 0 \<and> off \<le> k \<and> hex_scan 0 0 (show_hex n @ rest) = hex_scan off n rest"
proof (induction n arbitrary: k rest rule: show_hex.induct)
  case (1 n)
  show ?case
  proof (cases "n < 16")
    case True
    then show ?thesis
      using "1.prems" by (intro exI [of _ 1]) (simp add: show_hex.simps [of n] hex_val_digit)
  next
    case False
    then have k: "k \<noteq> 1" using "1.prems" by (cases "k = 1") auto
    obtain k' where k': "k = Suc k'" "0 < k'" using "1.prems" k by (cases k) auto
    have "n div 16 < 16 ^ k'" using "1.prems"(1) by (simp add: k' less_mult_imp_div_less mult.commute)
    then obtain off where off: "off \<noteq> 0" "off \<le> k'"
        "hex_scan 0 0 (show_hex (n div 16) @ hex_digit (n mod 16) # rest) =
           hex_scan off (n div 16) (hex_digit (n mod 16) # rest)"
      using "1.IH" [OF False, of k' "hex_digit (n mod 16) # rest"] k' "1.prems" by auto
    have "n \<le> 65535"
    proof -
      have "(16 :: nat) ^ k \<le> 16 ^ 4" using "1.prems"(3) by (intro power_increasing) auto
      then show ?thesis using "1.prems"(1) by simp
    qed
    then show ?thesis
      using off False k' "1.prems"
      by (intro exI [of _ "Suc off"])
        (simp add: show_hex.simps [of n] hex_val_digit)
  qed
qed

lemma hex_scan_group:
  assumes "rest = [] \<or> \<not> hexish (hd rest)"
  shows "\<exists>off. off \<noteq> 0 \<and> hex_scan 0 0 (show_hex (unat (g :: u16)) @ rest) = Some (off, unat g, rest)"
proof -
  have "unat g < 16 ^ 4" using unsigned_less [of g, where ?'a = nat] by simp
  then obtain off where "off \<noteq> 0" "hex_scan 0 0 (show_hex (unat g) @ rest) = hex_scan off (unat g) rest"
    using hex_scan_show [of "unat g" 4 rest] by auto
  with assms show ?thesis
    by (cases rest) (auto simp: hexish_def)
qed

lemma show_groups_Cons: "gs \<noteq> [] \<Longrightarrow> show_groups (g # gs) = show_hex (unat g) @ CHR '':'' # show_groups gs"
  by (cases gs) (simp_all add: show_groups_def)

lemma show_groups_single [simp]: "show_groups [g] = show_hex (unat g)"
  by (simp add: show_groups_def)

lemma show_groups_hd:
  assumes "gs \<noteq> []"
  shows "show_groups gs \<noteq> [] \<and> hexish (hd (show_groups gs @ t))"
proof -
  obtain g gs' where gs: "gs = g # gs'" using assms by (cases gs) auto
  have "\<exists>u. show_groups gs = show_hex (unat g) @ u"
    by (cases "gs' = []") (auto simp: gs show_groups_Cons)
  then show ?thesis
    using show_hex_hexish [of "unat g"] show_hex_not_Nil [of "unat g"]
    by (cases "show_hex (unat g)") auto
qed

lemma v6_loop_end: 
  "length acc < 8 \<Longrightarrow> v6_loop acc ell (show_hex (unat (g::u16))) = Some (acc @ [g], ell, [])"
  using hex_scan_group [of "[]" g]
  by (auto simp: v6_loop.simps [of acc])

lemma not_hexish_sep [simp]: "\<not> hexish CHR '':''" "\<not> hexish CHR ''.''"
  using hexish_not_special by blast+

lemma v6_loop_colon:
  assumes "length acc < 8" "t \<noteq> []" "hd t \<noteq> CHR '':''"
  shows "v6_loop acc ell (show_hex (unat (g::u16)) @ CHR '':'' # t) = v6_loop (acc @ [g]) ell t"
proof -
  obtain off where "off \<noteq> 0" "hex_scan 0 0 (show_hex (unat g) @ CHR '':'' # t) = Some (off, unat g, CHR '':'' # t)"
    using hex_scan_group [of "CHR '':'' # t" g] by auto
  with assms show ?thesis by (simp add: v6_loop.simps [of acc])
qed

lemma v6_loop_ellipsis:
  assumes "length acc < 8"
  shows "v6_loop acc None (show_hex (unat (g::u16)) @ CHR '':'' # CHR '':'' # t) =
    (if t = [] then Some (acc @ [g], Some (Suc (length acc)), [])
     else v6_loop (acc @ [g]) (Some (Suc (length acc))) t)"
proof -
  obtain off where "off \<noteq> 0" "hex_scan 0 0 (show_hex (unat g) @ CHR '':'' # CHR '':'' # t) =
      Some (off, unat g, CHR '':'' # CHR '':'' # t)"
    using hex_scan_group [of "CHR '':'' # CHR '':'' # t" g] by auto
  with assms show ?thesis by (simp add: v6_loop.simps [of acc])
qed

lemma v6_loop_groups:
  "gs \<noteq> [] \<Longrightarrow> length acc + length gs \<le> 8 \<Longrightarrow> v6_loop acc ell (show_groups gs) = Some (acc @ gs, ell, [])"
proof (induction gs arbitrary: acc)
  case (Cons g gs)
  show ?case
  proof (cases "gs = []")
    case True
    with Cons.prems show ?thesis by (simp add: v6_loop_end)
  next
    case False
    then show ?thesis
      using Cons show_groups_hd [OF False, of "[]"] hexish_not_special
      by (auto simp: show_groups_Cons v6_loop_colon)
  qed
qed simp

lemma v6_loop_groups_ellipsis:
  "gs \<noteq> [] \<Longrightarrow> length acc + length gs \<le> 8 \<Longrightarrow>
   v6_loop acc None (show_groups gs @ CHR '':'' # CHR '':'' # t) =
    (if t = [] then Some (acc @ gs, Some (length (acc @ gs)), [])
     else v6_loop (acc @ gs) (Some (length (acc @ gs))) t)"
proof (induction gs arbitrary: acc)
  case (Cons g gs)
  show ?case
  proof (cases "gs = []")
    case True
    with Cons.prems show ?thesis by (simp add: v6_loop_ellipsis)
  next
    case False
    then show ?thesis
      using Cons show_groups_hd [OF False, of "CHR '':'' # CHR '':'' # t"] hexish_not_special
      by (auto simp: show_groups_Cons v6_loop_colon)
  qed
qed simp

section \<open>Compressed zero runs\<close>

lemma best_zero_run_spec:
  assumes "length gs = 8" "best_zero_run gs = Some (zs, ze)"
  shows "zs < ze \<and> ze \<le> 8 \<and> (\<forall>i. zs \<le> i \<longrightarrow> i < ze \<longrightarrow> gs ! i = 0)"
proof -
  define P where "P best \<longleftrightarrow> (case best of None \<Rightarrow> True | Some (zs, ze) \<Rightarrow>
      zs < ze \<and> ze \<le> length gs \<and> (\<forall>i. zs \<le> i \<longrightarrow> i < ze \<longrightarrow> gs ! i = 0))" for best
  have run: "P (Some (i, i + zero_run_at gs i))" if "zero_run_at gs i \<ge> 2" for i
  proof -
    let ?tw = "takeWhile (\<lambda>g. g = 0) (drop i gs)"
    have le: "i + length ?tw \<le> length gs"
      using that length_takeWhile_le [of "\<lambda>g. g = 0" "drop i gs"] by (simp add: zero_run_at_def)
    have "gs ! j = 0" if "i \<le> j" "j < i + length ?tw" for j
    proof -
      have "?tw ! (j - i) = gs ! j" using that le by (simp add: takeWhile_nth)
      moreover have "?tw ! (j - i) \<in> set ?tw" using that by (intro nth_mem) linarith
      ultimately show ?thesis by (metis (mono_tags, lifting) set_takeWhileD)
    qed
    moreover have "?tw \<noteq> []" using that by (auto simp: zero_run_at_def)
    ultimately show ?thesis using le by (simp add: P_def zero_run_at_def)
  qed
  have "P (fold (\<lambda>i best. let l = zero_run_at gs i
        in if l \<ge> 2 \<and> l > (case best of None \<Rightarrow> 0 | Some (zs, ze) \<Rightarrow> ze - zs)
           then Some (i, i + l) else best) is best)" if "P best" for "is" best
    using that by (induction "is" arbitrary: best) (auto simp: Let_def run)
  from this [of None "[0..<8]"] assms show ?thesis
    by (simp add: P_def best_zero_run_def)
qed

lemma zero_block:
  assumes "length gs = 8" "zs < ze" "ze \<le> 8" "\<forall>i. zs \<le> i \<longrightarrow> i < ze \<longrightarrow> gs ! i = 0"
  shows "take zs gs @ replicate (ze - zs) 0 @ drop ze gs = gs"
  by (rule nth_equalityI) (use assms in \<open>auto simp: nth_append\<close>)

lemma show_groups_no_colons: "gs \<noteq> [] \<Longrightarrow> \<not> HasPrefix (show_groups gs @ t) ''::''"
  using show_groups_hd [of gs t] hexish_not_special
  by (cases "show_groups gs") (auto simp: HasPrefix_def)

lemma parse_string6:
  assumes "length gs = 8"
  shows "parse_v6_groups (string6 gs) = Some gs"
proof (cases "best_zero_run gs")
  case None
  have "gs \<noteq> []" using assms by auto
  with None show ?thesis
    using assms show_groups_no_colons [of gs "[]"] v6_loop_groups [of gs "[]" None]
    by (auto simp: parse_v6_groups_def string6_def v6_expand_def)
next
  case (Some zz)
  obtain zs ze where zz: "best_zero_run gs = Some (zs, ze)" using Some by (cases zz) auto
  note sp = best_zero_run_spec [OF assms zz]
  have zb: "take zs gs @ replicate (ze - zs) 0 @ drop ze gs = gs"
    using zero_block [OF assms] sp by blast
  show ?thesis
  proof (cases "zs = 0")
    case True
    show ?thesis
    proof (cases "drop ze gs = []")
      case True
      then have "gs = replicate 8 0" using zb \<open>zs = 0\<close> sp assms by auto
      moreover have "string6 gs = ''::''"
        using True by (simp add: string6_def zz \<open>zs = 0\<close> show_groups_def)
      ultimately show ?thesis by (simp add: parse_v6_groups_def HasPrefix_def)
    next
      case False
      then have "v6_loop [] (Some 0) (show_groups (drop ze gs)) = Some (drop ze gs, Some 0, [])"
        using v6_loop_groups [of "drop ze gs" "[]" "Some 0"] assms by simp
      with False show ?thesis
        using show_groups_hd [OF False, of "[]"] zb sp assms
        by (auto simp: parse_v6_groups_def string6_def zz \<open>zs = 0\<close> HasPrefix_def show_groups_def v6_expand_def)
    qed
  next
    case False
    then have ne: "take zs gs \<noteq> []" using assms by auto
    have str: "string6 gs = show_groups (take zs gs) @ CHR '':'' # CHR '':'' # show_groups (drop ze gs)"
      by (simp add: string6_def zz)
    have loop: "v6_loop [] None (string6 gs) = Some (take zs gs @ drop ze gs, Some zs, [])"
    proof (cases "drop ze gs = []")
      case True
      then show ?thesis
        using v6_loop_groups_ellipsis [OF ne, of "[]" "[]"] sp assms str by (simp add: show_groups_def)
    next
      case False
      then show ?thesis
        using v6_loop_groups_ellipsis [OF ne, of "[]" "show_groups (drop ze gs)"]
          v6_loop_groups [of "drop ze gs" "take zs gs" "Some zs"] show_groups_hd [OF False, of "[]"] sp assms str
        by auto
    qed
    show ?thesis
      using loop show_groups_no_colons [OF ne] zb sp assms
      by (auto simp: parse_v6_groups_def str v6_expand_def)
  qed
qed


section \<open>Scanning for the address family\<close>

lemma show_groups_chars: "c \<in> set (show_groups gs) \<Longrightarrow> c = CHR '':'' \<or> hexish c"
proof (induction gs)
  case (Cons g gs)
  then show ?case
    using show_hex_hexish [of "unat g"]
    by (cases "gs = []") (auto simp: show_groups_Cons list_all_iff)
qed (simp add: show_groups_def)

lemma string6_no_percent: "CHR ''%'' \<notin> set (string6 gs)"
  using show_groups_chars hexish_not_special
  by (auto simp: string6_def split: option.splits)

lemma ParseAddr_scan_hexish: "list_all hexish w \<Longrightarrow> ParseAddr_scan s (w @ t) = ParseAddr_scan s t"
  by (induction w) (auto dest: hexish_not_special)

lemma show_groups_shape:
  assumes "2 \<le> length gs"
  shows "\<exists>w u. list_all hexish w \<and> show_groups gs = w @ CHR '':'' # u"
proof -
  obtain g gs' where "gs = g # gs'" "gs' \<noteq> []" using assms by (cases gs; cases "tl gs") auto
  then show ?thesis using show_hex_hexish show_groups_Cons by blast
qed

lemma string6_shape:
  assumes "length gs = 8"
  shows "\<exists>w u. list_all hexish w \<and> string6 gs = w @ CHR '':'' # u"
proof (cases "best_zero_run gs")
  case None
  then show ?thesis using show_groups_shape [of gs] assms by (simp add: string6_def)
next
  case (Some zz)
  obtain zs ze where zz: "zz = (zs, ze)" by fastforce
  consider "take zs gs = []" | g where "take zs gs = [g]" | "2 \<le> length (take zs gs)"
    by (cases "take zs gs"; cases "tl (take zs gs)") auto
  then show ?thesis
  proof cases
    case 1
    then have "string6 gs = [] @ CHR '':'' # CHR '':'' # show_groups (drop ze gs)"
      by (simp only: string6_def Some zz option.case prod.case) (simp add: show_groups_def)
    then show ?thesis by (intro exI [of _ "[]"] exI conjI) simp_all
  next
    case 2
    then show ?thesis
      using show_hex_hexish by (auto simp: string6_def Some zz)
  next
    case 3
    then show ?thesis
      using show_groups_shape [of "take zs gs"] by (auto simp: string6_def Some zz)
  qed
qed

lemma parseIPv6_zone_suffix:
  assumes "CHR ''%'' \<notin> set s"
  shows "parseIPv6 (s @ zone_suffix z) = map_option (\<lambda>gs. Addr6 gs z) (parse_v6_groups s)"
  using assms by (auto simp: parseIPv6_def zone_suffix_def takeWhile_append dropWhile_append)

lemma ParseAddr_string6:
  assumes "length gs = 8"
  shows "ParseAddr (string6 gs @ zone_suffix z) = Some (Addr6 gs z)"
proof -
  obtain w u where "list_all hexish w" "string6 gs = w @ CHR '':'' # u"
    using string6_shape [OF assms] by blast
  then have "ParseAddr (string6 gs @ zone_suffix z) = parseIPv6 (string6 gs @ zone_suffix z)"
    by (simp add: ParseAddr_def ParseAddr_scan_hexish)
  then show ?thesis
    by (simp add: parseIPv6_zone_suffix string6_no_percent parse_string6 [OF assms])
qed

section \<open>IPv4-mapped addresses\<close>

lemma hex_val_less: "hex_val c = Some d \<Longrightarrow> d < 16"
  by (auto simp: hex_val_def is_digit_def less_eq_char_def split: if_splits)

lemma hex_scan_short:
  "list_all hexish w \<Longrightarrow> off + length w \<le> 4 \<Longrightarrow> acc < 16 ^ off \<Longrightarrow>
     \<exists>acc'. hex_scan off acc (w @ rest) = hex_scan (off + length w) acc' rest"
proof (induction w arbitrary: off acc)
  case (Cons c w)
  obtain d where d: "hex_val c = Some d" "d < 16"
    using Cons.prems(1) hex_val_less by (auto simp: hexish_def)
  have lt: "acc * 16 + d < 16 ^ Suc off" using Cons.prems(3) d(2) by simp
  also have "\<dots> \<le> 16 ^ 4" using Cons.prems(2) by (intro power_increasing) auto
  finally have "\<not> acc * 16 + d > 65535" by simp
  with Cons.IH [of "Suc off" "acc * 16 + d"] Cons.prems lt d show ?case by auto
qed auto

lemma show_dec_short: "n \<le> 255 \<Longrightarrow> length (show_dec n) \<le> 3"
  by (subst show_dec.simps, subst show_dec.simps, subst show_dec.simps) auto

lemma bytes_group_bytes: "bytes_group (ucast (drop_bit 8 g)) (ucast (g :: u16)) = g"
proof -
  have "bytes_group (ucast (drop_bit 8 g)) (ucast g) = push_bit 8 (ucast (ucast (drop_bit 8 g) :: u8)) OR
      ucast (ucast g :: u8)"
    (is "_ = ?r")
    unfolding bytes_group_def by (rule disjunctive_add_eq_or) (rule bit_word_eqI, auto simp: bit_simps)
  also have "?r = g" by (rule bit_word_eqI) (auto simp: bit_simps)
  finally show ?thesis .
qed

lemma string4_shape: "\<exists>w u. list_all is_digit w \<and> length w \<le> 3 \<and> w \<noteq> [] \<and> string4 a b c d = w @ CHR ''.'' # u"
proof -
  have "unat a \<le> 255" using unsigned_less [of a, where ?'a = nat] by simp
  then have "length (show_dec (unat a)) \<le> 3" by (rule show_dec_short)
  then show ?thesis
    using show_dec_digits [of "unat a"]
    by (intro exI [of _ "show_dec (unat a)"] exI conjI) (simp_all add: string4_def)
qed

lemma digits_hexish: "list_all is_digit w \<Longrightarrow> list_all hexish w"
  by (auto simp: list_all_iff hexish_def hex_val_def)

lemma v6_loop_string4:
  "v6_loop [0xFFFF] (Some 0) (string4 a b c d) =
     Some ([0xFFFF, bytes_group a b, bytes_group c d], Some 0, [])"
proof -
  obtain w u where w: "list_all is_digit w" "length w \<le> 3" "w \<noteq> []" "string4 a b c d = w @ CHR ''.'' # u"
    using string4_shape by blast
  obtain acc where "hex_scan 0 0 (w @ CHR ''.'' # u) = hex_scan (length w) acc (CHR ''.'' # u)"
    using hex_scan_short [of w 0 0 "CHR ''.'' # u"] w digits_hexish by auto
  moreover have "hex_val CHR ''.'' = None" using not_hexish_sep(2) by (simp add: hexish_def)
  ultimately have scan: "hex_scan 0 0 (string4 a b c d) = Some (length w, acc, CHR ''.'' # u)"
    using w(4) by simp
  show ?thesis
    using w(3) by (simp add: v6_loop.simps [of "[0xFFFF]"] scan parse_string4)
qed

lemma parse_mapped:
  "parse_v6_groups (''::ffff:'' @ string4 a b c d) =
     Some [0, 0, 0, 0, 0, 0xFFFF, bytes_group a b, bytes_group c d]"
proof -
  have "char_of (102 :: nat) = CHR ''f''" using char_of_char [of "CHR ''f''"] by simp
  then have "show_hex 65535 = ''ffff''" by (simp add: show_hex.simps hex_digit_def)
  then have "show_hex (unat (0xFFFF :: u16)) = ''ffff''" by simp
  moreover obtain c0 u0 where "string4 a b c d = c0 # u0" "is_digit c0"
  proof -
    obtain w u where "list_all is_digit w" "w \<noteq> []" "string4 a b c d = w @ CHR ''.'' # u"
      using string4_shape by blast
    then show thesis by (cases w) (auto intro: that)
  qed
  moreover from this have "c0 \<noteq> CHR '':''" by (auto simp: is_digit_def less_eq_char_def)
  ultimately have "v6_loop [] (Some 0) (''ffff:'' @ string4 a b c d) = v6_loop [0xFFFF] (Some 0) (string4 a b c d)"
    using v6_loop_colon [of "[]" "string4 a b c d" "Some 0" "0xFFFF"] by simp
  then show ?thesis
    by (simp add: parse_v6_groups_def HasPrefix_def v6_loop_string4 v6_expand_def numeral_eq_Suc)
qed

lemma addr6_mapped:
  assumes "length gs = 8" "Is4In6 (Addr6 gs z)"
  shows "\<exists>g h. gs = [0, 0, 0, 0, 0, 0xFFFF, g, h]"
proof -
  have "gs = take 6 gs @ drop 6 gs" by simp
  moreover obtain g h where "drop 6 gs = [g, h]"
    using assms(1) length_drop [of 6 gs]
    by (cases "drop 6 gs"; cases "tl (drop 6 gs)"; cases "tl (tl (drop 6 gs))") auto
  ultimately show ?thesis using assms(2) by (auto simp: Is4In6_def)
qed

lemma ParseAddr_mapped:
  "ParseAddr ((''::ffff:'' @ string4 a b c d) @ zone_suffix z) =
     Some (Addr6 [0, 0, 0, 0, 0, 0xFFFF, bytes_group a b, bytes_group c d] z)"
proof -
  have dig: "CHR ''%'' \<notin> set (show_dec n)" for n
    using show_dec_digits [of n] by (auto simp: list_all_iff is_digit_def less_eq_char_def)
  have "parseIPv6 ((''::ffff:'' @ string4 a b c d) @ zone_suffix z) =
      map_option (\<lambda>gs. Addr6 gs z) (parse_v6_groups (''::ffff:'' @ string4 a b c d))"
    by (rule parseIPv6_zone_suffix) (simp add: string4_def dig)
  then show ?thesis by (simp add: ParseAddr_def parse_mapped [simplified])
qed

section \<open>Round trips\<close>

text \<open>Printing a valid address and parsing it again is the identity.\<close>

lemma ParseAddr_String [go_lib]:
  assumes "addr_ok a" "IsValid a"
  shows "ParseAddr (addr_String a) = Some a"
proof (cases a)
  case (Addr6 gs z)
  then have len: "length gs = 8" using assms(1) by (simp add: addr_ok_def)
  show ?thesis
  proof (cases "Is4In6 (Addr6 gs z)")
    case True
    then obtain g h where "gs = [0, 0, 0, 0, 0, 0xFFFF, g, h]" using addr6_mapped [OF len] by blast
    with True Addr6 show ?thesis
      using ParseAddr_mapped [of "ucast (drop_bit 8 g)" "ucast g" "ucast (drop_bit 8 h)" "ucast h" z]
      by (simp add: addr_String_def group_bytes_def bytes_group_bytes)
  next
    case False
    with Addr6 show ?thesis by (simp add: addr_String_def ParseAddr_string6 len)
  qed
qed (use assms in \<open>auto simp: addr_String_def ParseAddr_string4 IsValid_def\<close>)

lemma ParseIP_String [go_lib]:
  assumes "addr_ok a" "IsValid a"
  shows "ParseIP (addr_String a) = (if addr_zone a \<noteq> [] then [] else As16 a)"
  using ParseAddr_String [OF assms] by (simp add: ParseIP_def)

lemma length_As16 [simp]: "addr_ok a \<Longrightarrow> length (As16 a) = 16"
  by (cases a) (auto simp: As16_def addr_ok_def group_bytes_def length_concat comp_def sum_list_triv)

lemma To4_As16:
  assumes "addr_ok a" "IsValid a"
  shows "To4 (As16 a) = addr_v4 a"
proof (cases a)
  case (Addr6 gs z)
  then have "length gs = 8" using assms by (simp add: addr_ok_def)
  then obtain g0 g1 g2 g3 g4 g5 g6 g7 where gs: "gs = [g0,g1,g2,g3,g4,g5,g6,g7]"
    by (auto simp: numeral_eq_Suc length_Suc_conv)
  have g: "x = 0 \<longleftrightarrow> (ucast (drop_bit 8 x) :: u8) = 0 \<and> (ucast x :: u8) = 0"
    "x = 0xFFFF \<longleftrightarrow> (ucast (drop_bit 8 x) :: u8) = 0xFF \<and> (ucast x :: u8) = 0xFF" for x :: u16
  proof -
    have "bytes_group 0 0 = 0" "bytes_group 0xFF 0xFF = 0xFFFF" by (simp_all add: bytes_group_def)
    with bytes_group_bytes [of x] show "x = 0 \<longleftrightarrow> (ucast (drop_bit 8 x) :: u8) = 0 \<and> (ucast x :: u8) = 0"
      "x = 0xFFFF \<longleftrightarrow> (ucast (drop_bit 8 x) :: u8) = 0xFF \<and> (ucast x :: u8) = 0xFF"
      by auto
  qed
  have "Is4In6 a \<longleftrightarrow> g0 = 0 \<and> g1 = 0 \<and> g2 = 0 \<and> g3 = 0 \<and> g4 = 0 \<and> g5 = 0xFFFF"
    by (simp add: Is4In6_def Addr6 gs)
  moreover have "To4 (As16 a) \<noteq> [] \<longleftrightarrow> g0 = 0 \<and> g1 = 0 \<and> g2 = 0 \<and> g3 = 0 \<and> g4 = 0 \<and> g5 = 0xFFFF"
    unfolding g by (simp add: To4_def As16_def Addr6 gs group_bytes_def eval_nat_numeral)
  ultimately have mapped: "Is4In6 a \<longleftrightarrow> To4 (As16 a) \<noteq> []" by blast
  have "To4 (As16 a) = [] \<or> To4 (As16 a) = drop 12 (As16 a)"
    using assms(1) by (simp add: To4_def)
  moreover have "drop 12 (As16 a) = concat (map group_bytes (drop 6 gs))"
    by (simp add: As16_def Addr6 gs group_bytes_def)
  ultimately show ?thesis
    using mapped unfolding addr_v4_def Addr6 by auto
qed (use assms in \<open>auto simp: As16_def To4_def IsValid_def nth_append addr_v4_def\<close>)

end
