(* ===== verification/Central.thy ===== *)
theory Central
  imports Identity Registry Decision Netip_Text
begin

text \<open>
  Package \<open>plugin/zonedns\<close>, files \<open>zonedns.go\<close> and \<open>metrics.go\<close>: central's handler. It asks
  the trust boundary for the source zone, the registry for the zone of the name and the
  decision table for what to do, and then answers with a gateway address, fails, or hands
  the query to the next plugin.

  The next plugin is a parameter: \<open>zNext\<close> is \<open>plugin.NextOrFailure(z.Name(), z.Next, ...)\<close>
  as a function of the context, the writer and the query. A handler returns a response
  code and an error, and the writer with what was written.
\<close>

section \<open>Metrics\<close>

record central_metrics =
  sourceZoneTotal :: "string \<Rightarrow> nat"
  decisionTotal :: "string \<Rightarrow> nat"

definition inc_sourceZone :: "string \<Rightarrow> central_metrics \<Rightarrow> central_metrics" where
  "inc_sourceZone l M = M\<lparr>sourceZoneTotal := (sourceZoneTotal M)(l := Suc (sourceZoneTotal M l))\<rparr>"

definition inc_decision :: "string \<Rightarrow> central_metrics \<Rightarrow> central_metrics" where
  "inc_decision l M = M\<lparr>decisionTotal := (decisionTotal M)(l := Suc (decisionTotal M l))\<rparr>"

section \<open>The handler\<close>

type_synonym result = "int \<times> string option"
type_synonym next_handler = "go_context \<Rightarrow> writer \<Rightarrow> dns_msg \<Rightarrow> result \<times> writer"

record ZoneDNS =
  zNext :: next_handler
  zIdentity :: identity_config
  zRegistry :: Store
  zZones :: zone_table
  zTTL :: u32

definition answerGateway ::
  "dnslib \<Rightarrow> reqlib \<Rightarrow> ZoneDNS \<Rightarrow> writer \<Rightarrow> dns_msg \<Rightarrow> string \<Rightarrow> result \<times> writer" where
  "answerGateway L Q z w r gw =
     (let ip = ParseIP gw;
          isV4 = (To4 ip \<noteq> []);
          m = (SetReply L new_msg r)\<lparr>mAuthoritative := True\<rparr>;
          m1 = reqSizeAndDo Q r m;
          hdr = \<lparr>hName = reqQName Q r, hRrtype = 0, hClass = ClassINET, hTtl = zTTL z\<rparr>;
          m2 = (if reqQType Q r = TypeA \<and> isV4 then
                  m1\<lparr>mAnswer := [RR_A (hdr\<lparr>hRrtype := TypeA\<rparr>) (To4 ip)]\<rparr>
                else if reqQType Q r = TypeAAAA \<and> \<not> isV4 then
                  m1\<lparr>mAnswer := [RR_AAAA (hdr\<lparr>hRrtype := TypeAAAA\<rparr>) (To16 ip)]\<rparr>
                else m1)
      in ((RcodeSuccess, None), WriteMsg w m2))"

definition zonedns_ServeDNS ::
  "dnslib \<Rightarrow> reqlib \<Rightarrow> unicode \<Rightarrow> ZoneDNS \<Rightarrow> go_context \<Rightarrow> writer \<Rightarrow> dns_msg \<Rightarrow> central_metrics \<Rightarrow>
     result \<times> writer \<times> central_metrics" where
  "zonedns_ServeDNS L Q U z ctx w r M =
     (if reqQType Q r \<noteq> TypeA \<and> reqQType Q r \<noteq> TypeAAAA then
        (let (res, w') = zNext z ctx w r in (res, w', M))
      else
        let (zone, reason) = SourceZone L (zIdentity z) ctx w r;
            M1 = inc_sourceZone (Reason_String reason) M;
            dest = Store_Lookup U (zRegistry z) (reqName Q r);
            d = Decide \<lparr>iSourceZone = zone, iSourceOK = (reason = ReasonOK),
                        iDestZone = (case dest of None \<Rightarrow> [] | Some dz \<Rightarrow> dz), iDestOK = (dest \<noteq> None)\<rparr>
                  (zonetable_Gateway (zZones z));
            M2 = inc_decision (Action_String (dAction d)) M1
        in case dAction d of
             ActionAnswerGateway \<Rightarrow>
               (let (res, w') = answerGateway L Q z w r (addr_String (dGateway d)) in (res, w', M2))
           | ActionServFail \<Rightarrow> ((RcodeServerFailure, None), w, M2)
           | ActionPassThrough \<Rightarrow> (let (res, w') = zNext z ctx w r in (res, w', M2))
           | ActionOther n \<Rightarrow> (let (res, w') = zNext z ctx w r in (res, w', M2)))"

text \<open>What the two lookups of a query give, and the query's class as the design has it.\<close>

definition address_query :: "reqlib \<Rightarrow> dns_msg \<Rightarrow> bool" where
  "address_query Q r = (reqQType Q r = TypeA \<or> reqQType Q r = TypeAAAA)"

definition cross_zone ::
  "dnslib \<Rightarrow> reqlib \<Rightarrow> unicode \<Rightarrow> ZoneDNS \<Rightarrow> go_context \<Rightarrow> writer \<Rightarrow> dns_msg \<Rightarrow> string \<Rightarrow> string \<Rightarrow> bool" where
  "cross_zone L Q U z ctx w r s d =
     (address_query Q r \<and> SourceZone L (zIdentity z) ctx w r = (s, ReasonOK) \<and>
      Store_Lookup U (zRegistry z) (reqName Q r) = Some d \<and> s \<noteq> d)"

section \<open>A concrete deployment\<close>

text \<open>
  One agent, one registered name in \<open>zone-b\<close>, one configured gateway: the instance at
  which the theorems with hypotheses are applied.
\<close>

definition demo_agent :: url where
  "demo_agent = \<lparr>uScheme = ''spiffe'', uPath = ''/agent'', uString = ''spiffe://d/agent''\<rparr>"

definition demo_ctx :: go_context where
  "demo_ctx = \<lparr>ctxHTTP = Some (Some \<lparr>httpTLS =
     Some \<lparr>tlsPeerCertificates = [\<lparr>cURIs = [Some demo_agent]\<rparr>]\<rparr>\<rparr>)\<rparr>"

definition demo_writer :: writer where
  "demo_writer = \<lparr>wConn = None, wRemoteIP = ''10.1.0.5'', wWritten = []\<rparr>"

definition demo_question :: "u16 \<Rightarrow> question" where
  "demo_question ty = \<lparr>qName = ''pay.io.'', qQtype = ty, qQclass = ClassINET\<rparr>"

definition demo_query :: "u16 \<Rightarrow> dns_msg" where
  "demo_query ty =
     \<lparr>mId = 7, mResponse = False, mAuthoritative = False, mRcode = 0, mQuestion = [demo_question ty],
      mAnswer = [], mNs = [],
      mExtra = [RR_OPT \<lparr>hName = ''.'', hRrtype = TypeOPT, hClass = 1232, hTtl = 0\<rparr>
        [EDNS0_LOCAL 65001 ''zone-a'']]\<rparr>"

definition demo_entries :: "Entry list" where
  "demo_entries = [\<lparr>eSPIFFEIDPath = ''/zone/zone-b/sa/pay'', eDNSNames = [''pay.io'']\<rparr>]"

definition demo_central :: "addr \<Rightarrow> ZoneDNS" where
  "demo_central gw =
     \<lparr>zNext = (\<lambda>ctx w r. ((RcodeSuccess, None), WriteMsg w new_msg)),
      zIdentity = NewConfig [''spiffe://d/agent''] 65001,
      zRegistry = Replace NewStore (fst (BuildSnapshot demo_U demo_entries)),
      zZones = zonetable_New [(''zone-b'', gw)], zTTL = 30\<rparr>"

definition demo_metrics :: central_metrics where
  "demo_metrics = \<lparr>sourceZoneTotal = (\<lambda>_. 0), decisionTotal = (\<lambda>_. 0)\<rparr>"

section \<open>Facts\<close>

lemma demo_mQuestion: "mQuestion (demo_query ty) = demo_question ty # []"
  by (simp add: demo_query_def)

lemma demo_cross_A:
  "cross_zone dnslib_ref reqlib_ref demo_U (demo_central gw) demo_ctx demo_writer (demo_query TypeA)
     ''zone-a'' ''zone-b''"
  by code_simp

lemma demo_cross_AAAA:
  "cross_zone dnslib_ref reqlib_ref demo_U (demo_central gw) demo_ctx demo_writer (demo_query TypeAAAA)
     ''zone-a'' ''zone-b''"
  by code_simp

lemma demo_gateway: "zonetable_Gateway (zZones (demo_central gw)) ''zone-b'' = Some gw"
  by code_simp

lemma cross_zone_unique:
  "cross_zone L Q U z ctx w r s d \<Longrightarrow> cross_zone L Q U z ctx w r s' d' \<Longrightarrow> s' = s \<and> d' = d"
  by (simp add: cross_zone_def)

lemma ServeDNS_cross:
  assumes "cross_zone L Q U z ctx w r s d"
  shows "fst (zonedns_ServeDNS L Q U z ctx w r M) =
           (case zonetable_Gateway (zZones z) d of
              None \<Rightarrow> (RcodeServerFailure, None)
            | Some a \<Rightarrow> (RcodeSuccess, None)) \<and>
         fst (snd (zonedns_ServeDNS L Q U z ctx w r M)) =
           (case zonetable_Gateway (zZones z) d of
              None \<Rightarrow> w
            | Some a \<Rightarrow> snd (answerGateway L Q z w r (addr_String a)))"
  using assms
  by (auto simp: cross_zone_def zonedns_ServeDNS_def Decide_cross address_query_def answerGateway_def Let_def
      split: option.splits)

lemma ServeDNS_pass:
  assumes "\<nexists>s d. cross_zone L Q U z ctx w r s d"
  shows "fst (zonedns_ServeDNS L Q U z ctx w r M) = fst (zNext z ctx w r) \<and>
         fst (snd (zonedns_ServeDNS L Q U z ctx w r M)) = snd (zNext z ctx w r)"
proof (cases "address_query Q r")
  case False
  then show ?thesis
    by (simp add: zonedns_ServeDNS_def address_query_def split: prod.splits)
next
  case True
  obtain zone reason where sz: "SourceZone L (zIdentity z) ctx w r = (zone, reason)" by fastforce
  let ?dest = "Store_Lookup U (zRegistry z) (reqName Q r)"
  let ?inp = "\<lparr>iSourceZone = zone, iSourceOK = (reason = ReasonOK),
     iDestZone = (case ?dest of None \<Rightarrow> [] | Some dz \<Rightarrow> dz), iDestOK = (?dest \<noteq> None)\<rparr>"
  have "dAction (Decide ?inp (zonetable_Gateway (zZones z))) = ActionPassThrough"
    using assms True sz by (auto simp: Decide_pass_iff cross_zone_def split: option.splits)
  with True sz show ?thesis
    by (auto simp: zonedns_ServeDNS_def address_query_def Let_def split: prod.splits)
qed

lemma percent_not_v4: "CHR ''%'' \<in> set s \<Longrightarrow> parse_v4_fields v d os s = None"
  by (induction v d os s rule: parse_v4_fields.induct) (auto simp: is_digit_def less_eq_char_def)

text \<open>\<open>net.ParseIP\<close> knows no scoped addresses: it returns nil for every text with a scope zone.\<close>

lemma ParseIP_scoped: "CHR ''%'' \<in> set s \<Longrightarrow> ParseIP s = []"
proof -
  assume p: "CHR ''%'' \<in> set s"
  have "ParseAddr_scan s t = Some a \<Longrightarrow> addr_zone a \<noteq> []" for t a
    using p by (induction t)
      (auto simp: parseIPv4_def percent_not_v4 parseIPv6_def addr_zone_def Let_def split: if_splits)
  then show ?thesis by (auto simp: ParseIP_def ParseAddr_def split: option.splits)
qed

lemma ParseIP_scoped_gateway: "zn \<noteq> [] \<Longrightarrow> ParseIP (addr_String (Addr6 gs zn)) = []"
  by (rule ParseIP_scoped) (simp add: addr_String_def zone_suffix_def)

lemma answerGateway_frame:
  assumes "reply_laws L" and "reqlib_laws Q" and "mQuestion r = q # qs"
  shows "\<exists>m. wWritten (snd (answerGateway L Q z w r gw)) = wWritten w @ [m] \<and>
     mId m = mId r \<and> mResponse m \<and> mAuthoritative m \<and> mRcode m = RcodeSuccess \<and>
     mQuestion m = [q] \<and> mNs m = [] \<and>
     mAnswer m =
       (if qQtype q = TypeA \<and> To4 (ParseIP gw) \<noteq> [] then
          [RR_A \<lparr>hName = qName q, hRrtype = TypeA, hClass = ClassINET, hTtl = zTTL z\<rparr> (To4 (ParseIP gw))]
        else if qQtype q = TypeAAAA \<and> To4 (ParseIP gw) = [] then
          [RR_AAAA \<lparr>hName = qName q, hRrtype = TypeAAAA, hClass = ClassINET, hTtl = zTTL z\<rparr>
             (To16 (ParseIP gw))]
        else [])"
proof -
  obtain e where e: "reqSizeAndDo Q r ((SetReply L new_msg r)\<lparr>mAuthoritative := True\<rparr>) =
      (SetReply L new_msg r)\<lparr>mAuthoritative := True, mExtra := e\<rparr>"
    using req_SizeAndDo [OF assms(2), of r "(SetReply L new_msg r)\<lparr>mAuthoritative := True\<rparr>"] by auto
  show ?thesis
    by (simp add: answerGateway_def Let_def e req_simps [OF assms(2,3)] reply_simps [OF assms(1)]
        reply_simps(4) [OF assms(1,3)])
qed

lemma ServeDNS_metrics:
  "snd (snd (zonedns_ServeDNS L Q U z ctx w r M)) =
     (if address_query Q r then
        inc_decision (Action_String (dAction (Decide
            \<lparr>iSourceZone = fst (SourceZone L (zIdentity z) ctx w r),
             iSourceOK = (snd (SourceZone L (zIdentity z) ctx w r) = ReasonOK),
             iDestZone = (case Store_Lookup U (zRegistry z) (reqName Q r) of None \<Rightarrow> [] | Some dz \<Rightarrow> dz),
             iDestOK = (Store_Lookup U (zRegistry z) (reqName Q r) \<noteq> None)\<rparr>
            (zonetable_Gateway (zZones z)))))
          (inc_sourceZone (Reason_String (snd (SourceZone L (zIdentity z) ctx w r))) M)
      else M)"
  by (auto simp: zonedns_ServeDNS_def address_query_def Let_def split: prod.splits Action.splits)

lemma ServeDNS_independent:
  assumes "cross_zone L Q U z ctx w r s d"
  shows "zonedns_ServeDNS L Q U (z\<lparr>zNext := nx\<rparr>) ctx w r M = zonedns_ServeDNS L Q U z ctx w r M"
  using assms
  by (auto simp: cross_zone_def zonedns_ServeDNS_def Decide_cross address_query_def answerGateway_def Let_def
      split: option.splits)

lemma unauthorized_not_cross:
  assumes "zIdentity z = NewConfig agents code" and "\<not> authorized_peer agents ctx w"
  shows "\<not> cross_zone L Q U z ctx w r s d"
  using assms tb.untrusted_not_ok [of agents "(ctx, w)" L code r] by (auto simp: cross_zone_def)

text \<open>The records a cross-zone query is answered with, for a gateway without a scope.\<close>

definition gateway_records :: "u32 \<Rightarrow> question \<Rightarrow> addr \<Rightarrow> rr list" where
  "gateway_records ttl q a =
       (if addr_v4 a \<noteq> [] then
          (if qQtype q = TypeA then
             [RR_A \<lparr>hName = qName q, hRrtype = TypeA, hClass = ClassINET, hTtl = ttl\<rparr> (addr_v4 a)]
           else [])
        else if qQtype q = TypeAAAA then
          [RR_AAAA \<lparr>hName = qName q, hRrtype = TypeAAAA, hClass = ClassINET, hTtl = ttl\<rparr> (As16 a)]
        else [])"

lemma cross_gateway_records:
  assumes "reply_laws L" and "reqlib_laws Q" and "mQuestion r = q # qs"
    and "cross_zone L Q U z ctx w r s d"
    and "zonetable_Gateway (zZones z) d = Some a" and "addr_ok a" and "IsValid a" and "addr_zone a = []"
  shows "\<exists>m. wWritten (fst (snd (zonedns_ServeDNS L Q U z ctx w r M))) = wWritten w @ [m] \<and>
     mId m = mId r \<and> mQuestion m = [q] \<and> mRcode m = RcodeSuccess \<and> mNs m = [] \<and>
     mAnswer m = gateway_records (zTTL z) q a"
proof -
  have ip: "ParseIP (addr_String a) = As16 a"
    using assms(6-8) by (simp add: ParseIP_String)
  have v4: "To4 (As16 a) = addr_v4 a" and v6: "To16 (As16 a) = As16 a"
    using assms(6,7) by (simp_all add: To4_As16 To16_def)
  show ?thesis
    using answerGateway_frame [OF assms(1-3), of z w "addr_String a"]
      ServeDNS_cross [OF assms(4), of M] assms(5)
    by (auto simp: ip v4 v6 gateway_records_def)
qed

text \<open>The answer section for every gateway a configuration may hold, scoped ones included.\<close>

definition gateway_answer :: "u32 \<Rightarrow> question \<Rightarrow> addr \<Rightarrow> rr list" where
  "gateway_answer ttl q a =
     (if addr_zone a = [] then gateway_records ttl q a
      else if qQtype q = TypeAAAA then
        [RR_AAAA \<lparr>hName = qName q, hRrtype = TypeAAAA, hClass = ClassINET, hTtl = ttl\<rparr> []]
      else [])"

lemma cross_gateway_answer:
  assumes "reply_laws L" and "reqlib_laws Q" and "mQuestion r = q # qs"
    and "cross_zone L Q U z ctx w r s d"
    and "zonetable_Gateway (zZones z) d = Some a" and "addr_ok a" and "IsValid a"
  shows "\<exists>m. wWritten (fst (snd (zonedns_ServeDNS L Q U z ctx w r M))) = wWritten w @ [m] \<and>
     mId m = mId r \<and> mQuestion m = [q] \<and> mRcode m = RcodeSuccess \<and> mNs m = [] \<and>
     mAnswer m = gateway_answer (zTTL z) q a"
proof (cases "addr_zone a = []")
  case True
  with cross_gateway_records [OF assms True, of M] show ?thesis by (simp add: gateway_answer_def)
next
  case False
  then obtain gs zn where a: "a = Addr6 gs zn" "zn \<noteq> []" by (cases a) (auto simp: addr_zone_def)
  have ip: "ParseIP (addr_String a) = []" unfolding a(1) by (rule ParseIP_scoped_gateway [OF a(2)])
  have nil: "To4 [] = []" "To16 [] = []" by (simp_all add: To4_def To16_def)
  show ?thesis
    using answerGateway_frame [OF assms(1-3), of z w "addr_String a"] ServeDNS_cross [OF assms(4), of M] assms(5) False
    by (auto simp: ip nil gateway_answer_def)
qed

section \<open>Properties\<close>

text \<open>
  Property C4. Zone isolation at central: when a verified agent declares zone \<open>s\<close> and the
  queried name is registered in another zone \<open>d\<close>, the next plugin (which knows the
  ordinary service address) has no influence on the outcome. With no gateway configured
  for \<open>d\<close> the result is SERVFAIL and nothing is written; otherwise the result is success and
  exactly one message is written, an answer to the query's own question without authority
  records whose answer section is determined by the gateway of \<open>d\<close> alone: for an unscoped
  address exactly its record or NODATA in the other family, and for a scoped one an AAAA
  record with no address, or NODATA for A. The gateway is assumed valid, as every accepted
  configuration makes it.
\<close>

theorem ServeDNS_isolation:
  assumes "reply_laws L" and "reqlib_laws Q" and "mQuestion r = q # qs"
    and "cross_zone L Q U z ctx w r s d"
    and "\<And>a. zonetable_Gateway (zZones z) d = Some a \<Longrightarrow> addr_ok a \<and> IsValid a"
  shows "zonedns_ServeDNS L Q U (z\<lparr>zNext := nx\<rparr>) ctx w r M = zonedns_ServeDNS L Q U z ctx w r M \<and>
    (case zonetable_Gateway (zZones z) d of
       None \<Rightarrow> fst (zonedns_ServeDNS L Q U z ctx w r M) = (RcodeServerFailure, None) \<and>
               fst (snd (zonedns_ServeDNS L Q U z ctx w r M)) = w
     | Some a \<Rightarrow> fst (zonedns_ServeDNS L Q U z ctx w r M) = (RcodeSuccess, None) \<and>
         (\<exists>m. wWritten (fst (snd (zonedns_ServeDNS L Q U z ctx w r M))) = wWritten w @ [m] \<and>
            mId m = mId r \<and> mRcode m = RcodeSuccess \<and> mQuestion m = [q] \<and> mNs m = [] \<and>
            mAnswer m =
              (if addr_zone a \<noteq> [] then
                 (if qQtype q = TypeAAAA then
                    [RR_AAAA \<lparr>hName = qName q, hRrtype = TypeAAAA, hClass = ClassINET, hTtl = zTTL z\<rparr> []] else [])
               else if addr_v4 a \<noteq> [] then
                 (if qQtype q = TypeA then
                    [RR_A \<lparr>hName = qName q, hRrtype = TypeA, hClass = ClassINET, hTtl = zTTL z\<rparr> (addr_v4 a)] else [])
               else if qQtype q = TypeAAAA then
                 [RR_AAAA \<lparr>hName = qName q, hRrtype = TypeAAAA, hClass = ClassINET, hTtl = zTTL z\<rparr> (As16 a)]
               else [])))"
proof (cases "zonetable_Gateway (zZones z) d")
  case None
  with ServeDNS_independent [OF assms(4)] ServeDNS_cross [OF assms(4), of M] show ?thesis by simp
next
  case (Some a)
  obtain m where m: "wWritten (fst (snd (zonedns_ServeDNS L Q U z ctx w r M))) = wWritten w @ [m]" "mId m = mId r"
      "mQuestion m = [q]" "mRcode m = RcodeSuccess" "mNs m = []" "mAnswer m = gateway_answer (zTTL z) q a"
    using cross_gateway_answer [OF assms(1-4) Some, of M] assms(5) [OF Some] by blast
  have ok: "fst (zonedns_ServeDNS L Q U z ctx w r M) = (RcodeSuccess, None)"
    using ServeDNS_cross [OF assms(4), of M] Some by simp
  have "\<exists>m. wWritten (fst (snd (zonedns_ServeDNS L Q U z ctx w r M))) = wWritten w @ [m] \<and>
      mId m = mId r \<and> mRcode m = RcodeSuccess \<and> mQuestion m = [q] \<and> mNs m = [] \<and>
      mAnswer m = gateway_answer (zTTL z) q a"
    by (rule exI [of _ m]) (simp only: m simp_thms)
  moreover have "gateway_answer (zTTL z) q a = (if addr_zone a \<noteq> [] then
      (if qQtype q = TypeAAAA then
         [RR_AAAA \<lparr>hName = qName q, hRrtype = TypeAAAA, hClass = ClassINET, hTtl = zTTL z\<rparr> []] else [])
    else if addr_v4 a \<noteq> [] then
      (if qQtype q = TypeA then
         [RR_A \<lparr>hName = qName q, hRrtype = TypeA, hClass = ClassINET, hTtl = zTTL z\<rparr> (addr_v4 a)] else [])
    else if qQtype q = TypeAAAA then
      [RR_AAAA \<lparr>hName = qName q, hRrtype = TypeAAAA, hClass = ClassINET, hTtl = zTTL z\<rparr> (As16 a)]
    else [])"
    by (simp add: gateway_answer_def gateway_records_def)
  ultimately show ?thesis
    unfolding Some option.case using ok ServeDNS_independent [OF assms(4)] by (simp only: simp_thms)
qed

theorem ServeDNS_isolation_witness:
  "zonedns_ServeDNS dnslib_ref reqlib_ref demo_U
     ((demo_central (Addr4 10 0 0 9))\<lparr>zNext := (\<lambda>ctx w r. ((5, None), w))\<rparr>)
     demo_ctx demo_writer (demo_query TypeA) demo_metrics =
   zonedns_ServeDNS dnslib_ref reqlib_ref demo_U (demo_central (Addr4 10 0 0 9))
     demo_ctx demo_writer (demo_query TypeA) demo_metrics \<and>
   (\<exists>m. wWritten (fst (snd (zonedns_ServeDNS dnslib_ref reqlib_ref demo_U (demo_central (Addr4 10 0 0 9))
      demo_ctx demo_writer (demo_query TypeA) demo_metrics))) = [m] \<and> mId m = 7 \<and>
      mAnswer m = [RR_A \<lparr>hName = ''pay.io.'', hRrtype = TypeA, hClass = ClassINET, hTtl = 30\<rparr> [10, 0, 0, 9]])"
proof -
  have gw: "addr_ok a \<and> IsValid a" if "zonetable_Gateway (zZones (demo_central (Addr4 10 0 0 9))) ''zone-b'' = Some a" for a
    using that demo_gateway [of "Addr4 10 0 0 9"] by (auto simp: addr_ok_def IsValid_def)
  have vals: "wWritten demo_writer = []" "mId (demo_query TypeA) = 7" "zTTL (demo_central (Addr4 10 0 0 9)) = 30"
      "addr_zone (Addr4 10 0 0 9) = []" "addr_v4 (Addr4 10 0 0 9) = [10, 0, 0, 9]"
      "qName (demo_question TypeA) = ''pay.io.''" "qQtype (demo_question TypeA) = TypeA"
    by (simp_all add: demo_writer_def demo_query_def demo_central_def addr_zone_def addr_v4_def demo_question_def)
  note iso = ServeDNS_isolation [OF reply_laws_ref reqlib_laws_ref demo_mQuestion demo_cross_A gw,
      of "Addr4 10 0 0 9" "\<lambda>ctx w r. ((5, None), w)" demo_metrics, unfolded demo_gateway option.case]
  from iso obtain m where m: "wWritten (fst (snd (zonedns_ServeDNS dnslib_ref reqlib_ref demo_U
      (demo_central (Addr4 10 0 0 9)) demo_ctx demo_writer (demo_query TypeA) demo_metrics))) = wWritten demo_writer @ [m]"
      "mId m = mId (demo_query TypeA)"
      "mAnswer m = [RR_A \<lparr>hName = ''pay.io.'', hRrtype = TypeA, hClass = ClassINET, hTtl = 30\<rparr> [10, 0, 0, 9]]"
    unfolding vals by auto
  show ?thesis
  proof (intro conjI exI [of _ m])
    show "zonedns_ServeDNS dnslib_ref reqlib_ref demo_U
        ((demo_central (Addr4 10 0 0 9))\<lparr>zNext := (\<lambda>ctx w r. ((5, None), w))\<rparr>)
        demo_ctx demo_writer (demo_query TypeA) demo_metrics =
      zonedns_ServeDNS dnslib_ref reqlib_ref demo_U (demo_central (Addr4 10 0 0 9))
        demo_ctx demo_writer (demo_query TypeA) demo_metrics"
      using iso by blast
  qed (simp_all add: m vals)
qed



text \<open>
  Property C20. Everything else passes through untouched: a query of another type, from a
  peer that is not an authorized agent, without one well-formed declaration, for a name
  the registry does not resolve, or within one zone gets exactly what the next plugin does
  with the same context, writer and query.
\<close>

theorem ServeDNS_passthrough:
  assumes "zIdentity z = NewConfig agents code"
    and "\<not> address_query Q r \<or> \<not> authorized_peer agents ctx w \<or>
         ednszone_Get L r code = None \<or> Store_Lookup U (zRegistry z) (reqName Q r) = None \<or>
         ednszone_Get L r code = Store_Lookup U (zRegistry z) (reqName Q r)"
  shows "fst (zonedns_ServeDNS L Q U z ctx w r M) = fst (zNext z ctx w r) \<and>
         fst (snd (zonedns_ServeDNS L Q U z ctx w r M)) = snd (zNext z ctx w r)"
proof (rule ServeDNS_pass)
  show "\<nexists>s d. cross_zone L Q U z ctx w r s d"
    using assms by (auto simp: cross_zone_def SourceZone_OK_iff)
qed

theorem ServeDNS_passthrough_witness:
  "fst (zonedns_ServeDNS dnslib_ref reqlib_ref demo_U (demo_central (Addr4 10 0 0 9))
      \<lparr>ctxHTTP = None\<rparr> demo_writer (demo_query TypeA) demo_metrics) = (RcodeSuccess, None) \<and>
   wWritten (fst (snd (zonedns_ServeDNS dnslib_ref reqlib_ref demo_U (demo_central (Addr4 10 0 0 9))
      \<lparr>ctxHTTP = None\<rparr> demo_writer (demo_query TypeA) demo_metrics))) = [new_msg]"
proof -
  have un: "\<not> authorized_peer [''spiffe://d/agent''] \<lparr>ctxHTTP = None\<rparr> demo_writer"
    by (simp add: authorized_peer_def peer_id_def PeerCertificates_def demo_writer_def)
  show ?thesis
    using ServeDNS_passthrough [of "demo_central (Addr4 10 0 0 9)" "[''spiffe://d/agent'']" 65001
        reqlib_ref "demo_query TypeA" "\<lparr>ctxHTTP = None\<rparr>" demo_writer dnslib_ref demo_U demo_metrics] un
    by (simp add: demo_central_def demo_writer_def)
qed

text \<open>
  Every address query is counted once under the verdict of the trust boundary
  and once under the action taken, so that a peer whose certificate is not an authorized
  agent's always raises the \<open>unauthorized_agent\<close> alert, and a missing gateway always
  raises \<open>servfail\<close>; other queries are not counted.
\<close>

theorem ServeDNS_counts:
  assumes "zIdentity z = NewConfig agents code" and "address_query Q r"
  shows "sourceZoneTotal (snd (snd (zonedns_ServeDNS L Q U z ctx w r M))) l =
           sourceZoneTotal M l + (if l = Reason_String (snd (SourceZone L (zIdentity z) ctx w r)) then 1 else 0) \<and>
         (\<exists>act. (\<forall>l. decisionTotal (snd (snd (zonedns_ServeDNS L Q U z ctx w r M))) l =
             decisionTotal M l + (if l = Action_String act then 1 else 0)) \<and>
           (act = ActionServFail \<longleftrightarrow>
              (\<exists>s d. cross_zone L Q U z ctx w r s d \<and> zonetable_Gateway (zZones z) d = None)) \<and>
           (act = ActionAnswerGateway \<longleftrightarrow>
              (\<exists>s d. cross_zone L Q U z ctx w r s d \<and> zonetable_Gateway (zZones z) d \<noteq> None))) \<and>
         (PeerCertificates ctx w \<noteq> None \<longrightarrow> \<not> authorized_peer agents ctx w \<longrightarrow>
           sourceZoneTotal (snd (snd (zonedns_ServeDNS L Q U z ctx w r M))) ''unauthorized_agent'' =
             sourceZoneTotal M ''unauthorized_agent'' + 1)"
proof (intro conjI impI)
  let ?d = "Store_Lookup U (zRegistry z) (reqName Q r)"
  obtain zone reason where sz: "SourceZone L (zIdentity z) ctx w r = (zone, reason)" by fastforce
  let ?inp = "\<lparr>iSourceZone = zone, iSourceOK = (reason = ReasonOK),
     iDestZone = (case ?d of None \<Rightarrow> [] | Some dz \<Rightarrow> dz), iDestOK = (?d \<noteq> None)\<rparr>"
  let ?act = "dAction (Decide ?inp (zonetable_Gateway (zZones z)))"
  show "sourceZoneTotal (snd (snd (zonedns_ServeDNS L Q U z ctx w r M))) l =
      sourceZoneTotal M l + (if l = Reason_String (snd (SourceZone L (zIdentity z) ctx w r)) then 1 else 0)"
    using assms(2) by (simp add: ServeDNS_metrics inc_decision_def inc_sourceZone_def)
  have servfail: "?act = ActionServFail \<longleftrightarrow>
      (\<exists>s d. cross_zone L Q U z ctx w r s d \<and> zonetable_Gateway (zZones z) d = None)"
    using assms(2) sz by (auto simp: Decide_servfail_iff cross_zone_def split: option.splits)
  have gateway: "?act = ActionAnswerGateway \<longleftrightarrow>
      (\<exists>s d. cross_zone L Q U z ctx w r s d \<and> zonetable_Gateway (zZones z) d \<noteq> None)"
    using assms(2) sz by (auto simp: Decide_gateway_iff cross_zone_def split: option.splits)
  show "\<exists>act. (\<forall>l. decisionTotal (snd (snd (zonedns_ServeDNS L Q U z ctx w r M))) l =
          decisionTotal M l + (if l = Action_String act then 1 else 0)) \<and>
        (act = ActionServFail \<longleftrightarrow>
           (\<exists>s d. cross_zone L Q U z ctx w r s d \<and> zonetable_Gateway (zZones z) d = None)) \<and>
        (act = ActionAnswerGateway \<longleftrightarrow>
           (\<exists>s d. cross_zone L Q U z ctx w r s d \<and> zonetable_Gateway (zZones z) d \<noteq> None))"
    using assms(2) sz servfail gateway
    by (intro exI [of _ ?act]) (auto simp: ServeDNS_metrics inc_decision_def inc_sourceZone_def)
  assume "PeerCertificates ctx w \<noteq> None" and "\<not> authorized_peer agents ctx w"
  then show "sourceZoneTotal (snd (snd (zonedns_ServeDNS L Q U z ctx w r M))) ''unauthorized_agent'' =
      sourceZoneTotal M ''unauthorized_agent'' + 1"
    using assms by (simp add: ServeDNS_metrics inc_decision_def inc_sourceZone_def SourceZone_unauthorized)
qed

theorem ServeDNS_counts_witness:
  "sourceZoneTotal (snd (snd (zonedns_ServeDNS dnslib_ref reqlib_ref demo_U (demo_central (Addr4 10 0 0 9))
      demo_ctx demo_writer (demo_query TypeA) demo_metrics))) ''ok'' = 1"
proof -
  have ident: "zIdentity (demo_central (Addr4 10 0 0 9)) = NewConfig [''spiffe://d/agent''] 65001"
    by (simp add: demo_central_def)
  have addr: "address_query reqlib_ref (demo_query TypeA)" by code_simp
  have ok: "Reason_String (snd (SourceZone dnslib_ref (zIdentity (demo_central (Addr4 10 0 0 9)))
      demo_ctx demo_writer (demo_query TypeA))) = ''ok''" by code_simp
  show ?thesis
    using ServeDNS_counts [OF ident addr, of dnslib_ref demo_U demo_ctx demo_writer demo_metrics "''ok''"]
    by (simp add: ok) (simp add: demo_metrics_def)
qed

text \<open>
  Property C38. A gateway configured as a scoped IPv6 address (\<open>fe80::1%eth0\<close>), which the
  configuration accepts, is lost on the way through its text form: \<open>net.ParseIP\<close> returns
  nil for it, and a cross-zone AAAA query is answered with success and an AAAA record that
  carries no address at all.
\<close>

theorem ServeDNS_scoped_gateway:
  assumes "reply_laws L" and "reqlib_laws Q" and "mQuestion r = q # qs" and "qQtype q = TypeAAAA"
    and "cross_zone L Q U z ctx w r s d"
    and "zonetable_Gateway (zZones z) d = Some (Addr6 gs zn)" and "zn \<noteq> []"
  shows "\<exists>m. wWritten (fst (snd (zonedns_ServeDNS L Q U z ctx w r M))) = wWritten w @ [m] \<and>
     mRcode m = RcodeSuccess \<and>
     mAnswer m = [RR_AAAA \<lparr>hName = qName q, hRrtype = TypeAAAA, hClass = ClassINET, hTtl = zTTL z\<rparr> []]"
  using answerGateway_frame [OF assms(1-3), of z w "addr_String (Addr6 gs zn)"]
    ServeDNS_cross [OF assms(5), of M] assms(4,6) ParseIP_scoped_gateway [OF assms(7), of gs]
  by (auto simp: To4_def To16_def TypeA_def TypeAAAA_def)

theorem ServeDNS_scoped_gateway_witness:
  "ParseAddr (addr_String (Addr6 [0xFE80, 0, 0, 0, 0, 0, 0, 1] ''eth0'')) =
     Some (Addr6 [0xFE80, 0, 0, 0, 0, 0, 0, 1] ''eth0'') \<and>
   (\<exists>m. wWritten (fst (snd (zonedns_ServeDNS dnslib_ref reqlib_ref demo_U
       (demo_central (Addr6 [0xFE80, 0, 0, 0, 0, 0, 0, 1] ''eth0''))
       demo_ctx demo_writer (demo_query TypeAAAA) demo_metrics))) = [m] \<and>
     mAnswer m = [RR_AAAA \<lparr>hName = ''pay.io.'', hRrtype = TypeAAAA, hClass = ClassINET, hTtl = 30\<rparr> []])"
proof
  show "ParseAddr (addr_String (Addr6 [0xFE80, 0, 0, 0, 0, 0, 0, 1] ''eth0'')) =
     Some (Addr6 [0xFE80, 0, 0, 0, 0, 0, 0, 1] ''eth0'')"
    by (rule ParseAddr_String) (simp_all add: addr_ok_def IsValid_def)
  show "\<exists>m. wWritten (fst (snd (zonedns_ServeDNS dnslib_ref reqlib_ref demo_U
       (demo_central (Addr6 [0xFE80, 0, 0, 0, 0, 0, 0, 1] ''eth0''))
       demo_ctx demo_writer (demo_query TypeAAAA) demo_metrics))) = [m] \<and>
     mAnswer m = [RR_AAAA \<lparr>hName = ''pay.io.'', hRrtype = TypeAAAA, hClass = ClassINET, hTtl = 30\<rparr> []]"
    using ServeDNS_scoped_gateway [OF reply_laws_ref reqlib_laws_ref demo_mQuestion _ demo_cross_AAAA
        demo_gateway, of "''eth0''" "[0xFE80, 0, 0, 0, 0, 0, 0, 1]" demo_metrics]
    by (auto simp: demo_writer_def demo_question_def demo_central_def)
qed

end
