(* ===== verification/Poller.thy ===== *)
theory Poller
  imports Registry
begin

text \<open>
  Package \<open>internal/registry\<close>, file \<open>spire.go\<close>: listing the registration entries page by
  page, polling them into the store, and the polling loop.

  The SPIRE client is code outside this repository: \<open>spireLister_ListEntries\<close> takes the
  RPC as an argument, and the poller takes any lister. A lister may answer differently
  every time, so it is a function of a state it also returns. The context is part of that
  state: a cancelled context shows as an error of the call.
\<close>

section \<open>The SPIRE lister\<close>

record entry_mask =
  maskSpiffeId :: bool
  maskDnsNames :: bool

record list_request =
  lrPageSize :: int
  lrPageToken :: string
  lrOutputMask :: entry_mask

text \<open>An entry on the wire: the path of its SPIFFE ID (a nil ID is \<^const>\<open>None\<close>) and its DNS names.\<close>

record spire_entry =
  seSpiffeId :: "string option"
  seDnsNames :: "string list"

record list_response =
  lrEntries :: "spire_entry list"
  lrNextPageToken :: string

definition pageSize :: int where
  "pageSize = 500"

definition maxPollPages :: nat where
  "maxPollPages = 10000"

fun entries_of :: "spire_entry list \<Rightarrow> Entry list" where
  "entries_of [] = []"
| "entries_of (e # es) =
     (case seSpiffeId e of
        None \<Rightarrow> entries_of es
      | Some path \<Rightarrow> \<lparr>eSPIFFEIDPath = path, eDNSNames = seDnsNames e\<rparr> # entries_of es)"

type_synonym ('s, 'e) lister = "'s \<Rightarrow> string \<Rightarrow> ('e + Entry list \<times> string) \<times> 's"

definition spireLister_ListEntries ::
  "('s \<Rightarrow> list_request \<Rightarrow> ('e + list_response) \<times> 's) \<Rightarrow> ('s, 'e) lister" where
  "spireLister_ListEntries rpc s pageToken =
     (case rpc s \<lparr>lrPageSize = pageSize, lrPageToken = pageToken,
                  lrOutputMask = \<lparr>maskSpiffeId = True, maskDnsNames = True\<rparr>\<rparr> of
        (Inl err, s') \<Rightarrow> (Inl err, s')
      | (Inr resp, s') \<Rightarrow> (Inr (entries_of (lrEntries resp), lrNextPageToken resp), s'))"

section \<open>Polling\<close>

datatype 'e poll_error = ErrTooManyPages | ErrTokenTwice string | ErrList 'e

text \<open>The pagination loop of \<open>PollOnce\<close>.\<close>

function poll_pages ::
  "('s, 'e) lister \<Rightarrow> nat \<Rightarrow> (string, unit) gomap \<Rightarrow> string \<Rightarrow> Entry list \<Rightarrow> 's \<Rightarrow>
     ('e poll_error + Entry list) \<times> 's" where
  "poll_pages list pages seenTokens token all s =
     (if pages \<ge> maxPollPages then (Inl ErrTooManyPages, s)
      else if token \<noteq> [] \<and> gm_get seenTokens token \<noteq> None then (Inl (ErrTokenTwice token), s)
      else
        let seen' = (if token \<noteq> [] then gm_put seenTokens token () else seenTokens) in
        (case list s token of
           (Inl err, s') \<Rightarrow> (Inl (ErrList err), s')
         | (Inr (page, nxt), s') \<Rightarrow>
             if nxt = [] then (Inr (all @ page), s')
             else poll_pages list (Suc pages) seen' nxt (all @ page) s'))"
  by pat_completeness auto
termination
  by (relation "measure (\<lambda>(list, pages, seen, token, all, s). maxPollPages - pages)") auto

declare poll_pages.simps [simp del]

definition PollOnce ::
  "unicode \<Rightarrow> ('s, 'e) lister \<Rightarrow> Store \<Rightarrow> 's \<Rightarrow> ('e poll_error + Stats) \<times> Store \<times> 's" where
  "PollOnce U list store s =
     (case poll_pages list 0 gm_empty [] [] s of
        (Inl err, s') \<Rightarrow> (Inl err, store, s')
      | (Inr all, s') \<Rightarrow>
          (let (snap, stats) = BuildSnapshot U all in (Inr stats, Replace store snap, s')))"

text \<open>
  \<open>Poller\<close>: its store, its consecutive failures (an \<open>atomic.Int64\<close>, read with \<^const>\<open>sint\<close>;
  its \<open>Add\<close> wraps around), and the two optional callbacks, which act on the state \<open>'g\<close> of
  whoever installed them.
\<close>

record ('s, 'g) poller =
  pStore :: Store
  pErrors :: u64
  pSink :: 'g
  pLister :: 's

record 'g callbacks =
  OnSnapshot :: "(Stats \<Rightarrow> 'g \<Rightarrow> 'g) option"
  OnPollErrors :: "(u64 \<Rightarrow> 'g \<Rightarrow> 'g) option"

definition ConsecutivePollErrors :: "('s, 'g) poller \<Rightarrow> u64" where
  "ConsecutivePollErrors p = pErrors p"

text \<open>One iteration of \<open>Run\<close>, up to its \<open>select\<close>.\<close>

definition run_poll :: "unicode \<Rightarrow> ('s, 'e) lister \<Rightarrow> 'g callbacks \<Rightarrow> ('s, 'g) poller \<Rightarrow> ('s, 'g) poller" where
  "run_poll U list cb p =
     (let (res, store, s) = PollOnce U list (pStore p) (pLister p);
          (errs, g) =
            (case res of
               Inl _ \<Rightarrow> (pErrors p + 1, pSink p)
             | Inr stats \<Rightarrow>
                 (0, case OnSnapshot cb of None \<Rightarrow> pSink p | Some f \<Rightarrow> f stats (pSink p)));
          g' = (case OnPollErrors cb of None \<Rightarrow> g | Some f \<Rightarrow> f errs g)
      in \<lparr>pStore = store, pErrors = errs, pSink = g', pLister = s\<rparr>)"

text \<open>
  \<open>Run\<close> polls at once, then once for every tick that is delivered before the context is
  done: \<open>n\<close> is that number of ticks.
\<close>

fun Run :: "unicode \<Rightarrow> ('s, 'e) lister \<Rightarrow> 'g callbacks \<Rightarrow> nat \<Rightarrow> ('s, 'g) poller \<Rightarrow> ('s, 'g) poller" where
  "Run U list cb 0 p = run_poll U list cb p"
| "Run U list cb (Suc n) p = Run U list cb n (run_poll U list cb p)"

section \<open>Facts\<close>

lemma entries_of_map:
  "entries_of es =
     map (\<lambda>e. \<lparr>eSPIFFEIDPath = the (seSpiffeId e), eDNSNames = seDnsNames e\<rparr>)
       (filter (\<lambda>e. seSpiffeId e \<noteq> None) es)"
  by (induction es) (auto split: option.splits)

text \<open>The five ways one turn of the pagination loop goes.\<close>

lemma poll_pages_cases [case_names limit twice failed last more]:
  obtains
    "pages \<ge> maxPollPages" "poll_pages list pages seen token all s = (Inl ErrTooManyPages, s)"
  | "pages < maxPollPages" "token \<noteq> []" "gm_get seen token \<noteq> None"
    "poll_pages list pages seen token all s = (Inl (ErrTokenTwice token), s)"
  | err s' where "pages < maxPollPages" "token = [] \<or> gm_get seen token = None"
    "list s token = (Inl err, s')" "poll_pages list pages seen token all s = (Inl (ErrList err), s')"
  | page s' where "pages < maxPollPages" "token = [] \<or> gm_get seen token = None"
    "list s token = (Inr (page, []), s')" "poll_pages list pages seen token all s = (Inr (all @ page), s')"
  | page nxt s' where "pages < maxPollPages" "token = [] \<or> gm_get seen token = None"
    "list s token = (Inr (page, nxt), s')" "nxt \<noteq> []"
    "poll_pages list pages seen token all s =
       poll_pages list (Suc pages) (if token = [] then seen else gm_put seen token ()) nxt (all @ page) s'"
proof -
  note un = poll_pages.simps [of list pages seen token all s]
  obtain r s' where c: "list s token = (r, s')" by fastforce
  show thesis
  proof (cases "pages \<ge> maxPollPages")
    case True
    show ?thesis by (rule that(1)) (simp_all add: un True)
  next
    case le: False
    show ?thesis
    proof (cases "token \<noteq> [] \<and> gm_get seen token \<noteq> None")
      case True
      show ?thesis by (rule that(2)) (use True le in \<open>simp_all add: un\<close>)
    next
      case fresh: False
      then have fresh': "token = [] \<or> gm_get seen token = None" by blast
      show ?thesis
      proof (cases r)
        case (Inl err)
        show ?thesis by (rule that(3) [of err s']) (use le fresh fresh' c Inl in \<open>simp_all add: un\<close>)
      next
        case (Inr pn)
        obtain page nxt where pn: "pn = (page, nxt)" by fastforce
        show ?thesis
        proof (cases "nxt = []")
          case True
          show ?thesis
            by (rule that(4) [of page s']) (use True le fresh fresh' c Inr pn in \<open>simp_all add: un\<close>)
        next
          case False
          show ?thesis
            by (rule that(5) [of page nxt s'])
              (use False le fresh fresh' c Inr pn in \<open>auto simp: un Let_def\<close>)
        qed
      qed
    qed
  qed
qed

text \<open>Which page tokens a poll asks for: the lister with a log of its calls.\<close>

definition logged :: "('s, 'e) lister \<Rightarrow> ('s \<times> string list, 'e) lister" where
  "logged list sl token = (let (r, s') = list (fst sl) token in (r, (s', snd sl @ [token])))"

lemma logged_eq: "logged list (s, log) token = (r, sl') \<Longrightarrow> snd sl' = log @ [token]"
  by (auto simp: logged_def split: prod.splits)

lemma poll_pages_logged:
  assumes "\<forall>t. gm_get seen t \<noteq> None \<longleftrightarrow> t \<noteq> [] \<and> t \<in> set log"
    and "distinct log" and "length log = pages" and "pages \<le> maxPollPages"
    and "token = [] \<Longrightarrow> log = []"
  shows "distinct (snd (snd (poll_pages (logged list) pages seen token all (s, log)))) \<and>
         length (snd (snd (poll_pages (logged list) pages seen token all (s, log)))) \<le> maxPollPages"
  using assms
proof (induction "maxPollPages - pages" arbitrary: pages seen token all s log rule: less_induct)
  case less
  have new: "token \<notin> set log" if "token = [] \<or> gm_get seen token = None"
  proof (cases "token = []")
    case True
    with less.prems(5) show ?thesis by simp
  next
    case False
    with that less.prems(1) show ?thesis by blast
  qed
  show ?case
  proof (cases rule: poll_pages_cases [of pages "logged list" seen token all "(s, log)"])
    case limit
    with less.prems show ?thesis by simp
  next
    case twice
    with less.prems show ?thesis by simp
  next
    case (failed err s')
    with less.prems new logged_eq [OF failed(3)] show ?thesis by simp
  next
    case (last page s')
    with less.prems new logged_eq [OF last(3)] show ?thesis by simp
  next
    case (more page nxt s')
    obtain s1 where s': "s' = (s1, log @ [token])"
      using logged_eq [OF more(3)] by (cases s') auto
    let ?seen = "if token = [] then seen else gm_put seen token ()"
    have "\<forall>t. gm_get ?seen t \<noteq> None \<longleftrightarrow> t \<noteq> [] \<and> t \<in> set (log @ [token])"
      using less.prems(1) by auto
    then show ?thesis
      using less.hyps [of "Suc pages" ?seen "log @ [token]" nxt "all @ page" s1] less.prems more new
      unfolding more(5) s' by simp
  qed
qed


text \<open>
  A server that pages correctly: a list of pages with their tokens, the empty token first;
  a page comes with the token of the one after it.
\<close>

fun paged_server :: "(string \<times> Entry list) list \<Rightarrow> (unit, unit) lister" where
  "paged_server [] s token = (Inl (), s)"
| "paged_server ((t, page) # ps) s token =
     (if t = token then (Inr (page, case ps of [] \<Rightarrow> [] | (t', _) # _ \<Rightarrow> t'), s)
      else paged_server ps s token)"

lemma paged_server_at:
  "t \<notin> fst ` set pre \<Longrightarrow>
     paged_server (pre @ (t, page) # post) s t =
       (Inr (page, case post of [] \<Rightarrow> [] | (t', _) # _ \<Rightarrow> t'), s)"
  by (induction pre) auto

lemma poll_pages_server:
  assumes "distinct (map fst (pre @ (t, page) # post))" and "[] \<notin> fst ` set post"
    and "length pre + Suc (length post) \<le> maxPollPages"
    and "\<forall>x. gm_get seen x \<noteq> None \<longrightarrow> x \<in> fst ` set pre"
  shows "poll_pages (paged_server (pre @ (t, page) # post)) (length pre) seen t all () =
           (Inr (all @ page @ concat (map snd post)), ())"
  using assms
proof (induction post arbitrary: pre t page seen all)
  case Nil
  have "gm_get seen t = None" using Nil.prems(1,4) by auto
  moreover have "paged_server (pre @ [(t, page)]) () t = (Inr (page, []), ())"
    using paged_server_at [of t pre page "[]" "()"] Nil.prems(1) by simp
  ultimately show ?case using Nil.prems(3) by (simp add: poll_pages.simps)
next
  case (Cons tp post)
  obtain t' page' where tp: "tp = (t', page')" by fastforce
  let ?ps = "pre @ (t, page) # tp # post"
  let ?seen = "if t \<noteq> [] then gm_put seen t () else seen"
  have "gm_get seen t = None" using Cons.prems(1,4) by auto
  moreover have "paged_server ?ps () t = (Inr (page, t'), ())"
    using paged_server_at [of t pre page "tp # post" "()"] Cons.prems(1) by (simp add: tp)
  moreover have "t' \<noteq> []" using Cons.prems(2) by (auto simp: tp)
  ultimately have "poll_pages (paged_server ?ps) (length pre) seen t all () =
      poll_pages (paged_server ?ps) (Suc (length pre)) ?seen t' (all @ page) ()"
    using Cons.prems(3) by (simp add: poll_pages.simps [of _ "length pre"])
  also have "\<dots> = (Inr ((all @ page) @ page' @ concat (map snd post)), ())"
    using Cons.IH [of "pre @ [(t, page)]" t' page' ?seen "all @ page"] Cons.prems
    by (auto simp: tp)
  finally show ?case by (simp add: tp)
qed

lemma PollOnce_error_store: "PollOnce U list store s = (Inl e, store', s') \<Longrightarrow> store' = store"
  by (auto simp: PollOnce_def Let_def split: prod.splits sum.splits)

lemma PollOnce_ok_store:
  "PollOnce U list store s = (Inr stats, store', s') \<Longrightarrow>
     \<exists>es. poll_pages list 0 gm_empty [] [] s = (Inr es, s') \<and>
          BuildSnapshot U es = (the (stCur store'), stats) \<and> store' = Replace store (fst (BuildSnapshot U es))"
  by (auto simp: PollOnce_def Let_def split: prod.splits sum.splits)

text \<open>The outcomes (true for a failure) of the polls of a run, in order.\<close>

fun poll_failures :: "unicode \<Rightarrow> ('s, 'e) lister \<Rightarrow> 'g callbacks \<Rightarrow> nat \<Rightarrow> ('s, 'g) poller \<Rightarrow> bool list" where
  "poll_failures U list cb 0 p = [isl (fst (PollOnce U list (pStore p) (pLister p)))]"
| "poll_failures U list cb (Suc n) p =
     isl (fst (PollOnce U list (pStore p) (pLister p))) # poll_failures U list cb n (run_poll U list cb p)"

lemma run_poll_errors:
  "pErrors (run_poll U list cb p) =
     (if isl (fst (PollOnce U list (pStore p) (pLister p))) then pErrors p + 1 else 0)"
  by (auto simp: run_poll_def Let_def split: prod.splits sum.splits)

lemma run_poll_store:
  "pStore (run_poll U list cb p) = fst (snd (PollOnce U list (pStore p) (pLister p)))"
  by (auto simp: run_poll_def Let_def split: prod.splits sum.splits)

lemma Run_errors:
  "pErrors (Run U list cb n p) =
     of_nat (length (takeWhile (\<lambda>x. x) (rev (poll_failures U list cb n p)))) +
       (if list_all (\<lambda>x. x) (poll_failures U list cb n p) then pErrors p else 0)"
proof (induction n arbitrary: p)
  case 0
  then show ?case by (simp add: run_poll_errors)
next
  case (Suc n)
  have tw: "takeWhile (\<lambda>x. x) (xs @ [x]) = (if list_all (\<lambda>x. x) xs then xs @ (if x then [x] else []) else takeWhile (\<lambda>x. x) xs)"
    for xs :: "bool list" and x
    by (induction xs) auto
  have full: "length (takeWhile (\<lambda>x. x) (rev xs)) = length xs" if "list_all (\<lambda>x. x) xs" for xs :: "bool list"
    using that by (simp add: list_all_iff takeWhile_eq_all_conv [THEN iffD2])
  have rev_all: "list_all (\<lambda>x. x) (rev xs) = list_all (\<lambda>x. x) xs" for xs :: "bool list"
    by (simp add: list_all_iff)
  show ?case
    by (auto simp: Suc.IH tw rev_all run_poll_errors full)
qed

section \<open>Properties\<close>

text \<open>
  Property C18. A poll of a server that pages correctly (up to the page limit) succeeds, and
  what it installs is the snapshot of all entries of all pages, in order.
\<close>

theorem PollOnce_complete:
  assumes "distinct (map fst (([], page) # pages))" and "length pages < 10000"
  shows "PollOnce U (paged_server (([], page) # pages)) store () =
     (Inr (snd (BuildSnapshot U (page @ concat (map snd pages)))),
      Replace store (fst (BuildSnapshot U (page @ concat (map snd pages)))), ())"
proof -
  have "poll_pages (paged_server (([], page) # pages)) 0 gm_empty [] [] () =
      (Inr (page @ concat (map snd pages)), ())"
    using poll_pages_server [of "[]" "[]" page pages gm_empty "[]"] assms
    by (simp add: maxPollPages_def)
  then show ?thesis by (simp add: PollOnce_def split: prod.splits)
qed

theorem PollOnce_complete_witness:
  "PollOnce \<lparr>uniLower = id, uniFold = (=)\<rparr>
     (paged_server [([], [\<lparr>eSPIFFEIDPath = ''/zone/a/x'', eDNSNames = [''a.io'']\<rparr>]),
        (''t1'', [\<lparr>eSPIFFEIDPath = ''/zone/b/y'', eDNSNames = [''b.io'']\<rparr>])]) NewStore () =
   (Inr (snd (BuildSnapshot \<lparr>uniLower = id, uniFold = (=)\<rparr>
      [\<lparr>eSPIFFEIDPath = ''/zone/a/x'', eDNSNames = [''a.io'']\<rparr>,
       \<lparr>eSPIFFEIDPath = ''/zone/b/y'', eDNSNames = [''b.io'']\<rparr>])),
    Replace NewStore (fst (BuildSnapshot \<lparr>uniLower = id, uniFold = (=)\<rparr>
      [\<lparr>eSPIFFEIDPath = ''/zone/a/x'', eDNSNames = [''a.io'']\<rparr>,
       \<lparr>eSPIFFEIDPath = ''/zone/b/y'', eDNSNames = [''b.io'']\<rparr>])), ())"
  using PollOnce_complete [of "[\<lparr>eSPIFFEIDPath = ''/zone/a/x'', eDNSNames = [''a.io'']\<rparr>]"
      "[(''t1'', [\<lparr>eSPIFFEIDPath = ''/zone/b/y'', eDNSNames = [''b.io'']\<rparr>])]"
      "\<lparr>uniLower = id, uniFold = (=)\<rparr>" NewStore]
  by simp

text \<open>
  Property C19. Polling is bounded, whatever the server does: a poll never asks for the same
  page twice and asks for at most 10000 pages, and a server that always promises a further
  page makes it fail (keeping the old snapshot) instead of running forever.
\<close>

theorem PollOnce_bounded:
  "distinct (snd (snd (snd (PollOnce U (logged list) store (s, []))))) \<and>
   length (snd (snd (snd (PollOnce U (logged list) store (s, []))))) \<le> 10000 \<and>
   ((\<forall>s token. \<exists>page nxt s'. list s token = (Inr (page, nxt), s') \<and> nxt \<noteq> []) \<longrightarrow>
      isl (fst (PollOnce U list store s)) \<and> fst (snd (PollOnce U list store s)) = store)"
proof -
  have log: "snd (snd (snd (PollOnce U (logged list) store (s, [])))) =
      snd (snd (poll_pages (logged list) 0 gm_empty [] [] (s, [])))"
    by (simp add: PollOnce_def split: prod.splits sum.splits)
  have "isl (fst (poll_pages list pages seen token all s))"
    if endless: "\<forall>s token. \<exists>page nxt s'. list s token = (Inr (page, nxt), s') \<and> nxt \<noteq> []"
    for pages seen token all s
  proof (induction "maxPollPages - pages" arbitrary: pages seen token all s rule: less_induct)
    case less
    show ?case
    proof (cases rule: poll_pages_cases [of pages list seen token all s])
      case (last page s')
      with endless show ?thesis by (metis (no_types) prod.inject sum.inject(2))
    next
      case (more page nxt s')
      with less show ?thesis by simp
    qed simp_all
  qed
  then have "isl (fst (PollOnce U list store s)) \<and> fst (snd (PollOnce U list store s)) = store"
    if "\<forall>s token. \<exists>page nxt s'. list s token = (Inr (page, nxt), s') \<and> nxt \<noteq> []"
    using that by (auto simp: PollOnce_def isl_def split: prod.splits sum.splits) (metis fst_conv sum.distinct(1))
  then show ?thesis
    using poll_pages_logged [of gm_empty "[]" 0 "[]" list "[]" s] log by (simp add: maxPollPages_def)
qed

theorem PollOnce_bounded_witness:
  "isl (fst (PollOnce \<lparr>uniLower = id, uniFold = (=)\<rparr>
     (\<lambda>s token. (Inr ([], ''again'') :: unit + Entry list \<times> string, s)) NewStore ()))"
  using PollOnce_bounded [of "\<lparr>uniLower = id, uniFold = (=)\<rparr>"
      "\<lambda>s token. (Inr ([], ''again'') :: unit + Entry list \<times> string, s)" NewStore "()"]
  by simp

lemma length_poll_failures [simp]: "length (poll_failures U list cb n p) = Suc n"
  by (induction n arbitrary: p) simp_all

lemma sint_of_nat_small: "k < 2 ^ 63 \<Longrightarrow> sint (of_nat k :: u64) = int k"
  by (simp add: signed_of_nat signed_take_bit_int_eq_self)

text \<open>
  Property C36. The failure counter of the polling loop is the number of consecutive failures
  up to now: after a run it is, modulo \<open>2\<^sup>6\<^sup>4\<close>, the length of the unbroken series of failed polls
  at its end, on top of the earlier ones if no poll of the run succeeded. Read as the signed
  number it is, the counter of a poller that started at zero is exactly that length, and zero
  only if the last poll succeeded, as long as there were fewer than \<open>2\<^sup>6\<^sup>3\<close> polls; a longer
  series wraps around to a negative number.
\<close>

theorem Run_consecutive_errors:
  "ConsecutivePollErrors (Run U list cb n p) =
     of_nat (length (takeWhile (\<lambda>x. x) (rev (poll_failures U list cb n p)))) +
       (if list_all (\<lambda>x. x) (poll_failures U list cb n p) then ConsecutivePollErrors p else 0) \<and>
   (ConsecutivePollErrors p = 0 \<and> Suc n < 2 ^ 63 \<longrightarrow>
      sint (ConsecutivePollErrors (Run U list cb n p)) =
        int (length (takeWhile (\<lambda>x. x) (rev (poll_failures U list cb n p)))) \<and>
      (ConsecutivePollErrors (Run U list cb n p) = 0 \<longleftrightarrow> \<not> last (poll_failures U list cb n p)))"
proof -
  let ?fs = "poll_failures U list cb n p"
  let ?k = "length (takeWhile (\<lambda>x. x) (rev ?fs))"
  have k: "?k \<le> Suc n" using length_takeWhile_le [of "\<lambda>x. x" "rev ?fs"] by simp
  have zero: "?k = 0 \<longleftrightarrow> \<not> last ?fs"
    using length_poll_failures [of U list cb n p] by (cases ?fs rule: rev_cases) auto
  have count: "ConsecutivePollErrors (Run U list cb n p) =
      of_nat ?k + (if list_all (\<lambda>x. x) ?fs then ConsecutivePollErrors p else 0)"
    by (simp only: ConsecutivePollErrors_def Run_errors)
  have "sint (ConsecutivePollErrors (Run U list cb n p)) = int ?k \<and>
      (ConsecutivePollErrors (Run U list cb n p) = 0 \<longleftrightarrow> \<not> last ?fs)"
    if start: "ConsecutivePollErrors p = 0" and few: "Suc n < 2 ^ 63"
  proof -
    have eq: "ConsecutivePollErrors (Run U list cb n p) = of_nat ?k" unfolding count start by simp
    have s: "sint (of_nat ?k :: u64) = int ?k" by (rule sint_of_nat_small [OF le_less_trans [OF k few]])
    have "(of_nat ?k :: u64) = 0 \<longleftrightarrow> ?k = 0"
    proof
      assume "(of_nat ?k :: u64) = 0"
      then have "int ?k = sint (0 :: u64)" unfolding s [symmetric] by (rule arg_cong)
      then show "?k = 0" unfolding signed_0 by (simp only: of_nat_eq_0_iff)
    next
      assume "?k = 0"
      then show "(of_nat ?k :: u64) = 0" by simp
    qed
    then show ?thesis unfolding eq s zero by (rule conjI [OF refl])
  qed
  with count show ?thesis by blast
qed

theorem Run_consecutive_errors_witness:
  "sint (ConsecutivePollErrors (Run \<lparr>uniLower = id, uniFold = (=)\<rparr> (\<lambda>s token. (Inl (), s) :: (unit + Entry list \<times> string) \<times> unit)
     \<lparr>OnSnapshot = None, OnPollErrors = None\<rparr> 2 \<lparr>pStore = NewStore, pErrors = 0, pSink = (), pLister = ()\<rparr>)) = 3"
proof -
  let ?U = "\<lparr>uniLower = id, uniFold = (=)\<rparr>" and ?l = "\<lambda>s token. (Inl (), s) :: (unit + Entry list \<times> string) \<times> unit"
    and ?cb = "\<lparr>OnSnapshot = None, OnPollErrors = None\<rparr> :: unit callbacks"
    and ?p = "\<lparr>pStore = NewStore, pErrors = 0, pSink = (), pLister = ()\<rparr>"
  have "poll_failures ?U ?l ?cb 2 ?p = [True, True, True]"
    by (simp add: numeral_2_eq_2 PollOnce_def poll_pages.simps maxPollPages_def run_poll_def)
  then show ?thesis
    using Run_consecutive_errors [of ?U ?l ?cb 2 ?p] by (simp add: ConsecutivePollErrors_def)
qed

end
