(* ===== verification/Central_Setup.thy ===== *)
theory Central_Setup
  imports Corefile Central Poller
begin

text \<open>
  Package \<open>plugin/zonedns\<close>, files \<open>setup.go\<close> and \<open>metrics.go\<close>: parsing central's
  configuration, connecting to SPIRE, and wiring the poller's callbacks to the gauges.

  \<open>time.ParseDuration\<close> is a parameter (no theorem depends on which durations it accepts), as
  are the SPIFFE and gRPC libraries (\<open>spire_ops\<close>), which are not part of this repository.
\<close>

section \<open>Configuration\<close>

definition defaultPollInterval :: int where
  "defaultPollInterval = 30 * 1000000000"

definition defaultTTL :: u32 where
  "defaultTTL = 30"

definition workloadAPIDialTimeout :: int where
  "workloadAPIDialTimeout = 10 * 1000000000"

record central_config =
  ccSpireServer :: string
  ccPollInterval :: int
  ccAuthorizedAgents :: "string list"
  ccEdns0Code :: u16
  ccTtl :: u32
  ccZones :: zone_table
  ccWorkloadAPI :: string
  ccSpireServerID :: string

type_synonym parse_duration = "string \<Rightarrow> string + int"

text \<open>The check of \<open>edns0_code\<close>, which both plugins have word for word.\<close>

definition parse_code :: "string \<Rightarrow> cfg_error + u16" where
  "parse_code v =
     (case ParseUint v 16 of
        Inl err \<Rightarrow> Inl (ErrInvalid ''edns0_code'' v)
      | Inr code \<Rightarrow>
          if code < 65001 \<or> code > 65534 then Inl (ErrOutOfRange ''edns0_code'' code)
          else Inr (of_nat code))"

text \<open>The \<open>switch\<close> of \<open>parseConfig\<close>; the gateways collected so far are the second component.\<close>

type_synonym parse_state = "central_config \<times> (string, addr) gomap"

definition central_gateway :: "parse_state \<Rightarrow> string list \<Rightarrow> cfg_error + parse_state" where
  "central_gateway st args =
     (let (cfg, gateways) = st in
      if length args \<noteq> 2 then Inl (ErrArgCount (length args))
      else if \<not> ednszone_Valid (args ! 0) then Inl (ErrInvalid ''gateway zone'' (args ! 0))
      else if gm_get gateways (args ! 0) \<noteq> None then Inl (ErrDuplicate (args ! 0))
      else case ParseAddr (args ! 1) of
             None \<Rightarrow> Inl (ErrInvalid ''gateway address'' (args ! 1))
           | Some a \<Rightarrow> Inr (cfg, gm_put gateways (args ! 0) a))"

definition central_property ::
  "parse_duration \<Rightarrow> 'd dispenser \<Rightarrow> parse_state \<Rightarrow> 'd \<Rightarrow> cfg_error + parse_state \<times> 'd" where
  "central_property PD D st d =
     (let (cfg, gateways) = st; prop = dVal D d in
      if prop = ''spire_server'' then one_arg D d (\<lambda>v. Inr (cfg\<lparr>ccSpireServer := v\<rparr>, gateways))
      else if prop = ''poll_interval'' then
        one_arg D d (\<lambda>v. case PD v of
            Inl err \<Rightarrow> Inl (ErrInvalid ''poll_interval'' v)
          | Inr du \<Rightarrow> if du \<le> 0 then Inl (ErrNotPositive ''poll_interval'' v)
                      else Inr (cfg\<lparr>ccPollInterval := du\<rparr>, gateways))
      else if prop = ''authorized_agent'' then
        one_arg D d (\<lambda>v. Inr (cfg\<lparr>ccAuthorizedAgents := ccAuthorizedAgents cfg @ [v]\<rparr>, gateways))
      else if prop = ''edns0_code'' then
        one_arg D d (\<lambda>v. case parse_code v of Inl err \<Rightarrow> Inl err | Inr code \<Rightarrow> Inr (cfg\<lparr>ccEdns0Code := code\<rparr>, gateways))
      else if prop = ''workload_api'' then one_arg D d (\<lambda>v. Inr (cfg\<lparr>ccWorkloadAPI := v\<rparr>, gateways))
      else if prop = ''spire_server_id'' then one_arg D d (\<lambda>v. Inr (cfg\<lparr>ccSpireServerID := v\<rparr>, gateways))
      else if prop = ''ttl'' then
        one_arg D d (\<lambda>v. case ParseUint v 32 of
            Inl err \<Rightarrow> Inl (ErrInvalid ''ttl'' v)
          | Inr ttl \<Rightarrow> Inr (cfg\<lparr>ccTtl := of_nat ttl\<rparr>, gateways))
      else if prop = ''gateway'' then
        (let (args, d1) = dRemainingArgs D d in
         case central_gateway st args of Inl err \<Rightarrow> Inl err | Inr st1 \<Rightarrow> Inr (st1, d1))
      else Inl (ErrUnknownProperty prop))"

definition central_default :: central_config where
  "central_default =
     \<lparr>ccSpireServer = [], ccPollInterval = defaultPollInterval, ccAuthorizedAgents = [],
      ccEdns0Code = ednszone_DefaultCode, ccTtl = defaultTTL, ccZones = zonetable_New gm_empty,
      ccWorkloadAPI = [], ccSpireServerID = []\<rparr>"

text \<open>The checks after the loops.\<close>

definition central_validate :: "parse_state \<Rightarrow> cfg_error + central_config" where
  "central_validate st =
     (let (cfg, gateways) = st in
      if ccSpireServer cfg = [] then Inl (ErrRequired ''spire_server'')
      else if ccAuthorizedAgents cfg = [] then Inl (ErrRequired ''authorized_agent'')
      else if \<not> HasPrefix (ccSpireServer cfg) ''unix://'' \<and> ccSpireServerID cfg = []
      then Inl (ErrRequired ''spire_server_id'')
      else Inr (cfg\<lparr>ccZones := zonetable_New gateways\<rparr>))"

definition central_parseConfig ::
  "parse_duration \<Rightarrow> 'd dispenser \<Rightarrow> nat \<Rightarrow> 'd \<Rightarrow> (cfg_error + central_config) option" where
  "central_parseConfig PD D fuel d =
     (case config_loop D (central_property PD D) fuel (central_default, gm_empty) d of
        None \<Rightarrow> None
      | Some (Inl err) \<Rightarrow> Some (Inl err)
      | Some (Inr st) \<Rightarrow> Some (central_validate st))"

section \<open>Connecting to SPIRE\<close>

datatype ('src, 'id) spire_creds = Insecure | MTLS 'src 'id

text \<open>
  \<open>spiffeid.FromString\<close>, \<open>workloadapi.NewX509Source\<close> under a timeout, and \<open>grpc.NewClient\<close>
  with credentials.
\<close>

record ('id, 'src, 'conn) spire_ops =
  soFromString :: "string \<Rightarrow> string + 'id"
  soNewX509Source :: "int \<Rightarrow> string \<Rightarrow> string + 'src"
  soNewClient :: "string \<Rightarrow> ('src, 'id) spire_creds \<Rightarrow> string + 'conn"

datatype dial_error =
    ErrDial string string
  | ErrNoWorkloadAPI string
  | ErrServerID string string
  | ErrX509Source string int string

text \<open>\<open>source.Close()\<close>, on the list of the X.509 sources that are open.\<close>

definition source_Close :: "'src \<Rightarrow> 'src list \<Rightarrow> 'src list" where
  "source_Close source opened = remove1 source opened"

text \<open>
  The connection with the source that \<open>cleanup\<close> closes (none for a local socket), and the
  sources left open by the call itself.
\<close>

definition dialSPIRE ::
  "('id, 'src, 'conn) spire_ops \<Rightarrow> central_config \<Rightarrow> (dial_error + 'conn \<times> 'src option) \<times> 'src list" where
  "dialSPIRE S cfg =
     (if HasPrefix (ccSpireServer cfg) ''unix://'' then
        (case soNewClient S (ccSpireServer cfg) Insecure of
           Inl err \<Rightarrow> (Inl (ErrDial (ccSpireServer cfg) err), [])
         | Inr conn \<Rightarrow> (Inr (conn, None), []))
      else if ccWorkloadAPI cfg = [] then (Inl (ErrNoWorkloadAPI (ccSpireServer cfg)), [])
      else case soFromString S (ccSpireServerID cfg) of
        Inl err \<Rightarrow> (Inl (ErrServerID (ccSpireServerID cfg) err), [])
      | Inr serverID \<Rightarrow>
          (case soNewX509Source S workloadAPIDialTimeout (ccWorkloadAPI cfg) of
             Inl err \<Rightarrow> (Inl (ErrX509Source (ccWorkloadAPI cfg) workloadAPIDialTimeout err), [])
           | Inr source \<Rightarrow>
               (let opened = [source] in
                case soNewClient S (ccSpireServer cfg) (MTLS source serverID) of
                  Inl err \<Rightarrow> (Inl (ErrDial (ccSpireServer cfg) err), source_Close source opened)
                | Inr conn \<Rightarrow> (Inr (conn, Some source), opened))))"

section \<open>Gauges and setup\<close>

text \<open>The registry's gauges; a Prometheus gauge holds a \<open>float64\<close>.\<close>

record central_gauges =
  registryNames :: float64
  registryConflicts :: float64
  registryReady :: float64
  registryPollErrors :: float64

definition central_callbacks :: "central_gauges callbacks" where
  "central_callbacks =
     \<lparr>OnSnapshot = Some (\<lambda>s g. g\<lparr>registryNames := float64 (int (sNames s)),
         registryConflicts := float64 (int (sConflicts s)), registryReady := 1\<rparr>),
      OnPollErrors = Some (\<lambda>count g. g\<lparr>registryPollErrors := float64 (sint count)\<rparr>)\<rparr>"

text \<open>\<open>transport.TLS\<close> is the constant \<open>tls\<close> of CoreDNS.\<close>

definition warnIfDoT :: "string \<Rightarrow> string" where
  "warnIfDoT tr =
     (if tr \<noteq> ''tls'' then []
      else ''zonedns is configured on a DNS-over-TLS (tls://) listener; zone-aware answers are unreliable there '' @
        ''because CoreDNS plugins (e.g. metrics) can wrap the ResponseWriter and defeat the client certificate '' @
        ''extraction zonedns relies on, silently disabling zone routing. Use a DNS-over-HTTPS (https://) listener instead.'')"

datatype setup_error = SetupOrder order_error | SetupConfig cfg_error | SetupDial dial_error

text \<open>
  What a successful \<open>setup\<close> leaves behind: the handler it adds (the store is shared with the
  poller and passed in), the poll interval, and what \<open>OnShutdown\<close> releases.
\<close>

record ('src, 'conn) central_instance =
  ciHandler :: "next_handler \<Rightarrow> Store \<Rightarrow> ZoneDNS"
  ciStore :: Store
  ciInterval :: int
  ciConn :: 'conn
  ciSource :: "'src option"

text \<open>
  The result, the gauges, the sources left open, and whether the transport warning was
  logged. \<^const>\<open>None\<close> is \<open>parseConfig\<close> running out of fuel.
\<close>

definition central_setup ::
  "parse_duration \<Rightarrow> 'd dispenser \<Rightarrow> nat \<Rightarrow> ('id, 'src, 'conn) spire_ops \<Rightarrow> string list \<Rightarrow> string \<Rightarrow> 'd \<Rightarrow>
   central_gauges \<Rightarrow>
   ((setup_error + ('src, 'conn) central_instance) \<times> central_gauges \<times> 'src list \<times> bool) option" where
  "central_setup PD D fuel S directives tr d g =
     (case zonedns_CheckDirectiveOrder directives of
        Some err \<Rightarrow> Some (Inl (SetupOrder err), g, [], False)
      | None \<Rightarrow>
          (let warned = (warnIfDoT tr \<noteq> []) in
           case central_parseConfig PD D fuel d of
             None \<Rightarrow> None
           | Some (Inl err) \<Rightarrow> Some (Inl (SetupConfig err), g, [], warned)
           | Some (Inr cfg) \<Rightarrow>
               (let g1 = g\<lparr>registryReady := 0, registryPollErrors := 0\<rparr> in
                case dialSPIRE S cfg of
                  (Inl err, opened) \<Rightarrow> Some (Inl (SetupDial err), g1, opened, warned)
                | (Inr (conn, source), opened) \<Rightarrow>
                    Some (Inr \<lparr>ciHandler = (\<lambda>nx store. \<lparr>zNext = nx,
                                  zIdentity = NewConfig (ccAuthorizedAgents cfg) (ccEdns0Code cfg),
                                  zRegistry = store, zZones = ccZones cfg, zTTL = ccTtl cfg\<rparr>),
                               ciStore = NewStore, ciInterval = ccPollInterval cfg, ciConn = conn, ciSource = source\<rparr>,
                          g1, opened, warned))))"

text \<open>
  What a running instance holds: the context of its poller, the open sources and the open
  connections. \<open>OnShutdown\<close> cancels the context, runs \<open>cleanup\<close> and closes the
  connection, whose error (given by the library as \<open>closeConn\<close>) is its result.
\<close>

record ('src, 'conn) central_live =
  lvCancelled :: bool
  lvSources :: "'src list"
  lvConns :: "'conn list"

definition central_started :: "('src, 'conn) central_instance \<Rightarrow> 'src list \<Rightarrow> ('src, 'conn) central_live" where
  "central_started inst opened = \<lparr>lvCancelled = False, lvSources = opened, lvConns = [ciConn inst]\<rparr>"

definition central_cleanup ::
  "('src, 'conn) central_instance \<Rightarrow> ('src, 'conn) central_live \<Rightarrow> ('src, 'conn) central_live" where
  "central_cleanup inst lv =
     (case ciSource inst of None \<Rightarrow> lv | Some src \<Rightarrow> lv\<lparr>lvSources := source_Close src (lvSources lv)\<rparr>)"

definition central_shutdown ::
  "('conn \<Rightarrow> 'err option) \<Rightarrow> ('src, 'conn) central_instance \<Rightarrow> ('src, 'conn) central_live \<Rightarrow>
   'err option \<times> ('src, 'conn) central_live" where
  "central_shutdown closeConn inst lv =
     (let lv1 = lv\<lparr>lvCancelled := True\<rparr>;
          lv2 = central_cleanup inst lv1;
          lv3 = lv2\<lparr>lvConns := remove1 (ciConn inst) (lvConns lv2)\<rparr>
      in (closeConn (ciConn inst), lv3))"

section \<open>Facts\<close>

lemma source_Close_opened [simp]: "source_Close source [source] = []"
  by (simp add: source_Close_def)

lemma warnIfDoT_iff [simp]: "warnIfDoT tr = [] \<longleftrightarrow> tr \<noteq> ''tls''"
  by (simp add: warnIfDoT_def)

text \<open>
  The gauges are reset before SPIRE is dialled, so a reload that fails there has already
  reset the gauges of the instance that goes on serving.
\<close>

lemma failed_dial_resets_gauges:
  "central_setup PD D fuel S directives tr d g = Some (Inl (SetupDial err), g', opened, warned) \<Longrightarrow>
     registryReady g' = 0 \<and> registryPollErrors g' = 0"
  by (auto simp: central_setup_def Let_def split: option.splits sum.splits prod.splits)

text \<open>A configuration the plugin may run with.\<close>

definition gateways_ok :: "(string, addr) gomap \<Rightarrow> bool" where
  "gateways_ok gws \<longleftrightarrow> gm_ok gws \<and>
     (\<forall>z a. gm_get gws z = Some a \<longrightarrow> ednszone_Valid z \<and> addr_ok a \<and> IsValid a)"

definition central_state_ok :: "parse_state \<Rightarrow> bool" where
  "central_state_ok st \<longleftrightarrow> gateways_ok (snd st) \<and> 0 < ccPollInterval (fst st) \<and>
     65001 \<le> unat (ccEdns0Code (fst st)) \<and> unat (ccEdns0Code (fst st)) \<le> 65534"

lemma parse_code_range:
  "parse_code v = Inr c \<Longrightarrow> 65001 \<le> unat c \<and> unat c \<le> 65534"
  by (auto simp: parse_code_def unat_of_nat take_bit_nat_def split: sum.splits if_splits)

lemma central_gateway_keeps: "central_state_ok st \<Longrightarrow> central_gateway st args = Inr st' \<Longrightarrow> central_state_ok st'"
  by (auto simp: central_gateway_def central_state_ok_def gateways_ok_def dest: ParseAddr_ok
      split: if_splits option.splits prod.splits)

lemma central_state_ok_frame:
  "central_state_ok (cfg\<lparr>ccSpireServer := v\<rparr>, g) = central_state_ok (cfg, g)"
  "central_state_ok (cfg\<lparr>ccAuthorizedAgents := as\<rparr>, g) = central_state_ok (cfg, g)"
  "central_state_ok (cfg\<lparr>ccWorkloadAPI := v\<rparr>, g) = central_state_ok (cfg, g)"
  "central_state_ok (cfg\<lparr>ccSpireServerID := v\<rparr>, g) = central_state_ok (cfg, g)"
  "central_state_ok (cfg\<lparr>ccTtl := t\<rparr>, g) = central_state_ok (cfg, g)"
  "0 < du \<Longrightarrow> central_state_ok (cfg, g) \<Longrightarrow> central_state_ok (cfg\<lparr>ccPollInterval := du\<rparr>, g)"
  "parse_code v = Inr c \<Longrightarrow> central_state_ok (cfg, g) \<Longrightarrow> central_state_ok (cfg\<lparr>ccEdns0Code := c\<rparr>, g)"
  by (simp_all add: central_state_ok_def parse_code_range)

lemma central_property_cases:
  assumes "central_property PD D (cfg, g) d = Inr (st, d')"
  obtains f where "one_arg D d f = Inr (st, d')"
      "\<And>v. f v = Inr st \<Longrightarrow> central_state_ok (cfg, g) \<Longrightarrow> central_state_ok st"
  | as where "dRemainingArgs D d = (as, d')" "central_gateway (cfg, g) as = Inr st"
proof -
  note one = that(1)
  consider (gw) "dVal D d = ''gateway''" | (arg) "dVal D d \<noteq> ''gateway''" by blast
  then show thesis
  proof cases
    case gw
    with assms show thesis
      by (auto simp: central_property_def Let_def split: prod.splits sum.splits intro: that(2))
  next
    case arg
    with assms show thesis
      unfolding central_property_def Let_def prod.case
      by (simp only: if_False split: if_split_asm)
        (erule one, auto simp: central_state_ok_frame split: sum.splits if_splits)+
  qed
qed

lemma central_property_keeps: "body_keeps central_state_ok (central_property PD D)"
  unfolding body_keeps_def
proof (intro allI impI)
  fix st d st' d'
  assume ok: "central_state_ok st" and "central_property PD D st d = Inr (st', d')"
  then have "central_property PD D (fst st, snd st) d = Inr (st', d')" by simp
  then show "central_state_ok st'"
  proof (cases rule: central_property_cases)
    case (1 f)
    then show ?thesis using ok by (auto simp: one_arg_Inr)
  next
    case (2 as)
    then show ?thesis using ok central_gateway_keeps by simp
  qed
qed

lemma central_property_uses:
  assumes "dispenser_laws D left"
  shows "body_uses left (central_property PD D)"
  unfolding body_uses_def
proof (intro allI impI)
  fix st d st' d'
  assume "central_property PD D st d = Inr (st', d')"
  then have "central_property PD D (fst st, snd st) d = Inr (st', d')" by simp
  then show "left d' \<le> left d"
  proof (cases rule: central_property_cases)
    case (1 f)
    show ?thesis by (rule one_arg_left [OF assms 1(1)])
  next
    case (2 as)
    then show ?thesis using assms unfolding dispenser_laws_def by blast
  qed
qed

subsection \<open>Gauges\<close>

text \<open>The gauges say what is true of the poller and the store they report on.\<close>

definition gauges_inv :: "unicode \<Rightarrow> ('s, 'e) lister \<Rightarrow> ('s, central_gauges) poller \<Rightarrow> bool" where
  "gauges_inv U list p \<longleftrightarrow>
     registryReady (pSink p) = (if Ready (pStore p) then 1 else 0) \<and>
     registryPollErrors (pSink p) = float64 (sint (pErrors p)) \<and>
     (\<forall>snap. stCur (pStore p) = Some snap \<longrightarrow>
        registryNames (pSink p) = float64 (int (gm_len (snZoneOf snap))) \<and>
        (\<exists>es s s'. poll_pages list 0 gm_empty [] [] s = (Inr es, s') \<and> snap = fst (BuildSnapshot U es) \<and>
           registryConflicts (pSink p) = float64 (int (sConflicts (snd (BuildSnapshot U es))))))"

lemma BuildSnapshot_names: "sNames (snd (BuildSnapshot U es)) = gm_len (snZoneOf (fst (BuildSnapshot U es)))"
  by (simp add: BuildSnapshot_def Let_def split_beta)

lemma gauges_run_poll:
  assumes "gauges_inv U list p"
  shows "gauges_inv U list (run_poll U list central_callbacks p)"
proof -
  obtain res store s where po: "PollOnce U list (pStore p) (pLister p) = (res, store, s)" by (metis prod_cases3)
  show ?thesis
  proof (cases res)
    case (Inl e)
    then have "store = pStore p" using po PollOnce_error_store by metis
    with assms Inl po show ?thesis
      by (simp add: gauges_inv_def run_poll_def central_callbacks_def)
  next
    case (Inr stats)
    then obtain es where es: "poll_pages list 0 gm_empty [] [] (pLister p) = (Inr es, s)"
        "store = Replace (pStore p) (fst (BuildSnapshot U es))" "stats = snd (BuildSnapshot U es)"
      using PollOnce_ok_store [OF po [unfolded Inr]] by (metis snd_conv)
    have "stCur store = Some (fst (BuildSnapshot U es))" by (simp add: es(2) Replace_def)
    with Inr po es show ?thesis
      by (auto simp: gauges_inv_def run_poll_def central_callbacks_def Ready_def BuildSnapshot_names)
  qed
qed

interpretation gauges: event_handler "\<lambda>u p. run_poll U list central_callbacks p" "gauges_inv U list" for U list
  by unfold_locales (rule gauges_run_poll)

lemma Run_fold: "Run U list cb n p = fold (\<lambda>u p. run_poll U list cb p) (replicate (Suc n) ()) p"
  by (induction n arbitrary: p) auto

subsection \<open>A concrete configuration\<close>

definition demo_corefile :: block_text where
  "demo_corefile = block_of
     [[''spire_server'', ''unix:///run/spire.sock''], [''authorized_agent'', ''spiffe://d/agent''],
      [''poll_interval'', ''10s''], [''gateway'', ''zone-b'', ''10.0.0.9'']]"

definition demo_duration :: parse_duration where
  "demo_duration v = (if v = ''10s'' then Inr 10000000000 else Inl ''unknown'')"

definition demo_spire :: "(string, string, nat) spire_ops" where
  "demo_spire = \<lparr>soFromString = Inr, soNewX509Source = (\<lambda>t a. Inr a), soNewClient = (\<lambda>a c. Inr 1)\<rparr>"

definition demo_gauges :: central_gauges where
  "demo_gauges = \<lparr>registryNames = 0, registryConflicts = 0, registryReady = 1, registryPollErrors = 3\<rparr>"

lemma demo_parsed:
  "\<exists>cfg. central_parseConfig demo_duration block_dispenser 6 demo_corefile = Some (Inr cfg) \<and>
     ccAuthorizedAgents cfg = [''spiffe://d/agent''] \<and> HasPrefix (ccSpireServer cfg) ''unix://''"
proof -
  let ?r = "central_parseConfig demo_duration block_dispenser 6 demo_corefile"
  have "case ?r of
      Some (Inr cfg) \<Rightarrow> ccAuthorizedAgents cfg = [''spiffe://d/agent''] \<and> HasPrefix (ccSpireServer cfg) ''unix://''
    | _ \<Rightarrow> False"
    by code_simp
  then show ?thesis by (cases ?r; cases "the ?r") auto
qed

lemma demo_setup:
  "\<exists>inst opened warned. central_setup demo_duration block_dispenser 6 demo_spire [''zonedns'', ''cache''] ''https''
     demo_corefile demo_gauges =
       Some (Inr inst, demo_gauges\<lparr>registryReady := 0, registryPollErrors := 0\<rparr>, opened, warned) \<and>
     ciStore inst = NewStore"
proof -
  have ord: "zonedns_CheckDirectiveOrder [''zonedns'', ''cache''] = None" by code_simp
  show ?thesis
    using demo_parsed by (auto simp: central_setup_def ord dialSPIRE_def demo_spire_def Let_def)
qed

section \<open>Properties\<close>

text \<open>
  Property C23. Parsing central's configuration always ends (for a dispenser that delivers every
  token once, one unit of fuel more than the tokens left suffices), and a configuration it
  accepts is one the plugin can run with: a SPIRE server is named, and its identity too
  unless it is a local socket; at least one agent is authorized; the option code is in the
  local range; the poll interval is positive; every gateway has a zone that can be declared
  on the wire and a real address.
\<close>

theorem central_parseConfig_correct:
  assumes "dispenser_laws D left" and "left d < fuel"
  shows "\<exists>r. central_parseConfig PD D fuel d = Some r \<and>
    (case r of
       Inl err \<Rightarrow> True
     | Inr cfg \<Rightarrow>
         ccSpireServer cfg \<noteq> [] \<and> ccAuthorizedAgents cfg \<noteq> [] \<and>
         (HasPrefix (ccSpireServer cfg) ''unix://'' \<or> ccSpireServerID cfg \<noteq> []) \<and>
         65001 \<le> unat (ccEdns0Code cfg) \<and> unat (ccEdns0Code cfg) \<le> 65534 \<and> 0 < ccPollInterval cfg \<and>
         (\<forall>z a. zonetable_Gateway (ccZones cfg) z = Some a \<longrightarrow> ednszone_Valid z \<and> addr_ok a \<and> IsValid a))"
proof -
  obtain r where r: "config_loop D (central_property PD D) fuel (central_default, gm_empty) d = Some r"
    using config_loop_total [OF assms(1) central_property_uses [OF assms(1)] assms(2)] by blast
  show ?thesis
  proof (cases r)
    case (Inl err)
    then show ?thesis using r by (simp add: central_parseConfig_def)
  next
    case (Inr st)
    have "central_state_ok (central_default, gm_empty)"
      by (simp add: central_state_ok_def gateways_ok_def central_default_def defaultPollInterval_def ednszone_DefaultCode_def)
    then have ok: "central_state_ok st"
      by (rule config_loop_inv [OF central_property_keeps _ r [unfolded Inr]])
    then have gw: "zonetable_Gateway (zonetable_New (snd st)) z = Some a \<Longrightarrow> ednszone_Valid z \<and> addr_ok a \<and> IsValid a" for z a
      by (auto simp: central_state_ok_def gateways_ok_def zonetable_Gateway_def zonetable_New_def gm.get_fold_put
          gm_get_rev split: option.splits)
    show ?thesis
      using r Inr ok gw
      by (auto simp: central_parseConfig_def central_validate_def central_state_ok_def split: sum.splits prod.splits)
  qed
qed

theorem central_parseConfig_correct_witness:
  "\<exists>cfg. central_parseConfig demo_duration block_dispenser 6 demo_corefile = Some (Inr cfg) \<and>
     ccAuthorizedAgents cfg = [''spiffe://d/agent''] \<and> 0 < ccPollInterval cfg"
proof -
  have left: "block_left demo_corefile < 6" by code_simp
  show ?thesis
    using central_parseConfig_correct [OF block_dispenser_laws left, of demo_duration] demo_parsed by auto
qed

text \<open>
  Property C25. Setting central up releases what it acquired: a failed set-up leaves no X.509
  source open, whatever step failed, and shutting down what a successful one started
  cancels the poller's context, closes the source it holds, and closes the connection
  and reports its error, whatever that is. On success the SPIRE connection is either a local
  socket or mutually authenticated with the SPIRE server's exact identity pinned, the
  handler carries the parsed agents, option code, gateways and TTL with an empty, not-ready
  store, and the warning about DNS over TLS was logged exactly on a TLS listener.
\<close>

theorem central_setup_safe:
  assumes "central_setup PD D fuel S directives tr d g = Some (res, g', opened, warned)"
  shows "case res of
      Inl err \<Rightarrow> opened = []
    | Inr inst \<Rightarrow>
        central_shutdown closeConn inst (central_started inst opened) =
          (closeConn (ciConn inst), \<lparr>lvCancelled = True, lvSources = [], lvConns = []\<rparr>) \<and> (warned \<longleftrightarrow> tr = ''tls'') \<and> \<not> Ready (ciStore inst) \<and> registryReady g' = 0 \<and>
        (\<exists>cfg. central_parseConfig PD D fuel d = Some (Inr cfg) \<and>
           (case ciSource inst of
              None \<Rightarrow> HasPrefix (ccSpireServer cfg) ''unix://''
            | Some src \<Rightarrow> \<exists>sid. soFromString S (ccSpireServerID cfg) = Inr sid \<and>
                soNewClient S (ccSpireServer cfg) (MTLS src sid) = Inr (ciConn inst)) \<and>
           ciHandler inst nx store = \<lparr>zNext = nx, zIdentity = NewConfig (ccAuthorizedAgents cfg) (ccEdns0Code cfg),
             zRegistry = store, zZones = ccZones cfg, zTTL = ccTtl cfg\<rparr>)"
  using assms
  by (auto simp: central_setup_def dialSPIRE_def central_shutdown_def central_cleanup_def central_started_def NewStore_def Ready_def Let_def
      split: option.splits sum.splits prod.splits if_splits)

theorem central_setup_safe_witness:
  "\<exists>inst g' opened warned. central_setup demo_duration block_dispenser 6 demo_spire [''zonedns'', ''cache''] ''https''
      demo_corefile demo_gauges = Some (Inr inst, g', opened, warned) \<and>
     snd (central_shutdown (\<lambda>c. None :: string option) inst (central_started inst opened)) =
       \<lparr>lvCancelled = True, lvSources = [], lvConns = []\<rparr> \<and> \<not> Ready (ciStore inst) \<and> registryReady g' = 0"
proof -
  obtain inst g' opened warned where
    ok: "central_setup demo_duration block_dispenser 6 demo_spire [''zonedns'', ''cache''] ''https'' demo_corefile
      demo_gauges = Some (Inr inst, g', opened, warned)"
    using demo_setup by blast
  show ?thesis using central_setup_safe [OF ok, of "\<lambda>c. None :: string option"] ok by auto
qed

text \<open>
  Property C27. The gauges tell the truth as long as the poller runs: after the set-up's reset
  and any number of polls with any outcomes, \<open>registry_ready\<close> is 1 exactly when a snapshot
  is loaded, \<open>registry_names\<close> is then the number of names in it and
  \<open>registry_conflicts\<close> the number of conflicting names of the listing it was built from,
  and \<open>registry_poll_errors\<close> is the number of consecutive failures. The gauges hold
  \<open>float64\<close> numbers, which are exact below \<open>2\<^sup>5\<^sup>3\<close> and rounded from there on; the gauge of the failures is
  zero exactly when the counter is.
\<close>

theorem gauges_truthful:
  assumes "central_setup PD D fuel S directives tr d g0 = Some (Inr inst, g, opened, warned)"
    and "p = Run U list central_callbacks n \<lparr>pStore = ciStore inst, pErrors = 0, pSink = g, pLister = s\<rparr>"
  shows "registryReady (pSink p) = (if Ready (pStore p) then 1 else 0) \<and>
    registryPollErrors (pSink p) = float64 (sint (ConsecutivePollErrors p)) \<and>
    (registryPollErrors (pSink p) = 0 \<longleftrightarrow> ConsecutivePollErrors p = 0) \<and>
    (\<bar>sint (ConsecutivePollErrors p)\<bar> < 2 ^ 53 \<longrightarrow> registryPollErrors (pSink p) = sint (ConsecutivePollErrors p)) \<and>
    (case stCur (pStore p) of
       None \<Rightarrow> True
     | Some snap \<Rightarrow>
         registryNames (pSink p) = float64 (int (gm_len (snZoneOf snap))) \<and>
         (gm_len (snZoneOf snap) < 2 ^ 53 \<longrightarrow> registryNames (pSink p) = int (gm_len (snZoneOf snap))) \<and>
         (\<exists>es s s'. poll_pages list 0 gm_empty [] [] s = (Inr es, s') \<and> snap = fst (BuildSnapshot U es) \<and>
            registryConflicts (pSink p) = float64 (int (sConflicts (snd (BuildSnapshot U es))))))"
proof -
  have "gauges_inv U list \<lparr>pStore = ciStore inst, pErrors = 0, pSink = g, pLister = s\<rparr>"
    using assms(1)
    by (auto simp: central_setup_def gauges_inv_def NewStore_def Ready_def Let_def
        split: option.splits sum.splits prod.splits)
  then have inv: "gauges_inv U list p" unfolding assms(2) Run_fold by (rule gauges.run_inv)
  have exact: "float64 x = x" if "\<bar>x\<bar> < 2 ^ 53" for x
    using that by (intro float64_exact) simp
  have zero: "sint w = 0 \<longleftrightarrow> w = 0" for w :: u64
    by (metis signed_0 signed_word_eqI)
  have names: "float64 (int m) = int m" if "m < 2 ^ 53" for m
    by (rule exact) (use that in simp)
  show ?thesis
    using inv by (auto simp: gauges_inv_def ConsecutivePollErrors_def exact names zero split: option.splits)
qed

theorem gauges_truthful_witness:
  "registryReady (pSink (Run demo_U (paged_server [([], demo_entries)]) central_callbacks 0
     \<lparr>pStore = NewStore, pErrors = 0, pSink = demo_gauges\<lparr>registryReady := 0, registryPollErrors := 0\<rparr>, pLister = ()\<rparr>)) = 1"
proof -
  obtain inst opened warned where
    ok: "central_setup demo_duration block_dispenser 6 demo_spire [''zonedns'', ''cache''] ''https'' demo_corefile
      demo_gauges = Some (Inr inst, demo_gauges\<lparr>registryReady := 0, registryPollErrors := 0\<rparr>, opened, warned)"
      "ciStore inst = NewStore"
    using demo_setup by blast
  have "Ready (pStore (Run demo_U (paged_server [([], demo_entries)]) central_callbacks 0
     \<lparr>pStore = NewStore, pErrors = 0, pSink = demo_gauges\<lparr>registryReady := 0, registryPollErrors := 0\<rparr>, pLister = ()\<rparr>))"
    by code_simp
  then show ?thesis
    using gauges_truthful [OF ok(1) refl, of demo_U "paged_server [([], demo_entries)]" 0 "()"]
    unfolding ok(2) by simp
qed

end
