(* ===== verification/Zone_Cache.thy ===== *)
theory Zone_Cache
  imports Dns_Msg Go_Strings
begin

text \<open>
  Package \<open>internal/zonecache\<close>: the node-side answer cache. Its key contains the zone of the
  asking workload, so that one zone's answer is never given to another.

  The eviction policy is \<open>hashicorp/golang-lru\<close>, which is not part of this repository: its
  four operations are the record \<open>lru_ops\<close>, an argument of the cache operations, and
  \<open>lru_laws\<close> states what the cache relies on. A time is its number of nanoseconds; every
  operation holds the mutex around its one call of the LRU, so concurrent use is a sequence
  of operations.
\<close>

section \<open>Time and records\<close>

definition Second :: int where
  "Second = 1000000000"

text \<open>\<open>time.Duration\<close> is an \<open>int64\<close>: products wrap, and \<open>Time.Sub\<close> saturates.\<close>

definition int64 :: "int \<Rightarrow> int" where
  "int64 n = (n + 2 ^ 63) mod 2 ^ 64 - 2 ^ 63"

definition time_Sub :: "int \<Rightarrow> int \<Rightarrow> int" where
  "time_Sub t u = max (- (2 ^ 63)) (min (2 ^ 63 - 1) (t - u))"

fun with_ttl :: "u32 \<Rightarrow> rr \<Rightarrow> rr" where
  "with_ttl t (RR_A h a) = RR_A (h\<lparr>hTtl := t\<rparr>) a"
| "with_ttl t (RR_AAAA h a) = RR_AAAA (h\<lparr>hTtl := t\<rparr>) a"
| "with_ttl t (RR_OPT h os) = RR_OPT (h\<lparr>hTtl := t\<rparr>) os"
| "with_ttl t (RR_Other h d) = RR_Other (h\<lparr>hTtl := t\<rparr>) d"

section \<open>The LRU package\<close>

record ('k, 'v, 'l) lru_ops =
  lruNew :: "int \<Rightarrow> string + 'l"
  lruAdd :: "'l \<Rightarrow> 'k \<Rightarrow> 'v \<Rightarrow> 'l"
  lruGet :: "'l \<Rightarrow> 'k \<Rightarrow> 'v option \<times> 'l"
  lruLen :: "'l \<Rightarrow> nat"

text \<open>
  Documented behaviour, for an invariant \<open>ok n\<close> of the caches of capacity \<open>n\<close>: a new cache
  of positive capacity is empty; \<open>Add\<close> makes the value retrievable and may evict other
  keys, but never changes their values; \<open>Get\<close> changes no value; at most \<open>n\<close> entries are
  held.
\<close>

definition lru_laws :: "('k, 'v, 'l) lru_ops \<Rightarrow> (int \<Rightarrow> 'l \<Rightarrow> bool) \<Rightarrow> bool" where
  "lru_laws K ok \<longleftrightarrow>
     (\<forall>n. 0 < n \<longrightarrow> (\<exists>l. lruNew K n = Inr l \<and> ok n l \<and> (\<forall>k. fst (lruGet K l k) = None))) \<and>
     (\<forall>n l k v. ok n l \<longrightarrow> ok n (lruAdd K l k v) \<and> fst (lruGet K (lruAdd K l k v) k) = Some v \<and>
        (\<forall>k'. k' \<noteq> k \<longrightarrow> fst (lruGet K (lruAdd K l k v) k') = None \<or>
           fst (lruGet K (lruAdd K l k v) k') = fst (lruGet K l k'))) \<and>
     (\<forall>n l k. ok n l \<longrightarrow> ok n (snd (lruGet K l k)) \<and>
        (\<forall>k'. fst (lruGet K (snd (lruGet K l k)) k') = fst (lruGet K l k'))) \<and>
     (\<forall>n l. ok n l \<longrightarrow> int (lruLen K l) \<le> n)"

text \<open>A reference instance: the capacity and the entries, most recently used first.\<close>

definition lru_add :: "nat \<times> ('k \<times> 'v) list \<Rightarrow> 'k \<Rightarrow> 'v \<Rightarrow> nat \<times> ('k \<times> 'v) list" where
  "lru_add l k v = (fst l, take (fst l) ((k, v) # filter (\<lambda>e. fst e \<noteq> k) (snd l)))"

definition lru_get :: "nat \<times> ('k \<times> 'v) list \<Rightarrow> 'k \<Rightarrow> 'v option \<times> nat \<times> ('k \<times> 'v) list" where
  "lru_get l k =
     (case map_of (snd l) k of
        None \<Rightarrow> (None, l)
      | Some v \<Rightarrow> (Some v, fst l, (k, v) # filter (\<lambda>e. fst e \<noteq> k) (snd l)))"

definition lru_ref :: "('k, 'v, nat \<times> ('k \<times> 'v) list) lru_ops" where
  "lru_ref =
     \<lparr>lruNew = (\<lambda>n. if n \<le> 0 then Inl ''must provide a positive size'' else Inr (nat n, [])),
      lruAdd = lru_add, lruGet = lru_get, lruLen = (\<lambda>l. length (snd l))\<rparr>"

definition lru_ref_ok :: "int \<Rightarrow> nat \<times> ('k \<times> 'v) list \<Rightarrow> bool" where
  "lru_ref_ok n l = (0 < n \<and> int (fst l) = n \<and> distinct (map fst (snd l)) \<and> length (snd l) \<le> fst l)"

section \<open>The cache\<close>

definition maxTTL :: int where
  "maxTTL = 30 * Second"

record key =
  kQname :: string
  kQtype :: u16
  kZone :: string

record entry =
  eMsg :: dns_msg
  eExpiry :: int

record 'l Cache =
  cL :: 'l

definition zonecache_New :: "(key, entry, 'l) lru_ops \<Rightarrow> int \<Rightarrow> string + 'l Cache" where
  "zonecache_New K maxEntries =
     (if maxEntries \<le> 0 then Inl ''zonecache: maxEntries must be positive''
      else case lruNew K maxEntries of
             Inl err \<Rightarrow> Inl err
           | Inr l \<Rightarrow> Inr \<lparr>cL = l\<rparr>)"

definition makeKey :: "unicode \<Rightarrow> string \<Rightarrow> u16 \<Rightarrow> string \<Rightarrow> key" where
  "makeKey U qname qtype zone = \<lparr>kQname = ToLower U qname, kQtype = qtype, kZone = zone\<rparr>"

text \<open>The loop over \<open>m.Answer[1:]\<close>.\<close>

fun min_ttl :: "u32 \<Rightarrow> rr list \<Rightarrow> u32" where
  "min_ttl minTTL [] = minTTL"
| "min_ttl minTTL (r # rs) =
     min_ttl (if hTtl (rr_hdr r) < minTTL then hTtl (rr_hdr r) else minTTL) rs"

definition capped_ttl :: "u32 \<Rightarrow> int" where
  "capped_ttl minTTL = (let ttl = int64 (uint minTTL * Second) in if ttl > maxTTL then maxTTL else ttl)"

definition zonecache_Put ::
  "unicode \<Rightarrow> (key, entry, 'l) lru_ops \<Rightarrow> 'l Cache \<Rightarrow> string \<Rightarrow> u16 \<Rightarrow> string \<Rightarrow> dns_msg option \<Rightarrow> int \<Rightarrow>
     'l Cache" where
  "zonecache_Put U K c qname qtype zone mo now =
     (case mo of
        None \<Rightarrow> c
      | Some m \<Rightarrow>
          (case mAnswer m of
             [] \<Rightarrow> c
           | a # as \<Rightarrow>
               let minTTL = min_ttl (hTtl (rr_hdr a)) as in
               if minTTL = 0 then c
               else c\<lparr>cL := lruAdd K (cL c) (makeKey U qname qtype zone)
                               \<lparr>eMsg = m, eExpiry = now + capped_ttl minTTL\<rparr>\<rparr>))"

definition retime :: "u32 \<Rightarrow> dns_msg \<Rightarrow> dns_msg" where
  "retime ttl m =
     m\<lparr>mAnswer := map (with_ttl ttl) (mAnswer m),
       mNs := map (with_ttl ttl) (mNs m),
       mExtra := map (\<lambda>r. if hRrtype (rr_hdr r) \<noteq> TypeOPT then with_ttl ttl r else r) (mExtra m)\<rparr>"

definition zonecache_Get ::
  "unicode \<Rightarrow> (key, entry, 'l) lru_ops \<Rightarrow> 'l Cache \<Rightarrow> string \<Rightarrow> u16 \<Rightarrow> string \<Rightarrow> int \<Rightarrow>
     dns_msg option \<times> 'l Cache" where
  "zonecache_Get U K c qname qtype zone now =
     (case lruGet K (cL c) (makeKey U qname qtype zone) of
        (None, l) \<Rightarrow> (None, c\<lparr>cL := l\<rparr>)
      | (Some e, l) \<Rightarrow>
          (let remaining = time_Sub (eExpiry e) now in
           if remaining \<le> 0 then (None, c\<lparr>cL := l\<rparr>)
           else (Some (retime (word_of_int (remaining div Second)) (eMsg e)), c\<lparr>cL := l\<rparr>)))"

definition zonecache_Len :: "(key, entry, 'l) lru_ops \<Rightarrow> 'l Cache \<Rightarrow> nat" where
  "zonecache_Len K c = lruLen K (cL c)"

section \<open>Histories\<close>

text \<open>One use of the cache; the results of \<open>Get\<close> do not change what later uses see.\<close>

datatype cache_op =
    PutOp string u16 string "dns_msg option" int
  | GetOp string u16 string int

fun cache_step :: "unicode \<Rightarrow> (key, entry, 'l) lru_ops \<Rightarrow> cache_op \<Rightarrow> 'l Cache \<Rightarrow> 'l Cache" where
  "cache_step U K (PutOp q t z mo now) c = zonecache_Put U K c q t z mo now"
| "cache_step U K (GetOp q t z now) c = snd (zonecache_Get U K c q t z now)"

definition cache_run :: "unicode \<Rightarrow> (key, entry, 'l) lru_ops \<Rightarrow> cache_op list \<Rightarrow> 'l Cache \<Rightarrow> 'l Cache" where
  "cache_run U K ops c = fold (cache_step U K) ops c"

text \<open>The time-to-live of a message for caching: the smallest one of its answers.\<close>

definition answer_ttl :: "dns_msg \<Rightarrow> u32" where
  "answer_ttl m = (case mAnswer m of [] \<Rightarrow> 0 | a # as \<Rightarrow> min_ttl (hTtl (rr_hdr a)) as)"

section \<open>Facts\<close>

lemma rr_hdr_with_ttl [simp]: "rr_hdr (with_ttl t r) = (rr_hdr r)\<lparr>hTtl := t\<rparr>"
  by (cases r) auto

lemma lru_New: "lru_laws K ok \<Longrightarrow> 0 < n \<Longrightarrow> \<exists>l. lruNew K n = Inr l \<and> ok n l \<and> (\<forall>k. fst (lruGet K l k) = None)"
  unfolding lru_laws_def by blast

lemma lru_Add:
  assumes "lru_laws K ok" "ok n l"
  shows "ok n (lruAdd K l k v)" "fst (lruGet K (lruAdd K l k v) k) = Some v"
    "fst (lruGet K (lruAdd K l k v) k') = Some w \<Longrightarrow> k' \<noteq> k \<Longrightarrow> fst (lruGet K l k') = Some w"
proof -
  show "ok n (lruAdd K l k v)" "fst (lruGet K (lruAdd K l k v) k) = Some v"
    using assms unfolding lru_laws_def by blast+
  assume "fst (lruGet K (lruAdd K l k v) k') = Some w" "k' \<noteq> k"
  moreover have "k' \<noteq> k \<Longrightarrow> fst (lruGet K (lruAdd K l k v) k') = None \<or>
      fst (lruGet K (lruAdd K l k v) k') = fst (lruGet K l k')"
    using assms unfolding lru_laws_def by blast
  ultimately show "fst (lruGet K l k') = Some w" by auto
qed

lemma lru_Get:
  assumes "lru_laws K ok" "ok n l"
  shows "ok n (snd (lruGet K l k))" "fst (lruGet K (snd (lruGet K l k)) k') = fst (lruGet K l k')"
  using assms unfolding lru_laws_def by blast+

lemma lru_Len: "lru_laws K ok \<Longrightarrow> ok n l \<Longrightarrow> int (lruLen K l) \<le> n"
  unfolding lru_laws_def by blast

lemma map_of_filter_neq: "k' \<noteq> k \<Longrightarrow> map_of (filter (\<lambda>e. fst e \<noteq> k) xs) k' = map_of xs k'"
  by (induction xs) auto

lemma map_of_take_distinct:
  "distinct (map fst xs) \<Longrightarrow> map_of (take n xs) k = None \<or> map_of (take n xs) k = map_of xs k"
  by (metis append_take_drop_id map_add_Some_iff map_of_append not_None_eq)

lemma filter_fst_length:
  assumes "distinct (map fst xs)" and "map_of xs k = Some v"
  shows "length (filter (\<lambda>e. fst e \<noteq> k) xs) < length xs"
  using map_of_SomeD [OF assms(2)] by (intro length_filter_less) auto

lemma lru_laws_ref: "lru_laws (lru_ref :: ('k, 'v, nat \<times> ('k \<times> 'v) list) lru_ops) lru_ref_ok"
  unfolding lru_laws_def
proof (intro conjI allI impI)
  fix n :: int
  assume "0 < n"
  then show "\<exists>l. lruNew (lru_ref :: ('k, 'v, nat \<times> ('k \<times> 'v) list) lru_ops) n = Inr l \<and> lru_ref_ok n l \<and>
      (\<forall>k. fst (lruGet (lru_ref :: ('k, 'v, nat \<times> ('k \<times> 'v) list) lru_ops) l k) = None)"
    by (auto simp: lru_ref_def lru_ref_ok_def lru_get_def)
next
  fix n and l :: "nat \<times> ('k \<times> 'v) list" and k and v
  assume ok: "lru_ref_ok n l"
  then obtain c where c: "fst l = Suc c" by (cases "fst l") (auto simp: lru_ref_ok_def)
  have dist: "distinct (map fst ((k, v) # filter (\<lambda>e. fst e \<noteq> k) (snd l)))"
    using ok by (auto simp: lru_ref_ok_def distinct_map_filter)
  show "lru_ref_ok n (lruAdd lru_ref l k v)"
    using ok dist by (auto simp: lru_ref_ok_def lru_ref_def lru_add_def c take_map [symmetric]
        intro: distinct_take dest: in_set_takeD)
  show "fst (lruGet lru_ref (lruAdd lru_ref l k v) k) = Some v"
    by (simp add: lru_ref_def lru_add_def lru_get_def c)
  fix k'
  assume "k' \<noteq> k"
  then show "fst (lruGet lru_ref (lruAdd lru_ref l k v) k') = None \<or>
      fst (lruGet lru_ref (lruAdd lru_ref l k v) k') = fst (lruGet lru_ref l k')"
    using map_of_take_distinct [of "filter (\<lambda>e. fst e \<noteq> k) (snd l)" c k'] dist
    by (auto simp: lru_ref_def lru_add_def lru_get_def c map_of_filter_neq split: option.splits)
next
  fix n and l :: "nat \<times> ('k \<times> 'v) list" and k
  assume ok: "lru_ref_ok n l"
  then show "lru_ref_ok n (snd (lruGet lru_ref l k))"
    using filter_fst_length [of "snd l" k]
    by (fastforce simp: lru_ref_ok_def lru_ref_def lru_get_def distinct_map_filter split: option.splits)
  show "fst (lruGet lru_ref (snd (lruGet lru_ref l k)) k') = fst (lruGet lru_ref l k')" for k'
    by (auto simp: lru_ref_def lru_get_def map_of_filter_neq split: option.splits)
qed (auto simp: lru_ref_ok_def lru_ref_def)

subsection \<open>A store that may forget\<close>

text \<open>
  What the cache relies on is weaker than a map: a store that may lose entries at any
  time, but never invents or changes one. Every entry found was then put there.
\<close>

locale forgetful_store =
  fixes valid :: "'c \<Rightarrow> bool"
    and contents :: "'c \<Rightarrow> 'k \<Rightarrow> 'v option"
    and store :: "'c \<Rightarrow> 'k \<Rightarrow> 'v \<Rightarrow> 'c"
    and touch :: "'c \<Rightarrow> 'k \<Rightarrow> 'c"
  assumes valid_store: "valid c \<Longrightarrow> valid (store c k v)"
    and valid_touch: "valid c \<Longrightarrow> valid (touch c k)"
    and contents_new: "valid c \<Longrightarrow> contents (store c k v) k = Some v"
    and contents_old: "valid c \<Longrightarrow> k' \<noteq> k \<Longrightarrow> contents (store c k v) k' = Some w \<Longrightarrow> contents c k' = Some w"
    and contents_touch: "valid c \<Longrightarrow> contents (touch c k) k' = contents c k'"
begin

definition act :: "'k \<times> 'v option \<Rightarrow> 'c \<Rightarrow> 'c" where
  "act o1 c = (case snd o1 of None \<Rightarrow> touch c (fst o1) | Some v \<Rightarrow> store c (fst o1) v)"

lemma valid_act: "valid c \<Longrightarrow> valid (act o1 c)"
  by (auto simp: act_def valid_store valid_touch split: option.splits)

lemma valid_acts: "valid c \<Longrightarrow> valid (fold act os c)"
  by (induction os arbitrary: c) (auto simp: valid_act)

lemma contents_act:
  assumes "valid c" "contents (act o1 c) k = Some v"
  shows "o1 = (k, Some v) \<or> contents c k = Some v"
proof (cases "snd o1")
  case None
  with assms show ?thesis by (simp add: act_def contents_touch)
next
  case (Some w)
  with assms contents_new [of c k w] contents_old [of c k "fst o1" w v] show ?thesis
    by (cases "fst o1 = k"; cases o1) (auto simp: act_def)
qed

lemma contents_acts:
  "valid c \<Longrightarrow> contents (fold act os c) k = Some v \<Longrightarrow> (k, Some v) \<in> set os \<or> contents c k = Some v"
proof (induction os arbitrary: c)
  case (Cons o1 os)
  then show ?case using contents_act [of c o1 k v] valid_act [of c o1] by auto
qed simp

end

definition cache_valid :: "(key, entry, 'l) lru_ops \<Rightarrow> (int \<Rightarrow> 'l \<Rightarrow> bool) \<Rightarrow> int \<Rightarrow> 'l Cache \<Rightarrow> bool" where
  "cache_valid K ok n c \<longleftrightarrow> lru_laws K ok \<and> ok n (cL c)"

interpretation zc: forgetful_store "cache_valid K ok n" "\<lambda>c k. fst (lruGet K (cL c) k)"
    "\<lambda>c k v. c\<lparr>cL := lruAdd K (cL c) k v\<rparr>" "\<lambda>c k. c\<lparr>cL := snd (lruGet K (cL c) k)\<rparr>" for K ok n
proof unfold_locales
  fix c k k' v w
  assume v: "cache_valid K ok n c"
  then have L: "lru_laws K ok" "ok n (cL c)" by (auto simp: cache_valid_def)
  show "cache_valid K ok n (c\<lparr>cL := lruAdd K (cL c) k v\<rparr>)" "cache_valid K ok n (c\<lparr>cL := snd (lruGet K (cL c) k)\<rparr>)"
    using L by (auto simp: cache_valid_def intro: lru_Add(1) lru_Get(1))
  show "fst (lruGet K (cL (c\<lparr>cL := lruAdd K (cL c) k v\<rparr>)) k) = Some v"
    using lru_Add(2) [OF L] by simp
  show "fst (lruGet K (cL (c\<lparr>cL := snd (lruGet K (cL c) k)\<rparr>)) k') = fst (lruGet K (cL c) k')"
    using lru_Get(2) [OF L] by simp
  show "fst (lruGet K (cL c) k') = Some w"
    if "k' \<noteq> k" "fst (lruGet K (cL (c\<lparr>cL := lruAdd K (cL c) k v\<rparr>)) k') = Some w"
    using lru_Add(3) [OF L] that by simp
qed

subsection \<open>The operations in terms of the store\<close>

text \<open>What a use of the cache does to the store: nothing, or one store action.\<close>

definition stored :: "unicode \<Rightarrow> cache_op \<Rightarrow> (key \<times> entry option) option" where
  "stored U op =
     (case op of
        GetOp q t z now \<Rightarrow> Some (makeKey U q t z, None)
      | PutOp q t z None now \<Rightarrow> None
      | PutOp q t z (Some m) now \<Rightarrow>
          if answer_ttl m = 0 then None
          else Some (makeKey U q t z, Some \<lparr>eMsg = m, eExpiry = now + capped_ttl (answer_ttl m)\<rparr>))"

lemma min_ttl_eq: "min_ttl t as = Min (insert t (set (map (\<lambda>r. hTtl (rr_hdr r)) as)))"
proof (induction as arbitrary: t)
  case (Cons r rs)
  have "(if hTtl (rr_hdr r) < t then hTtl (rr_hdr r) else t) = min t (hTtl (rr_hdr r))"
    by (auto simp: min_def)
  moreover have "Min (insert (min t x) S) = Min (insert t (insert x S))" if "finite S" for x and S :: "u32 set"
    using that by (cases "S = {}") (simp_all add: min.assoc)
  ultimately show ?case by (simp add: Cons.IH)
qed simp

lemma answer_ttl_le: "a \<in> set (mAnswer m) \<Longrightarrow> answer_ttl m \<le> hTtl (rr_hdr a)"
  by (cases "mAnswer m") (auto simp: answer_ttl_def min_ttl_eq)

lemma Put_eq:
  "zonecache_Put U K c q t z mo now =
     (case stored U (PutOp q t z mo now) of
        Some (k, Some e) \<Rightarrow> c\<lparr>cL := lruAdd K (cL c) k e\<rparr>
      | _ \<Rightarrow> c)"
  by (auto simp: zonecache_Put_def stored_def answer_ttl_def split: option.splits list.splits)

lemma Get_snd: "snd (zonecache_Get U K c q t z now) = c\<lparr>cL := snd (lruGet K (cL c) (makeKey U q t z))\<rparr>"
  by (auto simp: zonecache_Get_def Let_def split: prod.splits option.splits)

lemma cache_step_act:
  "cache_step U K op c = (case stored U op of None \<Rightarrow> c | Some o1 \<Rightarrow> zc.act K o1 c)"
  by (cases op) (auto simp: Put_eq Get_snd zc.act_def stored_def split: option.splits)

lemma cache_run_acts: "cache_run U K ops c = fold (zc.act K) (List.map_filter (stored U) ops) c"
  unfolding cache_run_def
  by (induction ops arbitrary: c) (auto simp: cache_step_act map_filter_simps split: option.splits)

lemma int64_id: "- (2 ^ 63) \<le> n \<Longrightarrow> n < 2 ^ 63 \<Longrightarrow> int64 n = n"
  by (simp add: int64_def)

lemma capped_ttl_eq: "capped_ttl t = min (uint t) 30 * Second"
proof -
  have "uint t < 2 ^ 32" using uint_lt2p [of t] by simp
  moreover have "0 \<le> uint t" by simp
  ultimately have "0 \<le> uint t * Second" "uint t * Second < 2 ^ 63"
    by (simp_all add: Second_def)
  then have "int64 (uint t * Second) = uint t * Second"
    by (intro int64_id) simp_all
  then show ?thesis by (auto simp: capped_ttl_def maxTTL_def Second_def min_def)
qed

lemma Get_Some_iff:
  "fst (zonecache_Get U K c q t z now) = Some r \<longleftrightarrow>
     (\<exists>e. fst (lruGet K (cL c) (makeKey U q t z)) = Some e \<and> now < eExpiry e \<and>
        r = retime (word_of_int (time_Sub (eExpiry e) now div Second)) (eMsg e))"
  by (auto simp: zonecache_Get_def Let_def time_Sub_def split: prod.splits option.splits)

lemma uint_word_of_int_le: "0 \<le> x \<Longrightarrow> uint (word_of_int x :: u32) \<le> x"
  by (simp add: uint_word_of_int zmod_le_nonneg_dividend)

lemma retime_ttl_bound:
  assumes "now < e"
  shows "now + uint (word_of_int (time_Sub e now div Second) :: u32) * Second \<le> e"
proof -
  have "0 \<le> time_Sub e now" "time_Sub e now \<le> e - now" using assms by (auto simp: time_Sub_def)
  moreover have "uint (word_of_int (time_Sub e now div Second) :: u32) \<le> time_Sub e now div Second"
    using calculation by (intro uint_word_of_int_le) (simp add: Second_def pos_imp_zdiv_nonneg_iff)
  moreover have "time_Sub e now div Second * Second \<le> time_Sub e now"
    by (simp add: Second_def)
  moreover have "uint (word_of_int (time_Sub e now div Second) :: u32) * Second \<le> time_Sub e now div Second * Second"
    using calculation(3) by (simp add: Second_def)
  ultimately show ?thesis by linarith
qed

lemma New_valid:
  assumes "lru_laws K ok" "zonecache_New K n = Inr c"
  shows "0 < n \<and> cache_valid K ok n c \<and> (\<forall>k. fst (lruGet K (cL c) k) = None)"
  using assms lru_New [OF assms(1), of n]
  by (auto simp: zonecache_New_def cache_valid_def split: if_splits sum.splits)

lemma stored_Some_put:
  "stored U op = Some (k, Some e) \<Longrightarrow>
     \<exists>q t z m now. op = PutOp q t z (Some m) now \<and> answer_ttl m \<noteq> 0 \<and> k = makeKey U q t z \<and>
       e = \<lparr>eMsg = m, eExpiry = now + min (uint (answer_ttl m)) 30 * Second\<rparr>"
  by (auto simp: stored_def capped_ttl_eq split: cache_op.splits option.splits if_splits)

lemma cache_run_origin:
  assumes "lru_laws K ok" "zonecache_New K n = Inr c"
    and "fst (lruGet K (cL (cache_run U K ops c)) (makeKey U q t z)) = Some e"
  shows "\<exists>q0 m t0. PutOp q0 t z (Some m) t0 \<in> set ops \<and> ToLower U q0 = ToLower U q \<and> answer_ttl m \<noteq> 0 \<and>
    e = \<lparr>eMsg = m, eExpiry = t0 + min (uint (answer_ttl m)) 30 * Second\<rparr>"
proof -
  note new = New_valid [OF assms(1,2)]
  have "(makeKey U q t z, Some e) \<in> set (List.map_filter (stored U) ops)"
    using zc.contents_acts [of K ok n c "List.map_filter (stored U) ops" "makeKey U q t z" e] new assms(3)
    by (auto simp: cache_run_acts)
  then obtain op where "op \<in> set ops" "stored U op = Some (makeKey U q t z, Some e)"
    by (auto simp: map_filter_def)
  with stored_Some_put [of U op "makeKey U q t z" e] show ?thesis
    by (fastforce simp: makeKey_def)
qed

lemma Get_run_origin:
  assumes "lru_laws K ok" "zonecache_New K n = Inr c"
    and "fst (zonecache_Get U K (cache_run U K ops c) q t z now) = Some r"
  shows "\<exists>q0 m t0 ttl. PutOp q0 t z (Some m) t0 \<in> set ops \<and> ToLower U q0 = ToLower U q \<and>
    now < t0 + 30 * Second \<and> r = retime ttl m"
proof -
  obtain e ttl where e: "fst (lruGet K (cL (cache_run U K ops c)) (makeKey U q t z)) = Some e" "now < eExpiry e"
      "r = retime ttl (eMsg e)"
    using assms(3) by (auto simp: Get_Some_iff)
  then obtain q0 m t0 where "PutOp q0 t z (Some m) t0 \<in> set ops" "ToLower U q0 = ToLower U q"
      "e = \<lparr>eMsg = m, eExpiry = t0 + min (uint (answer_ttl m)) 30 * Second\<rparr>"
    using cache_run_origin [OF assms(1,2) e(1)] by blast
  moreover from this e(2) have "now < t0 + 30 * Second"
    by (auto simp: Second_def)
  ultimately show ?thesis
    using e(3) by auto
qed

lemma hit_result:
  assumes "lru_laws K ok" "ok n (cL c)" "answer_ttl m \<noteq> 0" "ToLower U q' = ToLower U q"
    and "t0 \<le> now" "now < t0 + min (uint (answer_ttl m)) 30 * Second"
  shows "fst (zonecache_Get U K (zonecache_Put U K c q t z (Some m) t0) q' t z now) =
      Some (retime (word_of_int ((t0 + min (uint (answer_ttl m)) 30 * Second - now) div Second)) m)"
proof -
  have put: "zonecache_Put U K c q t z (Some m) t0 =
      c\<lparr>cL := lruAdd K (cL c) (makeKey U q t z)
         \<lparr>eMsg = m, eExpiry = t0 + min (uint (answer_ttl m)) 30 * Second\<rparr>\<rparr>"
    using assms(3) by (simp add: Put_eq stored_def capped_ttl_eq)
  have same: "makeKey U q' t z = makeKey U q t z" using assms(4) by (simp add: makeKey_def)
  have "time_Sub (t0 + min (uint (answer_ttl m)) 30 * Second) now =
      t0 + min (uint (answer_ttl m)) 30 * Second - now"
    using assms(5,6) by (auto simp: time_Sub_def Second_def min_def)
  then show ?thesis
    using assms(6) lru_Add(2) [OF assms(1,2)] by (auto simp: Get_Some_iff put same)
qed

lemma miss_or_old:
  assumes "lru_laws K ok" "ok n (cL c)" "makeKey U q2 t2 z2 \<noteq> makeKey U q t z"
    and "fst (zonecache_Get U K (zonecache_Put U K c q t z mo t0) q2 t2 z2 now) = Some r"
  shows "fst (zonecache_Get U K c q2 t2 z2 now) = Some r"
  using assms(4) lru_Add(3) [OF assms(1,2) _ assms(3)]
  by (auto simp: Get_Some_iff Put_eq stored_def split: option.splits if_splits)

subsection \<open>A concrete history\<close>

definition demo_answer :: dns_msg where
  "demo_answer =
     new_msg\<lparr>mId := 7, mResponse := True,
       mAnswer := [RR_A \<lparr>hName = ''pay.io.'', hRrtype = TypeA, hClass = ClassINET, hTtl = 60\<rparr> [10, 0, 0, 1]],
       mNs := [RR_Other \<lparr>hName = ''io.'', hRrtype = 2, hClass = ClassINET, hTtl = 5\<rparr> ''ns'']\<rparr>"

definition demo_ops :: "cache_op list" where
  "demo_ops =
     [PutOp ''Pay.IO.'' TypeA ''zone-a'' (Some demo_answer) 0,
      PutOp ''pay.io.'' TypeA ''zone-b'' (Some (demo_answer\<lparr>mAnswer := []\<rparr>)) Second,
      GetOp ''pay.io.'' TypeA ''zone-b'' (2 * Second)]"

section \<open>Properties\<close>

text \<open>
  Property C13. The cache never crosses zones and never outlives an answer: whatever sequence
  of uses came before, an answer found for a name, type and zone at time \<open>now\<close> is one that
  was put under the same zone, the same type and the same name up to case, its records are
  those records with one new TTL, and that TTL leads no further into the future than the
  answer's own TTLs, or than 30 seconds, counted from the moment it was put. At most the
  configured number of entries is kept.
\<close>

theorem cache_no_crossing:
  assumes "lru_laws K ok" and "zonecache_New K n = Inr c"
    and "fst (zonecache_Get U K (cache_run U K ops c) q t z now) = Some r"
  shows "(\<exists>q0 m t0 ttl. PutOp q0 t z (Some m) t0 \<in> set ops \<and> ToLower U q0 = ToLower U q \<and>
     r = retime ttl m \<and> now < t0 + 30 * Second \<and> now + uint ttl * Second \<le> t0 + 30 * Second \<and>
     (\<forall>a \<in> set (mAnswer m). now < t0 + uint (hTtl (rr_hdr a)) * Second \<and>
        now + uint ttl * Second \<le> t0 + uint (hTtl (rr_hdr a)) * Second)) \<and>
   int (zonecache_Len K (cache_run U K ops c)) \<le> n"
proof
  from assms(3) obtain e where e: "fst (lruGet K (cL (cache_run U K ops c)) (makeKey U q t z)) = Some e"
      "now < eExpiry e" "r = retime (word_of_int (time_Sub (eExpiry e) now div Second)) (eMsg e)"
    by (auto simp: Get_Some_iff)
  let ?ttl = "word_of_int (time_Sub (eExpiry e) now div Second) :: u32"
  obtain q0 m t0 where put: "PutOp q0 t z (Some m) t0 \<in> set ops" "ToLower U q0 = ToLower U q"
      "e = \<lparr>eMsg = m, eExpiry = t0 + min (uint (answer_ttl m)) 30 * Second\<rparr>"
    using cache_run_origin [OF assms(1,2) e(1)] by blast
  have exp: "now + uint ?ttl * Second \<le> eExpiry e" by (rule retime_ttl_bound [OF e(2)])
  have le30: "eExpiry e \<le> t0 + 30 * Second" by (simp add: put(3) Second_def)
  have le: "eExpiry e \<le> t0 + uint (hTtl (rr_hdr a)) * Second" if "a \<in> set (mAnswer m)" for a
  proof -
    have "uint (answer_ttl m) \<le> uint (hTtl (rr_hdr a))"
      using answer_ttl_le [OF that] by (simp add: word_le_def)
    then show ?thesis by (simp add: put(3) Second_def min_def)
  qed
  have "now < t0 + uint (hTtl (rr_hdr a)) * Second \<and>
      now + uint ?ttl * Second \<le> t0 + uint (hTtl (rr_hdr a)) * Second" if "a \<in> set (mAnswer m)" for a
    using le [OF that] exp e(2) by linarith
  moreover have "now < t0 + 30 * Second" "now + uint ?ttl * Second \<le> t0 + 30 * Second"
    using le30 exp e(2) by linarith+
  ultimately show "\<exists>q0 m t0 ttl. PutOp q0 t z (Some m) t0 \<in> set ops \<and> ToLower U q0 = ToLower U q \<and>
     r = retime ttl m \<and> now < t0 + 30 * Second \<and> now + uint ttl * Second \<le> t0 + 30 * Second \<and>
     (\<forall>a \<in> set (mAnswer m). now < t0 + uint (hTtl (rr_hdr a)) * Second \<and>
        now + uint ttl * Second \<le> t0 + uint (hTtl (rr_hdr a)) * Second)"
    using put e(3) by (intro exI [of _ q0] exI [of _ m] exI [of _ t0] exI [of _ ?ttl]) auto
  show "int (zonecache_Len K (cache_run U K ops c)) \<le> n"
    using zc.valid_acts [of K ok n c] New_valid [OF assms(1,2)]
    by (auto simp: zonecache_Len_def cache_run_acts cache_valid_def intro: lru_Len)
qed

theorem cache_no_crossing_witness:
  "\<exists>q0 m t0 ttl. PutOp q0 TypeA ''zone-a'' (Some m) t0 \<in> set demo_ops \<and>
     retime ttl m = retime 20 demo_answer \<and> uint ttl * Second + 10 * Second \<le> t0 + 30 * Second"
proof -
  have new: "zonecache_New lru_ref 8 = Inr \<lparr>cL = (8, [])\<rparr>" by (simp add: zonecache_New_def lru_ref_def)
  have get: "fst (zonecache_Get demo_U lru_ref (cache_run demo_U lru_ref demo_ops \<lparr>cL = (8, [])\<rparr>)
      ''pay.io.'' TypeA ''zone-a'' (10 * Second)) = Some (retime 20 demo_answer)"
    by code_simp
  show ?thesis
    using cache_no_crossing [OF lru_laws_ref new get] by (metis add.commute)
qed

text \<open>
  Property C14. A cached answer is found: after an answer with a positive TTL is put, the same
  question (the name in any case, the same type and zone) asked before it expires gets the
  same records back, with the whole seconds that are left as their TTL. A later question
  under another key finds exactly what it would have found before, or nothing.
\<close>

theorem cache_hit:
  assumes "lru_laws K ok" and "ok n (cL c)" and "answer_ttl m \<noteq> 0" and "ToLower U q' = ToLower U q"
    and "t0 \<le> now" and "now < t0 + min (uint (answer_ttl m)) 30 * Second"
  shows "fst (zonecache_Get U K (zonecache_Put U K c q t z (Some m) t0) q' t z now) =
      Some (retime (word_of_int ((t0 + min (uint (answer_ttl m)) 30 * Second - now) div Second)) m) \<and>
    (makeKey U q2 t2 z2 \<noteq> makeKey U q t z \<longrightarrow>
       fst (zonecache_Get U K (zonecache_Put U K c q t z (Some m) t0) q2 t2 z2 now) = None \<or>
       fst (zonecache_Get U K (zonecache_Put U K c q t z (Some m) t0) q2 t2 z2 now) =
         fst (zonecache_Get U K c q2 t2 z2 now))"
  using hit_result [OF assms, of t z] miss_or_old [OF assms(1,2), of U q2 t2 z2 q t z "Some m" t0 now]
  by (cases "fst (zonecache_Get U K (zonecache_Put U K c q t z (Some m) t0) q2 t2 z2 now)") auto

theorem cache_hit_witness:
  "fst (zonecache_Get demo_U lru_ref (zonecache_Put demo_U lru_ref \<lparr>cL = (8, [])\<rparr> ''Pay.IO.'' TypeA ''zone-a''
      (Some demo_answer) 0) ''pay.io.'' TypeA ''zone-a'' (10 * Second)) = Some (retime 20 demo_answer)"
proof -
  have ttl: "answer_ttl demo_answer = 60" by (simp add: demo_answer_def answer_ttl_def)
  have low: "ToLower demo_U ''pay.io.'' = ToLower demo_U ''Pay.IO.''" by code_simp
  show ?thesis
    using cache_hit [OF lru_laws_ref, of 8 "\<lparr>cL = (8, [])\<rparr>" demo_answer demo_U "''pay.io.''" "''Pay.IO.''" 0
        "10 * Second" TypeA "''zone-a''"]
    by (simp add: ttl low lru_ref_ok_def Second_def)
qed

text \<open>
  The records of the authority and additional sections take no part in the
  expiry, yet they are handed out with the TTL that is left for the answers: a record whose
  own TTL is over, or shorter than what is left for the answers, is served with that longer
  TTL all the same.
\<close>

theorem cache_raises_authority_ttl:
  assumes "lru_laws K ok" and "ok n (cL c)" and "answer_ttl m \<noteq> 0"
    and "t0 \<le> now" and "now < t0 + min (uint (answer_ttl m)) 30 * Second" and "ns \<in> set (mNs m)"
  shows "\<exists>r. fst (zonecache_Get U K (zonecache_Put U K c q t z (Some m) t0) q t z now) = Some r \<and>
    with_ttl (word_of_int ((t0 + min (uint (answer_ttl m)) 30 * Second - now) div Second)) ns \<in> set (mNs r)"
  using assms(6) hit_result [OF assms(1-3) refl assms(4,5)] by (simp add: retime_def)

theorem cache_raises_authority_ttl_witness:
  "\<exists>r ns. fst (zonecache_Get demo_U lru_ref (zonecache_Put demo_U lru_ref \<lparr>cL = (8, [])\<rparr> ''pay.io.'' TypeA
      ''zone-a'' (Some demo_answer) 0) ''pay.io.'' TypeA ''zone-a'' (10 * Second)) = Some r \<and>
    ns \<in> set (mNs demo_answer) \<and> hTtl (rr_hdr ns) = 5 \<and> with_ttl 20 ns \<in> set (mNs r)"
proof -
  have ttl: "answer_ttl demo_answer = 60" by (simp add: demo_answer_def answer_ttl_def)
  have ns: "hd (mNs demo_answer) \<in> set (mNs demo_answer)" "hTtl (rr_hdr (hd (mNs demo_answer))) = 5"
    by (simp_all add: demo_answer_def)
  show ?thesis
    using cache_raises_authority_ttl [OF lru_laws_ref, of 8 "\<lparr>cL = (8, [])\<rparr>" demo_answer 0 "10 * Second"
        "hd (mNs demo_answer)" demo_U "''pay.io.''" TypeA "''zone-a''"] ns
    by (auto simp: ttl lru_ref_ok_def Second_def)
qed

end
