(* ===== verification/Pod_Zone.thy ===== *)
theory Pod_Zone
  imports Netip Edns_Zone
begin

text \<open>
  Package \<open>internal/podzone\<close>: the node's table from pod IP to zone, fed by the events of a
  Kubernetes informer. The informer and the API are not part of this repository: the
  events it delivers are the inputs of the model, in any order and number. Every handler
  and every reader holds the lock for its whole effect on the table, so a run is a
  sequence of whole operations.
\<close>

section \<open>Pods and events\<close>

text \<open>The fields of \<open>corev1.Pod\<close> the package reads.\<close>

record pod =
  pNamespace :: string
  pName :: string
  pHostNetwork :: bool
  pPodIP :: string
  pLabels :: "(string, string) gomap"

text \<open>
  What the informer hands over as \<open>any\<close>: a pod, a \<open>DeletedFinalStateUnknown\<close> with or
  without a pod in it, or something else.
\<close>

datatype kobj = ObjPod pod | ObjTombstone "pod option" | ObjOther

datatype watch_event = EvAdd kobj | EvUpdate kobj kobj | EvDelete kobj

record podKey =
  kNamespace :: string
  kName :: string

definition pod_key :: "pod \<Rightarrow> podKey" where
  "pod_key p = \<lparr>kNamespace = pNamespace p, kName = pName p\<rparr>"

section \<open>The watcher\<close>

record Watcher =
  wNodeName :: string
  wZoneLabel :: string
  wByPod :: "(podKey, addr) gomap"
  wByIP :: "(addr, string) gomap"
  wReady :: bool

definition podzone_New :: "string \<Rightarrow> string \<Rightarrow> Watcher" where
  "podzone_New nodeName zoneLabel =
     \<lparr>wNodeName = nodeName, wZoneLabel = zoneLabel, wByPod = gm_empty, wByIP = gm_empty, wReady = False\<rparr>"

text \<open>The \<open>switch\<close> of \<open>upsert\<close>: the address and zone of a pod that qualifies.\<close>

definition qualifies :: "string \<Rightarrow> pod \<Rightarrow> (addr \<times> string) option" where
  "qualifies zoneLabel p =
     (if pHostNetwork p \<or> pPodIP p = [] then None
      else case gm_get (pLabels p) zoneLabel of
             None \<Rightarrow> None
           | Some z \<Rightarrow>
               if z = [] \<or> \<not> ednszone_Valid z then None
               else case ParseAddr (pPodIP p) of
                      None \<Rightarrow> None
                    | Some ip \<Rightarrow> Some (ip, z))"

definition upsert :: "kobj \<Rightarrow> Watcher \<Rightarrow> Watcher" where
  "upsert obj w =
     (case obj of
        ObjPod p \<Rightarrow>
          (let key = pod_key p; old = gm_get (wByPod w) key in
           case qualifies (wZoneLabel w) p of
             None \<Rightarrow>
               (case old of
                  None \<Rightarrow> w
                | Some oldIP \<Rightarrow> w\<lparr>wByIP := gm_del (wByIP w) oldIP, wByPod := gm_del (wByPod w) key\<rparr>)
           | Some (newIP, zone) \<Rightarrow>
               (let byIP = (case old of
                              None \<Rightarrow> wByIP w
                            | Some oldIP \<Rightarrow> if oldIP \<noteq> newIP then gm_del (wByIP w) oldIP else wByIP w)
                in w\<lparr>wByIP := gm_put byIP newIP zone, wByPod := gm_put (wByPod w) key newIP\<rparr>))
      | _ \<Rightarrow> w)"

definition remove_pod :: "kobj \<Rightarrow> Watcher \<Rightarrow> Watcher" where
  "remove_pod obj w =
     (case (case obj of ObjPod p \<Rightarrow> Some p | ObjTombstone po \<Rightarrow> po | ObjOther \<Rightarrow> None) of
        None \<Rightarrow> w
      | Some p \<Rightarrow>
          (let key = pod_key p in
           case gm_get (wByPod w) key of
             None \<Rightarrow> w
           | Some ip \<Rightarrow> w\<lparr>wByIP := gm_del (wByIP w) ip, wByPod := gm_del (wByPod w) key\<rparr>))"

definition Watcher_Zone :: "Watcher \<Rightarrow> addr \<Rightarrow> string option" where
  "Watcher_Zone w ip = (if \<not> wReady w then None else gm_get (wByIP w) ip)"

definition Watcher_Ready :: "Watcher \<Rightarrow> bool" where
  "Watcher_Ready w = wReady w"

definition Watcher_Len :: "Watcher \<Rightarrow> nat" where
  "Watcher_Len w = gm_len (wByIP w)"

text \<open>The handlers \<open>Run\<close> registers with the informer.\<close>

fun handle_event :: "watch_event \<Rightarrow> Watcher \<Rightarrow> Watcher" where
  "handle_event (EvAdd obj) w = upsert obj w"
| "handle_event (EvUpdate old obj) w = upsert obj w"
| "handle_event (EvDelete obj) w = remove_pod obj w"

text \<open>
  \<open>Run\<close> itself, as the sequence of what happens to it: the constructors of \<open>run_phase\<close> are
  the points its goroutine can stand at, and \<open>Advance\<close> executes the next statement there.
  Lookups and the informer's deliveries are not held up by \<open>Run\<close>, so they may come at every one of
  these points: between \<open>ready = true\<close> and the call of \<open>OnReady\<close>, and between the end of
  the context and \<open>ready = false\<close>. The results of \<open>AddEventHandler\<close> and
  \<open>WaitForCacheSync\<close> are the environment's choice; \<open>WaitForCacheSync\<close> gives up only when the
  context has ended, and may still succeed then. Events may be delivered at every point,
  which includes the orders a real informer keeps to. \<open>rsHook\<close> says that \<open>OnReady\<close> is not
  nil and \<open>rsOnReady\<close> counts its calls.
\<close>

datatype run_error = ErrAddEventHandler | ErrCtx

datatype run_phase =
    Registering    \<comment> \<open>before \<open>AddEventHandler\<close> has returned\<close>
  | WaitingSync    \<comment> \<open>in \<open>WaitForCacheSync\<close>\<close>
  | Synced         \<comment> \<open>before \<open>ready = true\<close>\<close>
  | Announcing     \<comment> \<open>after it, before the test of \<open>OnReady\<close>\<close>
  | Serving        \<comment> \<open>at the receive from \<open>ctx.Done()\<close>\<close>
  | Stopping       \<comment> \<open>after it, before \<open>ready = false\<close>\<close>
  | Returned "run_error option"

record run_state =
  rsWatcher :: Watcher
  rsPhase :: run_phase
  rsCtxDone :: bool
  rsHook :: bool
  rsOnReady :: nat

datatype run_event =
    Deliver watch_event | CtxDone | HandlerAdded | HandlerRefused | CacheSynced | SyncStopped | Advance

fun Watcher_Run :: "run_event \<Rightarrow> run_state \<Rightarrow> run_state" where
  "Watcher_Run (Deliver e) s = s\<lparr>rsWatcher := handle_event e (rsWatcher s)\<rparr>"
| "Watcher_Run CtxDone s = s\<lparr>rsCtxDone := True\<rparr>"
| "Watcher_Run HandlerAdded s = (if rsPhase s = Registering then s\<lparr>rsPhase := WaitingSync\<rparr> else s)"
| "Watcher_Run HandlerRefused s =
     (if rsPhase s = Registering then s\<lparr>rsPhase := Returned (Some ErrAddEventHandler)\<rparr> else s)"
| "Watcher_Run CacheSynced s = (if rsPhase s = WaitingSync then s\<lparr>rsPhase := Synced\<rparr> else s)"
| "Watcher_Run SyncStopped s =
     (if rsPhase s = WaitingSync \<and> rsCtxDone s then s\<lparr>rsPhase := Returned (Some ErrCtx)\<rparr> else s)"
| "Watcher_Run Advance s =
     (case rsPhase s of
        Synced \<Rightarrow> s\<lparr>rsWatcher := (rsWatcher s)\<lparr>wReady := True\<rparr>, rsPhase := Announcing\<rparr>
      | Announcing \<Rightarrow>
          s\<lparr>rsOnReady := (if rsHook s then rsOnReady s + 1 else rsOnReady s), rsPhase := Serving\<rparr>
      | Serving \<Rightarrow> (if rsCtxDone s then s\<lparr>rsPhase := Stopping\<rparr> else s)
      | Stopping \<Rightarrow> s\<lparr>rsWatcher := (rsWatcher s)\<lparr>wReady := False\<rparr>, rsPhase := Returned None\<rparr>
      | _ \<Rightarrow> s)"

definition run_init :: "string \<Rightarrow> string \<Rightarrow> bool \<Rightarrow> run_state" where
  "run_init nodeName zoneLabel hook =
     \<lparr>rsWatcher = podzone_New nodeName zoneLabel, rsPhase = Registering, rsCtxDone = False,
      rsHook = hook, rsOnReady = 0\<rparr>"

text \<open>The points at which \<open>ready\<close> is set, and those the call of \<open>OnReady\<close> lies behind.\<close>

fun answering :: "run_phase \<Rightarrow> bool" where
  "answering Announcing = True"
| "answering Serving = True"
| "answering Stopping = True"
| "answering _ = False"

fun announced :: "run_phase \<Rightarrow> bool" where
  "announced Serving = True"
| "announced Stopping = True"
| "announced (Returned None) = True"
| "announced _ = False"

text \<open>The points that are reached only once the context has ended.\<close>

fun ended :: "run_phase \<Rightarrow> bool" where
  "ended Stopping = True"
| "ended (Returned r) = (r \<noteq> Some ErrAddEventHandler)"
| "ended _ = False"

section \<open>The cluster as the informer reported it\<close>

text \<open>The pods of the node: the last state delivered for every key.\<close>

type_synonym view = "podKey \<Rightarrow> pod option"

fun view_event :: "watch_event \<Rightarrow> view \<Rightarrow> view" where
  "view_event (EvAdd (ObjPod p)) V = V(pod_key p \<mapsto> p)"
| "view_event (EvUpdate old (ObjPod p)) V = V(pod_key p \<mapsto> p)"
| "view_event (EvDelete (ObjPod p)) V = V(pod_key p := None)"
| "view_event (EvDelete (ObjTombstone (Some p))) V = V(pod_key p := None)"
| "view_event _ V = V"

text \<open>Some pod of the node has this address and this zone.\<close>

definition tenant :: "string \<Rightarrow> view \<Rightarrow> addr \<Rightarrow> string \<Rightarrow> bool" where
  "tenant label V ip z \<longleftrightarrow> (\<exists>k p. V k = Some p \<and> qualifies label p = Some (ip, z))"

text \<open>No address belongs to two pods at the same time.\<close>

definition no_sharing :: "string \<Rightarrow> view \<Rightarrow> bool" where
  "no_sharing label V \<longleftrightarrow>
     (\<forall>k k' p p' ip z z'. V k = Some p \<longrightarrow> V k' = Some p' \<longrightarrow> qualifies label p = Some (ip, z) \<longrightarrow>
        qualifies label p' = Some (ip, z') \<longrightarrow> k = k')"

section \<open>Facts\<close>

lemma qualifies_ok: "qualifies label p = Some (ip, z) \<Longrightarrow> ednszone_Valid z \<and> addr_ok ip \<and> IsValid ip"
  using ParseAddr_ok by (auto simp: qualifies_def split: if_splits option.splits)

subsection \<open>The effect of an event\<close>

text \<open>
  Every event that carries a pod replaces what the table holds for one key: the address
  indexed before goes, and the pod's own address and zone, if it qualifies, come in.
\<close>

definition effect :: "podKey \<Rightarrow> (addr \<times> string) option \<Rightarrow> Watcher \<Rightarrow> Watcher \<Rightarrow> bool" where
  "effect k q w w' \<longleftrightarrow>
     (gm_ok (wByIP w) \<longrightarrow> gm_ok (wByIP w')) \<and> (gm_ok (wByPod w) \<longrightarrow> gm_ok (wByPod w')) \<and>
     gm_get (wByPod w') = (gm_get (wByPod w))(k := map_option fst q) \<and>
     (\<forall>ip. gm_get (wByIP w') ip =
        (if map_option fst q = Some ip then map_option snd q
         else if gm_get (wByPod w) k = Some ip then None
         else gm_get (wByIP w) ip))"

lemma upsert_effect: "effect (pod_key p) (qualifies (wZoneLabel w) p) w (upsert (ObjPod p) w)"
  by (auto simp: effect_def upsert_def Let_def fun_eq_iff split: option.splits)

lemma remove_effect:
  "effect (pod_key p) None w (remove_pod (ObjPod p) w)"
  "effect (pod_key p) None w (remove_pod (ObjTombstone (Some p)) w)"
  by (auto simp: effect_def remove_pod_def Let_def fun_eq_iff split: option.splits)

text \<open>An event changes nothing, or it sets one key of the view and has that effect on the table.\<close>

lemma event_effect:
  "(handle_event e w = w \<and> view_event e V = V) \<or>
   (\<exists>k po. view_event e V = V(k := po) \<and>
      effect k (Option.bind po (qualifies (wZoneLabel w))) w (handle_event e w))"
  (is "?idle e \<or> ?acts e")
proof -
  have up: "?acts e" if "view_event e V = V(pod_key p \<mapsto> p)" "handle_event e w = upsert (ObjPod p) w" for p
    using that upsert_effect [of p w] by (intro exI [of _ "pod_key p"] exI [of _ "Some p"]) simp
  have del: "?acts e" if "view_event e V = V(pod_key p := None)" "effect (pod_key p) None w (handle_event e w)" for p
    using that by (intro exI [of _ "pod_key p"] exI [of _ None]) simp
  have objs: "upsert (ObjTombstone po) w = w" "upsert ObjOther w = w" "remove_pod (ObjTombstone None) w = w"
      "remove_pod ObjOther w = w" for po
    by (simp_all add: upsert_def remove_pod_def)
  consider p where "e = EvAdd (ObjPod p)" | p old where "e = EvUpdate old (ObjPod p)"
    | p where "e = EvDelete (ObjPod p)" | p where "e = EvDelete (ObjTombstone (Some p))"
    | "?idle e"
    by (cases "(e, V)" rule: view_event.cases) (auto simp: objs)
  then show ?thesis
  proof cases
    case (1 p)
    then show ?thesis by (intro disjI2 up [of p]) simp_all
  next
    case (2 p old)
    then show ?thesis by (intro disjI2 up [of p]) simp_all
  next
    case (3 p)
    then show ?thesis by (intro disjI2 del [of p]) (simp_all add: remove_effect)
  next
    case (4 p)
    then show ?thesis by (intro disjI2 del [of p]) (simp_all add: remove_effect)
  qed simp
qed

subsection \<open>The invariant of the table\<close>

text \<open>
  The table is well formed: zones are valid on the wire, addresses are real, and every
  address in it is the one some indexed pod is known to occupy.
\<close>

definition watcher_inv :: "Watcher \<Rightarrow> bool" where
  "watcher_inv w \<longleftrightarrow> gm_ok (wByIP w) \<and> gm_ok (wByPod w) \<and>
     (\<forall>ip z. gm_get (wByIP w) ip = Some z \<longrightarrow> ednszone_Valid z \<and> addr_ok ip \<and> IsValid ip \<and>
        (\<exists>k. gm_get (wByPod w) k = Some ip))"

lemma inv_New: "watcher_inv (podzone_New n l)"
  by (simp add: watcher_inv_def podzone_New_def)

lemma inv_effect:
  assumes "watcher_inv w" "effect k q w w'" "\<And>ip z. q = Some (ip, z) \<Longrightarrow> ednszone_Valid z \<and> addr_ok ip \<and> IsValid ip"
  shows "watcher_inv w'"
proof -
  have "ednszone_Valid z \<and> addr_ok ip \<and> IsValid ip \<and> (\<exists>k. gm_get (wByPod w') k = Some ip)"
    if g: "gm_get (wByIP w') ip = Some z" for ip z
  proof (cases "map_option fst q = Some ip")
    case True
    then have "q = Some (ip, z)" using g assms(2) by (cases q) (auto simp: effect_def)
    then have "gm_get (wByPod w') k = Some ip" using assms(2) by (simp add: effect_def)
    with assms(3) [OF \<open>q = Some (ip, z)\<close>] show ?thesis by blast
  next
    case False
    then have old: "gm_get (wByIP w) ip = Some z" "gm_get (wByPod w) k \<noteq> Some ip"
      using g assms(2) by (auto simp: effect_def split: if_splits)
    then obtain k' where "gm_get (wByPod w) k' = Some ip" "k' \<noteq> k"
      using assms(1) by (auto simp: watcher_inv_def)
    then have "gm_get (wByPod w') k' = Some ip" using assms(2) by (simp add: effect_def)
    then show ?thesis using old(1) assms(1) by (auto simp: watcher_inv_def)
  qed
  then show ?thesis using assms(1,2) by (simp add: watcher_inv_def effect_def)
qed

lemma inv_handle [keeps_inv]:
  assumes "watcher_inv w"
  shows "watcher_inv (handle_event e w)"
proof -
  from event_effect [of e w Map.empty] consider "handle_event e w = w"
    | k po where "effect k (Option.bind po (qualifies (wZoneLabel w))) w (handle_event e w)" by blast
  then show ?thesis
  proof cases
    case (2 k po)
    then show ?thesis
      by (rule inv_effect [OF assms]) (auto simp: bind_eq_Some_conv dest: qualifies_ok)
  qed (use assms in simp)
qed

definition run_inv :: "bool \<Rightarrow> run_state \<Rightarrow> bool" where
  "run_inv h s \<longleftrightarrow> watcher_inv (rsWatcher s) \<and> rsHook s = h \<and>
     wReady (rsWatcher s) = answering (rsPhase s) \<and>
     rsOnReady s = (if h \<and> announced (rsPhase s) then 1 else 0) \<and>
     (ended (rsPhase s) \<longrightarrow> rsCtxDone s)"

lemma ready_frame [simp]:
  "wReady (upsert obj w) = wReady w" "wZoneLabel (upsert obj w) = wZoneLabel w"
  "wReady (remove_pod obj w) = wReady w" "wZoneLabel (remove_pod obj w) = wZoneLabel w"
  by (auto simp: upsert_def remove_pod_def Let_def split: kobj.splits option.splits)

lemma handle_frame [simp]:
  "wReady (handle_event e w) = wReady w" "wZoneLabel (handle_event e w) = wZoneLabel w"
  by (cases e; simp)+

lemma inv_ready [simp]: "watcher_inv (w\<lparr>wReady := b\<rparr>) = watcher_inv w"
  by (simp add: watcher_inv_def)

interpretation pz: event_handler Watcher_Run "run_inv h" for h
proof
  fix s e
  assume inv: "run_inv h s"
  show "run_inv h (Watcher_Run e s)"
  proof (cases e)
    case (Deliver ev)
    with inv show ?thesis by (auto simp: run_inv_def intro: inv_handle)
  qed (use inv in \<open>auto simp: run_inv_def split: run_phase.splits\<close>)
qed

lemma run_inv_init: "run_inv h (run_init n l h)"
  by (simp add: run_inv_def run_init_def inv_New) (simp add: podzone_New_def)

text \<open>Once the context has ended, every \<open>Advance\<close> brings a run that answers nearer to its return.\<close>

definition steps_left :: "run_phase \<Rightarrow> nat" where
  "steps_left ph = (case ph of Announcing \<Rightarrow> 3 | Serving \<Rightarrow> 2 | Stopping \<Rightarrow> 1 | _ \<Rightarrow> 0)"

lemma Run_stops:
  assumes "answering (rsPhase s) \<or> rsPhase s = Returned None" "rsCtxDone s" "steps_left (rsPhase s) \<le> count_list later Advance"
  shows "rsPhase (fold Watcher_Run later s) = Returned None"
  using assms
proof (induction later arbitrary: s)
  case (Cons r later)
  let ?s = "Watcher_Run r s"
  have "(answering (rsPhase ?s) \<or> rsPhase ?s = Returned None) \<and> rsCtxDone ?s \<and>
      steps_left (rsPhase ?s) \<le> count_list later Advance"
    using Cons.prems by (cases r; cases "rsPhase s") (auto simp: steps_left_def)
  then show ?case using Cons.IH [of ?s] by simp
qed (auto simp: steps_left_def split: run_phase.splits)

subsection \<open>The table against the view\<close>

definition deliveries :: "run_event list \<Rightarrow> watch_event list" where
  "deliveries res = List.map_filter (\<lambda>r. case r of Deliver e \<Rightarrow> Some e | _ \<Rightarrow> None) res"

definition view_after :: "run_event list \<Rightarrow> view" where
  "view_after res = fold view_event (deliveries res) Map.empty"

text \<open>No address is shared at any moment of a history.\<close>

fun never_shared :: "string \<Rightarrow> view \<Rightarrow> watch_event list \<Rightarrow> bool" where
  "never_shared label V [] = no_sharing label V"
| "never_shared label V (e # es) = (no_sharing label V \<and> never_shared label (view_event e V) es)"

text \<open>\<open>byPod\<close> is exact, and \<open>byIP\<close> is.\<close>

definition indexed :: "view \<Rightarrow> Watcher \<Rightarrow> bool" where
  "indexed V w \<longleftrightarrow>
     (\<forall>k. gm_get (wByPod w) k = map_option fst (Option.bind (V k) (qualifies (wZoneLabel w))))"

definition exact :: "view \<Rightarrow> Watcher \<Rightarrow> bool" where
  "exact V w \<longleftrightarrow> (\<forall>ip z. gm_get (wByIP w) ip = Some z \<longleftrightarrow> tenant (wZoneLabel w) V ip z)"

definition view_ok :: "view \<Rightarrow> bool" where
  "view_ok V \<longleftrightarrow> (\<forall>k p. V k = Some p \<longrightarrow> pod_key p = k)"

lemma view_ok_event: "view_ok V \<Longrightarrow> view_ok (view_event e V)"
  by (induction e V rule: view_event.induct) (auto simp: view_ok_def)

lemma indexed_event:
  assumes "indexed V w"
  shows "indexed (view_event e V) (handle_event e w)"
  using event_effect [of e w V] assms by (auto simp: indexed_def effect_def)

lemma tenant_update:
  "tenant label (V(k := po)) ip z \<longleftrightarrow>
     Option.bind po (qualifies label) = Some (ip, z) \<or>
     (\<exists>k' p. k' \<noteq> k \<and> V k' = Some p \<and> qualifies label p = Some (ip, z))"
  by (auto simp: tenant_def bind_eq_Some_conv)

lemma exact_event:
  assumes "indexed V w" "exact V w" "no_sharing (wZoneLabel w) V" "no_sharing (wZoneLabel w) (view_event e V)"
  shows "exact (view_event e V) (handle_event e w)"
proof -
  from event_effect [of e w V] consider "handle_event e w = w" "view_event e V = V"
    | k po where "view_event e V = V(k := po)"
        "effect k (Option.bind po (qualifies (wZoneLabel w))) w (handle_event e w)" by blast
  then show ?thesis
  proof cases
    case (2 k po)
    let ?l = "wZoneLabel w" and ?q = "Option.bind po (qualifies (wZoneLabel w))"
    have "gm_get (wByIP (handle_event e w)) ip = Some z \<longleftrightarrow> tenant ?l (V(k := po)) ip z" for ip z
    proof -
      consider (new) z' where "?q = Some (ip, z')"
        | (gone) "map_option fst ?q \<noteq> Some ip" "gm_get (wByPod w) k = Some ip"
        | (kept) "map_option fst ?q \<noteq> Some ip" "gm_get (wByPod w) k \<noteq> Some ip"
        by (cases ?q; cases "map_option fst ?q = Some ip"; cases "gm_get (wByPod w) k = Some ip") auto
      then show ?thesis
      proof cases
        case new
        then obtain p0 where p0: "po = Some p0" "qualifies ?l p0 = Some (ip, z')"
          by (auto simp: bind_eq_Some_conv)
        have "k' = k" if "V k' = Some p" "qualifies ?l p = Some (ip, z)" for k' p
          using assms(4) p0 that unfolding 2(1) no_sharing_def by (metis fun_upd_same fun_upd_other)
        then have "tenant ?l (V(k := po)) ip z \<longleftrightarrow> z = z'"
          using new unfolding tenant_update by auto
        then show ?thesis using 2(2) new by (auto simp: effect_def)
      next
        case gone
        then obtain p z0 where "V k = Some p" "qualifies ?l p = Some (ip, z0)"
          using assms(1) by (auto simp: indexed_def bind_eq_Some_conv)
        then have "\<not> tenant ?l (V(k := po)) ip z"
          using assms(3) gone(1) unfolding tenant_update no_sharing_def by fastforce
        then show ?thesis using 2(2) gone by (auto simp: effect_def)
      next
        case kept
        then have "tenant ?l (V(k := po)) ip z \<longleftrightarrow> tenant ?l V ip z"
          using assms(1) tenant_update [of ?l V k "V k" ip z] tenant_update [of ?l V k po ip z]
          by (auto simp: indexed_def)
        then show ?thesis using 2(2) kept assms(2) by (auto simp: effect_def exact_def)
      qed
    qed
    then show ?thesis using 2(1) by (simp add: exact_def)
  qed (use assms in simp)
qed

lemma Run_tables:
  "(\<forall>e. r \<noteq> Deliver e) \<Longrightarrow>
     wByIP (rsWatcher (Watcher_Run r s)) = wByIP (rsWatcher s) \<and>
     wByPod (rsWatcher (Watcher_Run r s)) = wByPod (rsWatcher s) \<and>
     wZoneLabel (rsWatcher (Watcher_Run r s)) = wZoneLabel (rsWatcher s)"
  by (cases r) (auto split: run_phase.splits)

lemma Run_indexed:
  "indexed V (rsWatcher s) \<Longrightarrow>
     indexed (fold view_event (deliveries res) V) (rsWatcher (fold Watcher_Run res s))"
proof (induction res arbitrary: V s)
  case (Cons r res)
  show ?case
  proof (cases r)
    case (Deliver e)
    with Cons show ?thesis by (simp add: deliveries_def map_filter_simps indexed_event)
  qed (use Cons Run_tables [of r s] in \<open>auto simp: deliveries_def map_filter_simps indexed_def split: run_phase.splits\<close>)
qed (simp add: deliveries_def map_filter_simps)

lemma Run_exact:
  "indexed V (rsWatcher s) \<Longrightarrow> exact V (rsWatcher s) \<Longrightarrow>
   never_shared (wZoneLabel (rsWatcher s)) V (deliveries res) \<Longrightarrow>
     exact (fold view_event (deliveries res) V) (rsWatcher (fold Watcher_Run res s))"
proof (induction res arbitrary: V s)
  case (Cons r res)
  show ?case
  proof (cases r)
    case (Deliver e)
    have "no_sharing (wZoneLabel (rsWatcher s)) (view_event e V)"
      using Cons.prems(3) Deliver by (cases "deliveries res") (auto simp: deliveries_def map_filter_simps)
    with Cons Deliver show ?thesis
      by (auto simp: deliveries_def map_filter_simps indexed_event exact_event)
  qed (use Cons Run_tables [of r s] in
      \<open>auto simp: deliveries_def map_filter_simps indexed_def exact_def split: run_phase.splits\<close>)
qed (simp add: deliveries_def map_filter_simps)

lemma Run_label [simp]: "wZoneLabel (rsWatcher (fold Watcher_Run res s)) = wZoneLabel (rsWatcher s)"
proof (induction res arbitrary: s)
  case (Cons r res)
  then show ?case by (cases r) (auto split: run_phase.splits)
qed simp

lemma init_simps [simp]: "indexed Map.empty (rsWatcher (run_init n l h))" "exact Map.empty (rsWatcher (run_init n l h))"
  "wZoneLabel (rsWatcher (run_init n l h)) = l"
  by (auto simp: indexed_def exact_def run_init_def podzone_New_def tenant_def)

subsection \<open>Resynchronisation\<close>

definition resync :: "pod list \<Rightarrow> run_event list" where
  "resync ps = map (\<lambda>p. Deliver (EvUpdate (ObjPod p) (ObjPod p))) ps"

text \<open>Delivering the pods again restores every address, as long as no address is shared.\<close>

lemma resync_restores:
  assumes "indexed V w" "no_sharing (wZoneLabel w) V" "view_ok V" "set ps \<subseteq> ran V"
  shows "indexed V (fold (\<lambda>p. upsert (ObjPod p)) ps w) \<and>
    (\<forall>p \<in> set ps. \<forall>ip z. qualifies (wZoneLabel w) p = Some (ip, z) \<longrightarrow>
       gm_get (wByIP (fold (\<lambda>p. upsert (ObjPod p)) ps w)) ip = Some z)"
  using assms(4)
proof (induction ps rule: rev_induct)
  case (snoc p ps)
  let ?w = "fold (\<lambda>p. upsert (ObjPod p)) ps w"
  have label: "wZoneLabel (fold (\<lambda>p. upsert (ObjPod p)) qs v) = wZoneLabel v" for qs v
    by (induction qs arbitrary: v) auto
  have Vp: "V (pod_key p) = Some p" using snoc.prems assms(3) by (auto simp: ran_def view_ok_def)
  have IH: "indexed V ?w"
      "\<And>p ip z. p \<in> set ps \<Longrightarrow> qualifies (wZoneLabel w) p = Some (ip, z) \<Longrightarrow> gm_get (wByIP ?w) ip = Some z"
    using snoc by auto
  have eff: "effect (pod_key p) (qualifies (wZoneLabel w) p) ?w (upsert (ObjPod p) ?w)"
    using upsert_effect [of p ?w] by (simp add: label)
  have idx: "gm_get (wByPod ?w) (pod_key p) = map_option fst (qualifies (wZoneLabel w) p)"
    using IH(1) Vp by (simp add: indexed_def label)
  have "indexed V (upsert (ObjPod p) ?w)"
    using indexed_event [OF IH(1), of "EvAdd (ObjPod p)"] Vp by (simp add: fun_upd_idem)
  moreover have "gm_get (wByIP (upsert (ObjPod p) ?w)) ip = Some z"
    if "p' \<in> set (ps @ [p])" "qualifies (wZoneLabel w) p' = Some (ip, z)" for p' ip z
  proof (cases "p' = p")
    case True
    then show ?thesis using eff that by (simp add: effect_def)
  next
    case False
    then have "V (pod_key p') = Some p'" "p' \<in> set ps"
      using that snoc.prems assms(3) by (auto simp: ran_def view_ok_def)
    with False Vp have "map_option fst (qualifies (wZoneLabel w) p) \<noteq> Some ip"
      using assms(2) that(2) unfolding no_sharing_def by fastforce
    then show ?thesis using eff IH(2) [OF \<open>p' \<in> set ps\<close> that(2)] idx by (auto simp: effect_def)
  qed
  ultimately show ?case by auto
qed (use assms in simp)

lemma Run_resync:
  "rsWatcher (fold Watcher_Run (resync ps) s) = fold (\<lambda>p. upsert (ObjPod p)) ps (rsWatcher s) \<and>
   rsPhase (fold Watcher_Run (resync ps) s) = rsPhase s"
  by (induction ps arbitrary: s) (auto simp: resync_def)

lemma view_ok_after: "view_ok (view_after res)"
proof -
  have "view_ok (fold view_event es V)" if "view_ok V" for es V
    using that by (induction es arbitrary: V) (auto simp: view_ok_event)
  moreover have "view_ok Map.empty" by (simp add: view_ok_def)
  ultimately show ?thesis by (simp add: view_after_def)
qed

subsection \<open>A concrete node\<close>

definition demo_pod :: "string \<Rightarrow> string \<Rightarrow> pod" where
  "demo_pod name zone =
     \<lparr>pNamespace = ''ns'', pName = name, pHostNetwork = False, pPodIP = ''10.0.0.1'', pLabels = [(''zone'', zone)]\<rparr>"

lemma demo_addr: "ParseAddr ''10.0.0.1'' = Some (Addr4 10 0 0 1)"
proof -
  have "parse_v4_fields 0 0 [] ''10.0.0.1'' = Some [10, 0, 0, 1]" by code_simp
  moreover have "ParseAddr ''10.0.0.1'' = parseIPv4 ''10.0.0.1''" by (simp add: ParseAddr_def)
  ultimately show ?thesis by (simp add: parseIPv4_def)
qed

lemma demo_qualifies:
  "qualifies ''zone'' (demo_pod name ''zone-a'') = Some (Addr4 10 0 0 1, ''zone-a'')"
  "qualifies ''zone'' (demo_pod name ''zone-b'') = Some (Addr4 10 0 0 1, ''zone-b'')"
proof -
  have v: "ednszone_Valid ''zone-a''" "ednszone_Valid ''zone-b''" by code_simp+
  show "qualifies ''zone'' (demo_pod name ''zone-a'') = Some (Addr4 10 0 0 1, ''zone-a'')"
    "qualifies ''zone'' (demo_pod name ''zone-b'') = Some (Addr4 10 0 0 1, ''zone-b'')"
    using demo_addr v by (simp_all add: qualifies_def demo_pod_def gm_get_def)
qed

lemma no_sharing_single: "no_sharing l [k \<mapsto> p]" "no_sharing l Map.empty"
  by (auto simp: no_sharing_def split: if_splits)

text \<open>A pod that changes its zone label, and the race over a reused address.\<close>

definition demo_relabel :: "run_event list" where
  "demo_relabel =
     [HandlerAdded, Deliver (EvAdd (ObjPod (demo_pod ''a'' ''zone-a''))), CacheSynced, Advance, Advance,
      Deliver (EvUpdate ObjOther (ObjPod (demo_pod ''a'' ''zone-b'')))]"

definition demo_race :: "run_event list" where
  "demo_race =
     [HandlerAdded, Deliver (EvAdd (ObjPod (demo_pod ''a'' ''zone-a''))), CacheSynced, Advance, Advance,
      Deliver (EvAdd (ObjPod (demo_pod ''b'' ''zone-b''))),
      Deliver (EvDelete (ObjPod (demo_pod ''a'' ''zone-a'')))]"

lemma demo_relabel_facts:
  "never_shared ''zone'' Map.empty (deliveries demo_relabel)"
  "tenant ''zone'' (view_after demo_relabel) (Addr4 10 0 0 1) ''zone-b''"
  "rsPhase (fold Watcher_Run demo_relabel (run_init ''node'' ''zone'' True)) = Serving"
proof -
  have V: "view_after demo_relabel = [pod_key (demo_pod ''a'' ''zone-b'') \<mapsto> demo_pod ''a'' ''zone-b'']"
    by (simp add: view_after_def deliveries_def map_filter_simps demo_relabel_def demo_pod_def pod_key_def)
  show "never_shared ''zone'' Map.empty (deliveries demo_relabel)"
    using no_sharing_single
    by (simp add: deliveries_def map_filter_simps demo_relabel_def demo_pod_def pod_key_def)
  show "tenant ''zone'' (view_after demo_relabel) (Addr4 10 0 0 1) ''zone-b''"
    unfolding V tenant_def using demo_qualifies(2) by (meson fun_upd_same)
  show "rsPhase (fold Watcher_Run demo_relabel (run_init ''node'' ''zone'' True)) = Serving"
    by (simp add: demo_relabel_def run_init_def)
qed

lemma Watcher_Zone_tenant:
  assumes "never_shared l Map.empty (deliveries res)"
  shows "Watcher_Zone (rsWatcher (fold Watcher_Run res (run_init n l h))) ip = Some z \<longleftrightarrow>
    answering (rsPhase (fold Watcher_Run res (run_init n l h))) \<and> tenant l (view_after res) ip z"
proof -
  have "exact (view_after res) (rsWatcher (fold Watcher_Run res (run_init n l h)))"
    unfolding view_after_def using assms by (intro Run_exact) simp_all
  then show ?thesis
    using pz.run_inv [OF run_inv_init, of h res n l] by (auto simp: exact_def Watcher_Zone_def run_inv_def)
qed

section \<open>Properties\<close>

text \<open>
  Property C22. At every moment of every run, whatever the informer delivers, whatever
  \<open>AddEventHandler\<close> and \<open>WaitForCacheSync\<close> return and whenever the context ends: a zone is
  answered only after \<open>ready\<close> was set behind the cache sync and before it was cleared, it can
  be carried on the wire and its address belongs to a pod the watcher has indexed;
  \<open>OnReady\<close>, when it is set, has been called exactly once in a run that has passed the
  announcement and never in another (a run still waiting, or one that returned an
  error), and never when it is nil; \<open>Run\<close> gives up its table only after the context has
  ended; and once it has ended a run that answers stops answering and returns nil in at
  most three more statements, whatever is delivered between them.
\<close>

theorem Watcher_safe:
  assumes "s = fold Watcher_Run res (run_init n l h)"
  shows "(Watcher_Zone (rsWatcher s) ip = Some z \<longrightarrow> answering (rsPhase s) \<and> ednszone_Valid z \<and>
        addr_ok ip \<and> IsValid ip \<and> (\<exists>k. gm_get (wByPod (rsWatcher s)) k = Some ip)) \<and>
    rsOnReady s = (if h \<and> announced (rsPhase s) then 1 else 0) \<and>
    (ended (rsPhase s) \<longrightarrow> rsCtxDone s) \<and>
    (answering (rsPhase s) \<and> rsCtxDone s \<and> 3 \<le> count_list later Advance \<longrightarrow>
       rsPhase (fold Watcher_Run later s) = Returned None \<and>
       (\<forall>a. Watcher_Zone (rsWatcher (fold Watcher_Run later s)) a = None))"
proof -
  have inv: "run_inv h s" using pz.run_inv [OF run_inv_init] assms by blast
  have "answering (rsPhase s) \<and> rsCtxDone s \<and> 3 \<le> count_list later Advance \<longrightarrow>
      rsPhase (fold Watcher_Run later s) = Returned None"
    using Run_stops [of s later] by (auto simp: steps_left_def split: run_phase.splits)
  moreover have "Watcher_Zone (rsWatcher (fold Watcher_Run later s)) a = None"
    if "rsPhase (fold Watcher_Run later s) = Returned None" for a
    using that pz.run_inv [OF inv, of later] by (simp add: run_inv_def Watcher_Zone_def)
  ultimately show ?thesis
    using inv by (auto simp: run_inv_def watcher_inv_def Watcher_Zone_def split: if_splits)
qed

theorem Watcher_safe_witness:
  "rsOnReady (fold Watcher_Run demo_relabel (run_init ''node'' ''zone'' True)) = 1 \<and>
   rsPhase (fold Watcher_Run [CtxDone, Advance, Advance, Advance]
     (fold Watcher_Run demo_relabel (run_init ''node'' ''zone'' True))) = Returned None"
proof -
  let ?s = "fold Watcher_Run demo_relabel (run_init ''node'' ''zone'' True)"
  have "rsPhase ?s = Serving" by (rule demo_relabel_facts(3))
  then show ?thesis
    using Watcher_safe [of ?s demo_relabel "''node''" "''zone''" True]
      Watcher_safe [of "Watcher_Run CtxDone ?s" "demo_relabel @ [CtxDone]" "''node''" "''zone''" True _ _
        "[Advance, Advance, Advance]"]
    by simp
qed

text \<open>
  Property C11. As long as no two pods hold one address at the same time, the table is exact:
  while serving, the zone it gives for an address is the zone of the one pod of the node
  that has this address now, through every change of address or label and every deletion;
  an address no qualifying pod holds has no zone.
\<close>

theorem Watcher_exact:
  assumes "never_shared l Map.empty (deliveries res)"
  shows "Watcher_Zone (rsWatcher (fold Watcher_Run res (run_init n l h))) ip = Some z \<longleftrightarrow>
    answering (rsPhase (fold Watcher_Run res (run_init n l h))) \<and> tenant l (view_after res) ip z"
  by (rule Watcher_Zone_tenant [OF assms])

theorem Watcher_exact_witness:
  "Watcher_Zone (rsWatcher (fold Watcher_Run demo_relabel (run_init ''node'' ''zone'' True))) (Addr4 10 0 0 1) =
     Some ''zone-b''"
  using Watcher_exact [OF demo_relabel_facts(1), of "''node''" True "Addr4 10 0 0 1" "''zone-b''"]
  by (simp only: demo_relabel_facts(2,3) answering.simps simp_thms)

text \<open>
  Property C12. A resync heals the table: after any history at all, races over a reused
  address included, delivering every pod of the node once more makes it exact again,
  provided no two of the pods now hold one address.
\<close>

theorem Watcher_resync_heals:
  assumes "no_sharing l (view_after res)" and "set ps = ran (view_after res)"
  shows "Watcher_Zone (rsWatcher (fold Watcher_Run (res @ resync ps) (run_init n l h))) ip = Some z \<longleftrightarrow>
    answering (rsPhase (fold Watcher_Run res (run_init n l h))) \<and> tenant l (view_after res) ip z"
proof -
  let ?V = "view_after res" and ?s = "fold Watcher_Run res (run_init n l h)"
  let ?w = "fold (\<lambda>p. upsert (ObjPod p)) ps (rsWatcher ?s)"
  have idx: "indexed ?V (rsWatcher ?s)"
    unfolding view_after_def by (rule Run_indexed) simp
  have re: "indexed ?V ?w"
      "\<And>p ip z. p \<in> ran ?V \<Longrightarrow> qualifies l p = Some (ip, z) \<Longrightarrow> gm_get (wByIP ?w) ip = Some z"
    using resync_restores [OF idx _ view_ok_after, of ps] assms by auto
  have inv: "run_inv h (fold Watcher_Run (res @ resync ps) (run_init n l h))"
    by (rule pz.run_inv [OF run_inv_init])
  have w: "rsWatcher (fold Watcher_Run (res @ resync ps) (run_init n l h)) = ?w"
    and ph: "rsPhase (fold Watcher_Run (res @ resync ps) (run_init n l h)) = rsPhase ?s"
    using Run_resync [of ps ?s] by auto
  have label: "wZoneLabel ?w = l" using Run_label [of "res @ resync ps" "run_init n l h"] by (simp only: w init_simps)
  have "gm_get (wByIP ?w) ip = Some z \<longleftrightarrow> tenant l ?V ip z"
  proof
    assume g: "gm_get (wByIP ?w) ip = Some z"
    then obtain k where "gm_get (wByPod ?w) k = Some ip" using inv w by (auto simp: run_inv_def watcher_inv_def)
    then obtain p z' where p: "?V k = Some p" "qualifies l p = Some (ip, z')"
      using re(1) label by (auto simp: indexed_def bind_eq_Some_conv)
    then have "gm_get (wByIP ?w) ip = Some z'" using re(2) by (auto intro: ranI)
    with g p show "tenant l ?V ip z" by (auto simp: tenant_def)
  next
    assume "tenant l ?V ip z"
    then show "gm_get (wByIP ?w) ip = Some z" using re(2) by (auto simp: tenant_def intro: ranI)
  qed
  then show ?thesis using inv w ph by (auto simp: Watcher_Zone_def run_inv_def)
qed

theorem Watcher_resync_heals_witness:
  "Watcher_Zone (rsWatcher (fold Watcher_Run (demo_race @ resync [demo_pod ''b'' ''zone-b''])
     (run_init ''node'' ''zone'' True))) (Addr4 10 0 0 1) = Some ''zone-b''"
proof -
  have V: "view_after demo_race = [pod_key (demo_pod ''b'' ''zone-b'') \<mapsto> demo_pod ''b'' ''zone-b'']"
    by (simp add: view_after_def deliveries_def map_filter_simps demo_race_def demo_pod_def pod_key_def fun_upd_twist)
  have "tenant ''zone'' (view_after demo_race) (Addr4 10 0 0 1) ''zone-b''"
    unfolding V tenant_def using demo_qualifies(2) by (meson fun_upd_same)
  moreover have "rsPhase (fold Watcher_Run demo_race (run_init ''node'' ''zone'' True)) = Serving"
    by (simp add: demo_race_def run_init_def)
  moreover have "no_sharing ''zone'' (view_after demo_race)"
      "set [demo_pod ''b'' ''zone-b''] = ran (view_after demo_race)"
    by (simp_all add: V no_sharing_single)
  ultimately show ?thesis
    using Watcher_resync_heals [of "''zone''" demo_race "[demo_pod ''b'' ''zone-b'']" "''node''" True "Addr4 10 0 0 1"
        "''zone-b''"]
    by (simp only: answering.simps simp_thms)
qed

text \<open>
  Property C40. Two pods that hold one address at the same time (a finished pod keeps its
  \<open>PodIP\<close>, which the node may give to a new pod) are not told apart: the zone is that of
  the pod whose event came last, whichever it is, so a resync may bring the zone of the
  finished pod back; and deleting that pod removes the zone of the pod that is running.
\<close>

theorem shared_address_last_wins:
  assumes "pod_key p \<noteq> pod_key p'" and "qualifies (wZoneLabel w) p = Some (ip, z)"
    and "qualifies (wZoneLabel w) p' = Some (ip, z')" and "wReady w"
  shows "Watcher_Zone (upsert (ObjPod p) (upsert (ObjPod p') w)) ip = Some z \<and>
    Watcher_Zone (upsert (ObjPod p') (upsert (ObjPod p) w)) ip = Some z' \<and>
    Watcher_Zone (remove_pod (ObjPod p) (upsert (ObjPod p') (upsert (ObjPod p) w))) ip = None"
proof -
  have "effect (pod_key p) (Some (ip, z)) v (upsert (ObjPod p) v)"
    "effect (pod_key p') (Some (ip, z')) v (upsert (ObjPod p') v)" if "wZoneLabel v = wZoneLabel w" for v
    using upsert_effect [of p v] upsert_effect [of p' v] that assms(2,3) by simp_all
  then have e: "effect (pod_key p) (Some (ip, z)) w (upsert (ObjPod p) w)"
    "effect (pod_key p') (Some (ip, z')) (upsert (ObjPod p) w) (upsert (ObjPod p') (upsert (ObjPod p) w))"
    "effect (pod_key p) (Some (ip, z)) (upsert (ObjPod p') w) (upsert (ObjPod p) (upsert (ObjPod p') w))"
    by simp_all
  with remove_effect(1) [of p "upsert (ObjPod p') (upsert (ObjPod p) w)"] assms show ?thesis
    by (auto simp: Watcher_Zone_def effect_def)
qed

theorem shared_address_last_wins_witness:
  "Watcher_Zone (remove_pod (ObjPod (demo_pod ''a'' ''zone-a'')) (upsert (ObjPod (demo_pod ''b'' ''zone-b''))
      (upsert (ObjPod (demo_pod ''a'' ''zone-a'')) ((podzone_New ''node'' ''zone'')\<lparr>wReady := True\<rparr>))))
    (Addr4 10 0 0 1) = None"
proof -
  have k: "pod_key (demo_pod ''a'' ''zone-a'') \<noteq> pod_key (demo_pod ''b'' ''zone-b'')"
    by (simp add: pod_key_def demo_pod_def)
  show ?thesis
    using shared_address_last_wins [OF k, of "(podzone_New ''node'' ''zone'')\<lparr>wReady := True\<rparr>"]
      demo_qualifies(1) [of "''a''"] demo_qualifies(2) [of "''b''"]
    by (simp add: podzone_New_def)
qed

end
