(* ===== verification/Agent.thy ===== *)
theory Agent
  imports Zone_Cache Pod_Zone Transport
begin

text \<open>
  Package \<open>plugin/zonedns_agent\<close>, files \<open>agent.go\<close>, \<open>resolver.go\<close> and \<open>metrics.go\<close>: the
  node-side handler. It determines the zone of the asking workload from the source
  address, answers from the zone-keyed cache when it can, and otherwise forwards the query
  to central with the zone declared.

  The upstream is a parameter: a function of its own state, the context and the query that
  returns an error or an answer. The zone resolver is the function \<open>Zone\<close> of the interface
  \<open>ZoneResolver\<close> at the moment of the query; both of its implementations are below.
\<close>

section \<open>Zone resolvers\<close>

type_synonym resolver = "addr \<Rightarrow> string option"

record StaticResolver =
  srZone :: string

definition NewStaticResolver :: "string \<Rightarrow> StaticResolver" where
  "NewStaticResolver zone = \<lparr>srZone = zone\<rparr>"

definition StaticResolver_Zone :: "StaticResolver \<Rightarrow> resolver" where
  "StaticResolver_Zone s src = (if srZone s = [] then None else Some (srZone s))"

section \<open>The handler\<close>

record agent_metrics =
  zoneResolutionTotal :: "string \<Rightarrow> nat"
  cacheTotal :: "string \<Rightarrow> nat"
  upstreamErrorsTotal :: nat

definition inc_zoneResolution :: "string \<Rightarrow> agent_metrics \<Rightarrow> agent_metrics" where
  "inc_zoneResolution l M = M\<lparr>zoneResolutionTotal := (zoneResolutionTotal M)(l := Suc (zoneResolutionTotal M l))\<rparr>"

definition inc_cache :: "string \<Rightarrow> agent_metrics \<Rightarrow> agent_metrics" where
  "inc_cache l M = M\<lparr>cacheTotal := (cacheTotal M)(l := Suc (cacheTotal M l))\<rparr>"

definition inc_upstreamErrors :: "agent_metrics \<Rightarrow> agent_metrics" where
  "inc_upstreamErrors M = M\<lparr>upstreamErrorsTotal := Suc (upstreamErrorsTotal M)\<rparr>"

record Agent =
  aResolver :: resolver
  aEDNS0Code :: u16
  aNodeIP :: addr

text \<open>What the handler changes: the cache, the upstream and the counters.\<close>

record ('l, 'u) agent_state =
  sCache :: "'l Cache"
  sUpstream :: 'u
  sMetrics :: agent_metrics

type_synonym ('u, 'e) upstream = "'u \<Rightarrow> go_context \<Rightarrow> dns_msg \<Rightarrow> ('e + dns_msg) \<times> 'u"

definition resolveZone :: "Agent \<Rightarrow> string \<Rightarrow> agent_metrics \<Rightarrow> string option \<times> agent_metrics" where
  "resolveZone a srcIP M =
     (case ParseAddr srcIP of
        None \<Rightarrow> (None, inc_zoneResolution ''bad_source'' M)
      | Some src \<Rightarrow>
          if IsValid (aNodeIP a) \<and> src = aNodeIP a then (None, inc_zoneResolution ''node_ip'' M)
          else (case aResolver a src of
                  None \<Rightarrow> (None, inc_zoneResolution ''unknown'' M)
                | Some zone \<Rightarrow> (Some zone, inc_zoneResolution ''ok'' M)))"

text \<open>
  \<open>stripZoneOption\<close> edits the option list of the record \<open>IsEdns0\<close> returns with the loop
  \<open>ednszone.Set\<close> also has.
\<close>

definition stripZoneOption :: "dnslib \<Rightarrow> dns_msg \<Rightarrow> u16 \<Rightarrow> dns_msg" where
  "stripZoneOption L m code =
     (case IsEdns0 L m of
        None \<Rightarrow> m
      | Some i \<Rightarrow> set_options m i (kept_options code (opt_options m i)))"

fun answers_loop :: "unicode \<Rightarrow> question list \<Rightarrow> question list \<Rightarrow> bool" where
  "answers_loop U (q # qs) (a # as) =
     (if \<not> EqualFold U (qName q) (qName a) \<or> qQtype q \<noteq> qQtype a \<or> qQclass q \<noteq> qQclass a then False
      else answers_loop U qs as)"
| "answers_loop U _ _ = True"

definition answersQuestion :: "unicode \<Rightarrow> dns_msg \<Rightarrow> dns_msg \<Rightarrow> bool" where
  "answersQuestion U outbound answer =
     (if length (mQuestion answer) \<noteq> length (mQuestion outbound) then False
      else answers_loop U (mQuestion outbound) (mQuestion answer))"

text \<open>
  \<open>SetReply\<close> under the answer's own response code, and the write: the common end of the
  two paths that answer.
\<close>

definition reply_with :: "dnslib \<Rightarrow> writer \<Rightarrow> dns_msg \<Rightarrow> dns_msg \<Rightarrow> writer" where
  "reply_with L w r m = WriteMsg w ((SetReply L m r)\<lparr>mRcode := mRcode m\<rparr>)"

text \<open>
  The query that goes out. \<^const>\<open>None\<close> is the nil dereference in \<open>ednszone.Set\<close>, which a
  DNS library with the documented behaviour excludes.
\<close>

definition agent_outbound :: "dnslib \<Rightarrow> u16 \<Rightarrow> string option \<Rightarrow> dns_msg \<Rightarrow> dns_msg option" where
  "agent_outbound L code zo r =
     (let outbound = stripZoneOption L r code in
      case zo of
        None \<Rightarrow> Some outbound
      | Some zone \<Rightarrow> ednszone_Set L outbound code zone)"

definition zone_key :: "string option \<Rightarrow> string" where
  "zone_key zo = (case zo of None \<Rightarrow> [] | Some z \<Rightarrow> z)"

definition agent_ServeDNS ::
  "dnslib \<Rightarrow> reqlib \<Rightarrow> unicode \<Rightarrow> (key, entry, 'l) lru_ops \<Rightarrow> ('u, 'e) upstream \<Rightarrow> Agent \<Rightarrow>
   go_context \<Rightarrow> writer \<Rightarrow> dns_msg \<Rightarrow> int \<Rightarrow> ('l, 'u) agent_state \<Rightarrow>
   ((int \<times> string option) \<times> writer \<times> ('l, 'u) agent_state) option" where
  "agent_ServeDNS L Q U K X a ctx w r now s =
     (let (zo, M1) = resolveZone a (wRemoteIP w) (sMetrics s);
          zone = zone_key zo
      in case zonecache_Get U K (sCache s) (reqName Q r) (reqQType Q r) zone now of
           (Some cached, c1) \<Rightarrow>
             Some ((RcodeSuccess, None), reply_with L w r cached,
                   s\<lparr>sCache := c1, sMetrics := inc_cache ''hit'' M1\<rparr>)
         | (None, c1) \<Rightarrow>
             (let M2 = inc_cache ''miss'' M1 in
              case agent_outbound L (aEDNS0Code a) zo r of
                None \<Rightarrow> None
              | Some outbound \<Rightarrow>
                  (case X (sUpstream s) ctx outbound of
                     (Inl err, u) \<Rightarrow>
                       Some ((RcodeServerFailure, None), w,
                             s\<lparr>sCache := c1, sUpstream := u, sMetrics := inc_upstreamErrors M2\<rparr>)
                   | (Inr answer, u) \<Rightarrow>
                       if \<not> answersQuestion U outbound answer then
                         Some ((RcodeServerFailure, None), w,
                               s\<lparr>sCache := c1, sUpstream := u, sMetrics := inc_upstreamErrors M2\<rparr>)
                       else
                         Some ((RcodeSuccess, None), reply_with L w r answer,
                               s\<lparr>sCache := zonecache_Put U K c1 (reqName Q r) (reqQType Q r) zone (Some answer) now,
                                 sUpstream := u, sMetrics := M2\<rparr>))))"

section \<open>Facts\<close>

subsection \<open>Resolvers\<close>

text \<open>
  What the agent relies on: a resolver that recognises a source names a zone that can be
  declared; in particular it never names the empty zone, which is the cache key of the
  unrecognised sources.
\<close>

definition resolver_ok :: "resolver \<Rightarrow> bool" where
  "resolver_ok f \<longleftrightarrow> (\<forall>src z. f src = Some z \<longrightarrow> ednszone_Valid z)"

locale zone_resolver =
  fixes cfg_ok :: bool
    and zone_of :: resolver
  assumes zone_valid: "cfg_ok \<Longrightarrow> zone_of src = Some z \<Longrightarrow> ednszone_Valid z"
begin

lemma ok: "cfg_ok \<Longrightarrow> resolver_ok zone_of"
  by (auto simp: resolver_ok_def zone_valid)

lemma key_injective: "cfg_ok \<Longrightarrow> zone_key (zone_of src) = zone_key (zone_of src') \<Longrightarrow> zone_of src = zone_of src'"
  using zone_valid [of src] zone_valid [of src']
  by (cases "zone_of src"; cases "zone_of src'") (auto simp: zone_key_def)

end

interpretation static: zone_resolver "ednszone_Valid z \<or> z = []" "StaticResolver_Zone (NewStaticResolver z)" for z
  by unfold_locales (auto simp: StaticResolver_Zone_def NewStaticResolver_def split: if_splits)

interpretation pods: zone_resolver "watcher_inv w" "Watcher_Zone w" for w
  by unfold_locales (auto simp: Watcher_Zone_def watcher_inv_def split: if_splits)

lemma resolveZone_fst:
  "fst (resolveZone a srcIP M) =
     (case ParseAddr srcIP of
        None \<Rightarrow> None
      | Some src \<Rightarrow> if IsValid (aNodeIP a) \<and> src = aNodeIP a then None else aResolver a src)"
  by (auto simp: resolveZone_def split: option.splits)

lemma resolveZone_valid: "resolver_ok (aResolver a) \<Longrightarrow> fst (resolveZone a srcIP M) = Some z \<Longrightarrow> ednszone_Valid z"
  by (auto simp: resolveZone_fst resolver_ok_def split: option.splits if_splits)

lemma zone_key_inj:
  "(\<And>z. zo = Some z \<Longrightarrow> ednszone_Valid z) \<Longrightarrow> (\<And>z. zo' = Some z \<Longrightarrow> ednszone_Valid z) \<Longrightarrow>
     zone_key zo = zone_key zo' \<Longrightarrow> zo = zo'"
  using Valid_not_Nil by (cases zo; cases zo') (auto simp: zone_key_def)

subsection \<open>The outbound query\<close>

lemma strip_frame [simp]:
  "mQuestion (stripZoneOption L m code) = mQuestion m" "mId (stripZoneOption L m code) = mId m"
  by (auto simp: stripZoneOption_def split: option.splits)

lemma strip_Get:
  assumes "edns_laws L"
  shows "ednszone_Get L (stripZoneOption L m code) code = None"
proof (cases "IsEdns0 L m")
  case None
  then show ?thesis by (simp add: stripZoneOption_def Get_no_opt)
next
  case (Some i)
  show ?thesis
    by (rule Get_no_match [of _ _ i])
      (use assms Some in \<open>simp_all add: stripZoneOption_def edns_opt_options_set filter_kept_options\<close>)
qed

lemma outbound_total: "edns_laws L \<Longrightarrow> \<exists>m. agent_outbound L code zo r = Some m"
  by (auto simp: agent_outbound_def Let_def Set_total split: option.splits)

lemma outbound_declares:
  assumes "edns_laws L" "agent_outbound L code zo r = Some m" "\<And>z. zo = Some z \<Longrightarrow> ednszone_Valid z"
  shows "ednszone_Get L m code = zo" "mQuestion m = mQuestion r" "mId m = mId r"
  using assms Get_Set [OF assms(1)] strip_Get [OF assms(1)] Set_frame [OF assms(1)]
  by (auto simp: agent_outbound_def Let_def split: option.splits)

subsection \<open>One request\<close>

record agent_request =
  rqResolver :: resolver
  rqCtx :: go_context
  rqWriter :: writer
  rqMsg :: dns_msg
  rqNow :: int

text \<open>The zone a request is resolved to.\<close>

definition request_zone :: "Agent \<Rightarrow> agent_request \<Rightarrow> string option" where
  "request_zone a q =
     (case ParseAddr (wRemoteIP (rqWriter q)) of
        None \<Rightarrow> None
      | Some src \<Rightarrow> if IsValid (aNodeIP a) \<and> src = aNodeIP a then None else rqResolver q src)"

definition serve ::
  "dnslib \<Rightarrow> reqlib \<Rightarrow> unicode \<Rightarrow> (key, entry, 'l) lru_ops \<Rightarrow> ('u, 'e) upstream \<Rightarrow> Agent \<Rightarrow> agent_request \<Rightarrow>
     ('l, 'u) agent_state \<Rightarrow> ((int \<times> string option) \<times> writer \<times> ('l, 'u) agent_state) option" where
  "serve L Q U K X a q s =
     agent_ServeDNS L Q U K X (a\<lparr>aResolver := rqResolver q\<rparr>) (rqCtx q) (rqWriter q) (rqMsg q) (rqNow q) s"

text \<open>Requests served one after the other.\<close>

fun agent_run ::
  "dnslib \<Rightarrow> reqlib \<Rightarrow> unicode \<Rightarrow> (key, entry, 'l) lru_ops \<Rightarrow> ('u, 'e) upstream \<Rightarrow> Agent \<Rightarrow> agent_request list \<Rightarrow>
     ('l, 'u) agent_state \<Rightarrow> ('l, 'u) agent_state option" where
  "agent_run L Q U K X a [] s = Some s"
| "agent_run L Q U K X a (q # qs) s =
     (case serve L Q U K X a q s of
        None \<Rightarrow> None
      | Some (res, w, s') \<Rightarrow> agent_run L Q U K X a qs s')"

text \<open>An upstream that keeps a log of the exchanges.\<close>

definition exchange_log :: "('u, 'e) upstream \<Rightarrow> ('u \<times> (dns_msg \<times> ('e + dns_msg)) list, 'e) upstream" where
  "exchange_log X s ctx m = (let (res, u) = X (fst s) ctx m in (res, u, snd s @ [(m, res)]))"

lemma serve_zone: "fst (resolveZone (a\<lparr>aResolver := rqResolver q\<rparr>) (wRemoteIP (rqWriter q)) M) = request_zone a q"
  by (auto simp: resolveZone_fst request_zone_def split: option.splits)

lemma request_zone_valid: "resolver_ok (rqResolver q) \<Longrightarrow> request_zone a q = Some z \<Longrightarrow> ednszone_Valid z"
  by (auto simp: request_zone_def resolver_ok_def split: option.splits if_splits)

lemma request_outbound:
  assumes "edns_laws L" "resolver_ok (rqResolver q)" "agent_outbound L code (request_zone a q) r = Some out"
  shows "ednszone_Get L out code = request_zone a q" "mQuestion out = mQuestion r" "mId out = mId r"
  using outbound_declares [OF assms(1,3)] request_zone_valid [OF assms(2)] by blast+

text \<open>The three ways a request is served: from the cache, with an error, with an answer.\<close>

lemma serve_cases [consumes 1, case_names hit failed fresh]:
  assumes "serve L Q U K (exchange_log X) a q s = Some (res, w', s')"
  obtains
    m where "fst (zonecache_Get U K (sCache s) (reqName Q (rqMsg q)) (reqQType Q (rqMsg q))
        (zone_key (request_zone a q)) (rqNow q)) = Some m"
      "res = (RcodeSuccess, None)" "w' = reply_with L (rqWriter q) (rqMsg q) m" "sUpstream s' = sUpstream s"
      "sCache s' = cache_run U K [GetOp (reqName Q (rqMsg q)) (reqQType Q (rqMsg q))
        (zone_key (request_zone a q)) (rqNow q)] (sCache s)"
  | out r where "agent_outbound L (aEDNS0Code a) (request_zone a q) (rqMsg q) = Some out"
      "fst (X (fst (sUpstream s)) (rqCtx q) out) = r" "snd (sUpstream s') = snd (sUpstream s) @ [(out, r)]"
      "case r of Inl e \<Rightarrow> True | Inr m \<Rightarrow> \<not> answersQuestion U out m"
      "res = (RcodeServerFailure, None)" "w' = rqWriter q"
      "sCache s' = cache_run U K [GetOp (reqName Q (rqMsg q)) (reqQType Q (rqMsg q))
        (zone_key (request_zone a q)) (rqNow q)] (sCache s)"
  | out m where "agent_outbound L (aEDNS0Code a) (request_zone a q) (rqMsg q) = Some out"
      "fst (X (fst (sUpstream s)) (rqCtx q) out) = Inr m" "snd (sUpstream s') = snd (sUpstream s) @ [(out, Inr m)]"
      "answersQuestion U out m" "res = (RcodeSuccess, None)" "w' = reply_with L (rqWriter q) (rqMsg q) m"
      "sCache s' = cache_run U K
        [GetOp (reqName Q (rqMsg q)) (reqQType Q (rqMsg q)) (zone_key (request_zone a q)) (rqNow q),
         PutOp (reqName Q (rqMsg q)) (reqQType Q (rqMsg q)) (zone_key (request_zone a q)) (Some m) (rqNow q)] (sCache s)"
proof -
  let ?zk = "zone_key (request_zone a q)"
  obtain M1 where rz: "resolveZone (a\<lparr>aResolver := rqResolver q\<rparr>) (wRemoteIP (rqWriter q)) (sMetrics s) =
      (request_zone a q, M1)"
    using serve_zone [where a = a and q = q and M = "sMetrics s"] by (metis prod.collapse)
  obtain go c1 where get: "zonecache_Get U K (sCache s) (reqName Q (rqMsg q)) (reqQType Q (rqMsg q)) ?zk (rqNow q) =
      (go, c1)" by fastforce
  show thesis
  proof (cases go)
    case (Some m)
    then show thesis
      using assms rz get by (intro that(1) [of m]) (auto simp: serve_def agent_ServeDNS_def cache_run_def)
  next
    case None
    then obtain out where out: "agent_outbound L (aEDNS0Code a) (request_zone a q) (rqMsg q) = Some out"
      using assms rz get by (auto simp: serve_def agent_ServeDNS_def Let_def split: option.splits)
    obtain r u where x: "X (fst (sUpstream s)) (rqCtx q) out = (r, u)" by fastforce
    show thesis
    proof (cases r)
      case (Inl e)
      then show thesis
        using assms rz get None out x
        by (intro that(2) [of out r])
          (auto simp: serve_def agent_ServeDNS_def cache_run_def exchange_log_def Let_def)
    next
      case (Inr m)
      show thesis
      proof (cases "answersQuestion U out m")
        case True
        then show thesis
          using assms rz get None out x Inr
          by (intro that(3) [of out m])
            (auto simp: serve_def agent_ServeDNS_def cache_run_def exchange_log_def Let_def)
      next
        case False
        then show thesis
          using assms rz get None out x Inr
          by (intro that(2) [of out r])
            (auto simp: serve_def agent_ServeDNS_def cache_run_def exchange_log_def Let_def)
      qed
    qed
  qed
qed

subsection \<open>A run\<close>

lemma cache_run_append: "cache_run U K (ops @ ops') c = cache_run U K ops' (cache_run U K ops c)"
  by (simp add: cache_run_def)

text \<open>Every answer a run puts into the cache is one the upstream gave to one of its queries.\<close>

definition answered_by ::
  "dnslib \<Rightarrow> reqlib \<Rightarrow> unicode \<Rightarrow> Agent \<Rightarrow> (dns_msg \<times> ('e + dns_msg)) list \<Rightarrow> string \<Rightarrow> u16 \<Rightarrow> string \<Rightarrow> dns_msg \<Rightarrow>
     int \<Rightarrow> agent_request \<Rightarrow> bool" where
  "answered_by L Q U a log n t z m t0 q \<longleftrightarrow>
     n = reqName Q (rqMsg q) \<and> t = reqQType Q (rqMsg q) \<and> z = zone_key (request_zone a q) \<and> t0 = rqNow q \<and>
     (\<exists>out. agent_outbound L (aEDNS0Code a) (request_zone a q) (rqMsg q) = Some out \<and>
        answersQuestion U out m \<and> (out, Inr m) \<in> set log)"

definition put_origin ::
  "dnslib \<Rightarrow> reqlib \<Rightarrow> unicode \<Rightarrow> Agent \<Rightarrow> agent_request list \<Rightarrow> (dns_msg \<times> ('e + dns_msg)) list \<Rightarrow> cache_op \<Rightarrow> bool" where
  "put_origin L Q U a qs log op \<longleftrightarrow>
     (case op of
        PutOp n t z (Some m) t0 \<Rightarrow> (\<exists>q \<in> set qs. answered_by L Q U a log n t z m t0 q)
      | _ \<Rightarrow> True)"

lemma answered_by_mono: "answered_by L Q U a log n t z m t0 q \<Longrightarrow> set log \<subseteq> set log' \<Longrightarrow> answered_by L Q U a log' n t z m t0 q"
  unfolding answered_by_def by blast

lemma put_origin_mono:
  "put_origin L Q U a qs log op \<Longrightarrow> set qs \<subseteq> set qs' \<Longrightarrow> set log \<subseteq> set log' \<Longrightarrow> put_origin L Q U a qs' log' op"
  unfolding put_origin_def by (auto split: cache_op.splits option.splits dest: answered_by_mono)

lemma serve_origin:
  assumes "serve L Q U K (exchange_log X) a q s = Some (res, w', s')"
  shows "\<exists>ops. sCache s' = cache_run U K ops (sCache s) \<and> set (snd (sUpstream s)) \<subseteq> set (snd (sUpstream s')) \<and>
    (\<forall>op \<in> set ops. put_origin L Q U a [q] (snd (sUpstream s')) op)"
  using assms
proof (cases rule: serve_cases)
  case (hit m)
  then show ?thesis by (intro exI conjI) (auto simp: put_origin_def)
next
  case (failed out r)
  then show ?thesis by (intro exI conjI) (auto simp: put_origin_def)
next
  case (fresh out m)
  then show ?thesis by (intro exI conjI) (auto simp: put_origin_def answered_by_def)
qed

lemma run_origin:
  "agent_run L Q U K (exchange_log X) a qs s = Some s' \<Longrightarrow>
     \<exists>ops. sCache s' = cache_run U K ops (sCache s) \<and> set (snd (sUpstream s)) \<subseteq> set (snd (sUpstream s')) \<and>
       (\<forall>op \<in> set ops. put_origin L Q U a qs (snd (sUpstream s')) op)"
proof (induction qs arbitrary: s)
  case Nil
  then show ?case by (intro exI [of _ "[]"]) (simp add: cache_run_def)
next
  case (Cons q qs)
  then obtain res w s1 where s1: "serve L Q U K (exchange_log X) a q s = Some (res, w, s1)"
      "agent_run L Q U K (exchange_log X) a qs s1 = Some s'"
    by (auto split: option.splits)
  from serve_origin [OF s1(1)] obtain ops where 1: "sCache s1 = cache_run U K ops (sCache s)"
      "set (snd (sUpstream s)) \<subseteq> set (snd (sUpstream s1))"
      "\<forall>op \<in> set ops. put_origin L Q U a [q] (snd (sUpstream s1)) op" by blast
  from Cons.IH [OF s1(2)] obtain ops' where 2: "sCache s' = cache_run U K ops' (sCache s1)"
      "set (snd (sUpstream s1)) \<subseteq> set (snd (sUpstream s'))"
      "\<forall>op \<in> set ops'. put_origin L Q U a qs (snd (sUpstream s')) op" by blast
  show ?case
  proof (intro exI [of _ "ops @ ops'"] conjI ballI)
    show "sCache s' = cache_run U K (ops @ ops') (sCache s)" using 1 2 by (simp add: cache_run_append)
    show "set (snd (sUpstream s)) \<subseteq> set (snd (sUpstream s'))" using 1 2 by blast
    show "put_origin L Q U a (q # qs) (snd (sUpstream s')) op" if "op \<in> set (ops @ ops')" for op
      using that 1(3) 2(2,3) by (auto intro: put_origin_mono)
  qed
qed

lemma reply_with_written:
  assumes "reply_laws L" "mQuestion r = q # qs"
  shows "\<exists>msg. wWritten (reply_with L w r m) = wWritten w @ [msg] \<and> mId msg = mId r \<and> mResponse msg \<and>
    mQuestion msg = [q] \<and> mRcode msg = mRcode m \<and> mAnswer msg = mAnswer m \<and> mNs msg = mNs m \<and> mExtra msg = mExtra m"
  using assms by (simp add: reply_with_def reply_simps)

lemma serve_total:
  assumes "edns_laws L"
  shows "\<exists>res w' s'. serve L Q U K X a q s = Some (res, w', s')"
proof -
  obtain zo M1 where "resolveZone (a\<lparr>aResolver := rqResolver q\<rparr>) (wRemoteIP (rqWriter q)) (sMetrics s) = (zo, M1)"
    by fastforce
  moreover obtain out where "agent_outbound L (aEDNS0Code a) zo (rqMsg q) = Some out"
    using outbound_total [OF assms] by blast
  ultimately show ?thesis
    by (auto simp: serve_def agent_ServeDNS_def Let_def split: option.split prod.split sum.split)
qed

lemma run_total: "edns_laws L \<Longrightarrow> \<exists>s'. agent_run L Q U K X a qs s = Some s'"
proof (induction qs arbitrary: s)
  case (Cons q qs)
  then show ?case using serve_total [of L Q U K X a q s] by auto
qed simp

text \<open>
  Where an answer comes from. One found in the cache was given by the upstream, less than 30
  seconds ago, to the outbound query of an earlier request of the same zone.
\<close>

definition same_query :: "reqlib \<Rightarrow> unicode \<Rightarrow> Agent \<Rightarrow> agent_request \<Rightarrow> agent_request \<Rightarrow> bool" where
  "same_query Q U a q0 q \<longleftrightarrow>
     request_zone a q0 = request_zone a q \<and> reqQType Q (rqMsg q0) = reqQType Q (rqMsg q) \<and>
     ToLower U (reqName Q (rqMsg q0)) = ToLower U (reqName Q (rqMsg q))"

lemma hit_origin:
  assumes "lru_laws K ok" and "zonecache_New K n = Inr (sCache s0)"
    and "agent_run L Q U K (exchange_log X) a qs s0 = Some s"
    and "list_all (\<lambda>q. resolver_ok (rqResolver q)) (q # qs)"
    and "fst (zonecache_Get U K (sCache s) (reqName Q (rqMsg q)) (reqQType Q (rqMsg q))
           (zone_key (request_zone a q)) (rqNow q)) = Some r"
  shows "\<exists>q0 \<in> set qs. \<exists>out m ttl. same_query Q U a q0 q \<and> rqNow q < rqNow q0 + 30 * Second \<and>
    agent_outbound L (aEDNS0Code a) (request_zone a q0) (rqMsg q0) = Some out \<and> answersQuestion U out m \<and>
    (out, Inr m) \<in> set (snd (sUpstream s)) \<and> r = retime ttl m"
proof -
  let ?n = "reqName Q (rqMsg q)" and ?t = "reqQType Q (rqMsg q)" and ?z = "zone_key (request_zone a q)"
  obtain ops where ops: "sCache s = cache_run U K ops (sCache s0)"
      "\<forall>op \<in> set ops. put_origin L Q U a qs (snd (sUpstream s)) op"
    using run_origin [OF assms(3)] by blast
  obtain n0 m t0 ttl where put: "PutOp n0 ?t ?z (Some m) t0 \<in> set ops" "ToLower U n0 = ToLower U ?n"
      "rqNow q < t0 + 30 * Second" "r = retime ttl m"
    using Get_run_origin [OF assms(1,2), of U ops ?n ?t ?z "rqNow q"] assms(5) unfolding ops(1) by blast
  obtain q0 where q0: "q0 \<in> set qs" "answered_by L Q U a (snd (sUpstream s)) n0 ?t ?z m t0 q0"
    using ops(2) put(1) by (auto simp: put_origin_def dest!: bspec)
  then obtain out where out: "agent_outbound L (aEDNS0Code a) (request_zone a q0) (rqMsg q0) = Some out"
      "answersQuestion U out m" "(out, Inr m) \<in> set (snd (sUpstream s))"
    by (auto simp: answered_by_def)
  have "resolver_ok (rqResolver q)" "resolver_ok (rqResolver q0)"
    using assms(4) q0(1) by (auto simp: list_all_iff)
  then have "request_zone a q0 = request_zone a q"
    using q0(2) by (intro zone_key_inj) (auto simp: answered_by_def dest: request_zone_valid)
  then show ?thesis
    using q0 out put
    by - (rule bexI [of _ q0], rule exI [of _ out], rule exI [of _ m], rule exI [of _ ttl],
        auto simp: answered_by_def same_query_def)
qed

subsection \<open>A concrete node\<close>

definition demo_client :: "string \<Rightarrow> writer" where
  "demo_client ip = \<lparr>wConn = None, wRemoteIP = ip, wWritten = []\<rparr>"

definition demo_ask :: "u16 \<Rightarrow> dns_msg" where
  "demo_ask ident =
     new_msg\<lparr>mId := ident, mQuestion := [\<lparr>qName = ''pay.io.'', qQtype = TypeA, qQclass = ClassINET\<rparr>],
       mExtra := [RR_OPT \<lparr>hName = ''.'', hRrtype = TypeOPT, hClass = 1232, hTtl = 0\<rparr> [EDNS0_LOCAL 65001 ''zone-evil'']]\<rparr>"

definition demo_request :: "u16 \<Rightarrow> int \<Rightarrow> agent_request" where
  "demo_request ident now =
     \<lparr>rqResolver = StaticResolver_Zone (NewStaticResolver ''zone-a''), rqCtx = \<lparr>ctxHTTP = None\<rparr>,
      rqWriter = demo_client ''10.0.0.1'', rqMsg = demo_ask ident, rqNow = now\<rparr>"

definition demo_agent_node :: Agent where
  "demo_agent_node = \<lparr>aResolver = (\<lambda>src. None), aEDNS0Code = 65001, aNodeIP = AddrZero\<rparr>"

text \<open>An upstream that answers every query with one address.\<close>

definition demo_upstream :: "(unit, string) upstream" where
  "demo_upstream u ctx m = (Inr (m\<lparr>mResponse := True, mExtra := [],
     mAnswer := [RR_A \<lparr>hName = ''pay.io.'', hRrtype = TypeA, hClass = ClassINET, hTtl = 60\<rparr> [10, 0, 0, 9]]\<rparr>), u)"

definition demo_start :: "(nat \<times> (key \<times> entry) list, unit \<times> (dns_msg \<times> (string + dns_msg)) list) agent_state" where
  "demo_start = \<lparr>sCache = \<lparr>cL = (8, [])\<rparr>, sUpstream = ((), []),
     sMetrics = \<lparr>zoneResolutionTotal = (\<lambda>l. 0), cacheTotal = (\<lambda>l. 0), upstreamErrorsTotal = 0\<rparr>\<rparr>"

definition demo_in :: question where
  "demo_in = \<lparr>qName = ''pay.io.'', qQtype = TypeA, qQclass = ClassINET\<rparr>"

lemma demo_request_zone: "request_zone demo_agent_node (demo_request ident now) = Some ''zone-a''"
  by (simp add: request_zone_def demo_request_def demo_client_def demo_agent_node_def IsValid_def demo_addr
      StaticResolver_Zone_def NewStaticResolver_def)

lemma demo_resolver_ok: "resolver_ok (rqResolver (demo_request ident now))"
proof -
  have "ednszone_Valid ''zone-a''" by code_simp
  then show ?thesis using static.ok [of "''zone-a''"] by (simp add: demo_request_def)
qed

section \<open>Properties\<close>

text \<open>
  Property C7. What the agent forwards: on a cache miss exactly one query goes upstream, it is
  the client's question under the client's ID, and the zone central will read from it is
  the one the agent resolved from the source address (none when it resolved none), whatever
  declarations the client attached. A failed exchange, or an answer to another question, is
  SERVFAIL, is not cached and not written; otherwise the client gets the upstream's answer
  with the upstream's response code, under its own ID and question. Serving never crashes.
\<close>

theorem agent_forwards:
  assumes "edns_laws L" and "reply_laws L" and "resolver_ok (rqResolver q)" and "mQuestion (rqMsg q) = qu # qus"
    and "fst (zonecache_Get U K (sCache s) (reqName Q (rqMsg q)) (reqQType Q (rqMsg q))
           (zone_key (request_zone a q)) (rqNow q)) = None"
  shows "\<exists>res w' s' out r. serve L Q U K (exchange_log X) a q s = Some (res, w', s') \<and>
    snd (sUpstream s') = snd (sUpstream s) @ [(out, r)] \<and>
    ednszone_Get L out (aEDNS0Code a) = request_zone a q \<and>
    mQuestion out = mQuestion (rqMsg q) \<and> mId out = mId (rqMsg q) \<and>
    (case r of
       Inr m \<Rightarrow>
         if answersQuestion U out m then
           res = (RcodeSuccess, None) \<and>
           (\<exists>msg. wWritten w' = wWritten (rqWriter q) @ [msg] \<and> mId msg = mId (rqMsg q) \<and> mQuestion msg = [qu] \<and>
              mRcode msg = mRcode m \<and> mAnswer msg = mAnswer m \<and> mNs msg = mNs m)
         else res = (RcodeServerFailure, None) \<and> w' = rqWriter q \<and>
           sCache s' = snd (zonecache_Get U K (sCache s) (reqName Q (rqMsg q)) (reqQType Q (rqMsg q))
             (zone_key (request_zone a q)) (rqNow q))
     | Inl e \<Rightarrow> res = (RcodeServerFailure, None) \<and> w' = rqWriter q)"
proof -
  obtain res w' s' where ser: "serve L Q U K (exchange_log X) a q s = Some (res, w', s')"
    using serve_total [OF assms(1)] by blast
  note out = request_outbound [OF assms(1,3)]
  from ser show ?thesis
  proof (cases rule: serve_cases)
    case (hit m)
    with assms(5) show ?thesis by simp
  next
    case (failed o1 r)
    with ser out [OF failed(1)] show ?thesis
      by (intro exI [of _ res] exI [of _ w'] exI [of _ s'] exI [of _ o1] exI [of _ r] conjI)
        (auto simp: cache_run_def split: sum.splits)
  next
    case (fresh o1 m)
    with ser out [OF fresh(1)] reply_with_written [OF assms(2,4), of "rqWriter q" m] show ?thesis
      by (intro exI [of _ res] exI [of _ w'] exI [of _ s'] exI [of _ o1] exI [of _ "Inr m"] conjI) auto
  qed
qed

theorem agent_forwards_witness:
  "\<exists>res w' s' out r. serve dnslib_ref reqlib_ref demo_U lru_ref (exchange_log demo_upstream) demo_agent_node
      (demo_request 7 0) demo_start = Some (res, w', s') \<and>
     snd (sUpstream s') = [(out, r)] \<and> ednszone_Get dnslib_ref out 65001 = Some ''zone-a'' \<and> mId out = 7"
proof -
  have q: "mQuestion (rqMsg (demo_request 7 0)) = \<lparr>qName = ''pay.io.'', qQtype = TypeA, qQclass = ClassINET\<rparr> # []"
    by (simp add: demo_request_def demo_ask_def)
  have miss: "fst (zonecache_Get demo_U lru_ref (sCache demo_start) (reqName reqlib_ref (rqMsg (demo_request 7 0)))
      (reqQType reqlib_ref (rqMsg (demo_request 7 0))) (zone_key (request_zone demo_agent_node (demo_request 7 0)))
      (rqNow (demo_request 7 0))) = None"
    by (simp add: zonecache_Get_def lru_ref_def lru_get_def demo_start_def)
  have "aEDNS0Code demo_agent_node = 65001" "mId (rqMsg (demo_request 7 0)) = 7" "snd (sUpstream demo_start) = []"
    by (simp_all add: demo_agent_node_def demo_request_def demo_ask_def demo_start_def)
  with agent_forwards [OF edns_laws_ref reply_laws_ref demo_resolver_ok q miss, of demo_upstream]
  show ?thesis unfolding demo_request_zone by auto
qed

text \<open>
  What a cache hit is, serving one request at a time: after any sequence of requests,
  whatever the resolver said at each of them, a request answered without asking central
  gets an answer that central gave, less than 30 seconds ago, to an earlier request
  that was resolved to the same zone (or, like this one, to none), for the same name up to
  case and the same type; that earlier query declared exactly this zone to central, and
  only the TTLs differ.
\<close>

theorem agent_cache_isolation:
  assumes "edns_laws L" and "reply_laws L" and "lru_laws K ok" and "zonecache_New K n = Inr (sCache s0)"
    and "snd (sUpstream s0) = []"
    and "agent_run L Q U K (exchange_log X) a qs s0 = Some s"
    and "list_all (\<lambda>q. resolver_ok (rqResolver q)) (q # qs)" and "mQuestion (rqMsg q) = qu # qus"
    and "serve L Q U K (exchange_log X) a q s = Some (res, w', s')" and "sUpstream s' = sUpstream s"
  shows "\<exists>q0 \<in> set qs. \<exists>out m ttl msg.
    request_zone a q0 = request_zone a q \<and> reqQType Q (rqMsg q0) = reqQType Q (rqMsg q) \<and>
    ToLower U (reqName Q (rqMsg q0)) = ToLower U (reqName Q (rqMsg q)) \<and>
    rqNow q < rqNow q0 + 30 * Second \<and>
    (out, Inr m) \<in> set (snd (sUpstream s)) \<and> ednszone_Get L out (aEDNS0Code a) = request_zone a q \<and>
    mQuestion out = mQuestion (rqMsg q0) \<and> answersQuestion U out m \<and>
    wWritten w' = wWritten (rqWriter q) @ [msg] \<and> mId msg = mId (rqMsg q) \<and> mQuestion msg = [qu] \<and>
    mRcode msg = mRcode m \<and> mAnswer msg = map (with_ttl ttl) (mAnswer m)"
proof -
  from assms(9) obtain r where get: "fst (zonecache_Get U K (sCache s) (reqName Q (rqMsg q)) (reqQType Q (rqMsg q))
      (zone_key (request_zone a q)) (rqNow q)) = Some r" and w': "w' = reply_with L (rqWriter q) (rqMsg q) r"
    by (cases rule: serve_cases) (use assms(10) in auto)
  obtain q0 out m ttl where q0: "q0 \<in> set qs" "same_query Q U a q0 q" "rqNow q < rqNow q0 + 30 * Second"
      and out: "agent_outbound L (aEDNS0Code a) (request_zone a q0) (rqMsg q0) = Some out" "answersQuestion U out m"
        "(out, Inr m) \<in> set (snd (sUpstream s))" and r: "r = retime ttl m"
    using hit_origin [OF assms(3,4,6,7) get] by blast
  have "resolver_ok (rqResolver q0)"
    using assms(7) q0(1) by (auto simp: list_all_iff)
  note o1 = request_outbound [OF assms(1) this out(1)]
  obtain msg where "wWritten w' = wWritten (rqWriter q) @ [msg]" "mId msg = mId (rqMsg q)"
      "mQuestion msg = [qu]" "mRcode msg = mRcode m" "mAnswer msg = map (with_ttl ttl) (mAnswer m)"
    using reply_with_written [OF assms(2,8), of "rqWriter q" r] w' by (auto simp: r retime_def)
  with q0 out o1 show ?thesis
    by - (rule bexI [of _ q0], rule exI [of _ out], rule exI [of _ m], rule exI [of _ ttl],
        rule exI [of _ msg], auto simp: same_query_def)
qed

theorem agent_cache_isolation_witness:
  "\<exists>s res w' s' msg. agent_run dnslib_ref reqlib_ref demo_U lru_ref (exchange_log demo_upstream) demo_agent_node
      [demo_request 7 0] demo_start = Some s \<and>
     serve dnslib_ref reqlib_ref demo_U lru_ref (exchange_log demo_upstream) demo_agent_node
       (demo_request 8 (10 * Second)) s = Some (res, w', s') \<and> sUpstream s' = sUpstream s \<and>
     wWritten w' = [msg] \<and> mId msg = 8 \<and> (\<exists>out m ttl. (out, Inr m) \<in> set (snd (sUpstream s)) \<and>
       ednszone_Get dnslib_ref out 65001 = Some ''zone-a'' \<and> mAnswer msg = map (with_ttl ttl) (mAnswer m))"
proof -
  obtain s where s: "agent_run dnslib_ref reqlib_ref demo_U lru_ref (exchange_log demo_upstream) demo_agent_node
      [demo_request 7 0] demo_start = Some s"
    using run_total [OF edns_laws_ref] by blast
  obtain res w' s' where ser: "serve dnslib_ref reqlib_ref demo_U lru_ref (exchange_log demo_upstream) demo_agent_node
       (demo_request 8 (10 * Second)) s = Some (res, w', s')"
    using serve_total [OF edns_laws_ref] by blast
  have "case serve dnslib_ref reqlib_ref demo_U lru_ref (exchange_log demo_upstream) demo_agent_node
       (demo_request 8 (10 * Second)) (the (agent_run dnslib_ref reqlib_ref demo_U lru_ref (exchange_log demo_upstream)
          demo_agent_node [demo_request 7 0] demo_start)) of
     None \<Rightarrow> False
   | Some (res, w', s') \<Rightarrow> sUpstream s' = sUpstream (the (agent_run dnslib_ref reqlib_ref demo_U lru_ref
          (exchange_log demo_upstream) demo_agent_node [demo_request 7 0] demo_start))"
    by code_simp
  then have hit: "sUpstream s' = sUpstream s" by (simp only: s ser option.sel option.case prod.case)
  have new: "zonecache_New lru_ref 8 = Inr (sCache demo_start)"
    by (simp add: zonecache_New_def lru_ref_def demo_start_def)
  have q: "mQuestion (rqMsg (demo_request 8 (10 * Second))) =
      \<lparr>qName = ''pay.io.'', qQtype = TypeA, qQclass = ClassINET\<rparr> # []"
    by (simp add: demo_request_def demo_ask_def)
  have log: "snd (sUpstream demo_start) = []" by (simp add: demo_start_def)
  have oks: "list_all (\<lambda>q. resolver_ok (rqResolver q)) [demo_request 8 (10 * Second), demo_request 7 0]"
    using demo_resolver_ok by simp
  have "wWritten (rqWriter (demo_request 8 (10 * Second))) = []" "mId (rqMsg (demo_request 8 (10 * Second))) = 8"
    "aEDNS0Code demo_agent_node = 65001"
    by (simp_all add: demo_request_def demo_client_def demo_ask_def demo_agent_node_def)
  with agent_cache_isolation [OF edns_laws_ref reply_laws_ref lru_laws_ref new log s oks q ser hit] s ser hit
  show ?thesis unfolding demo_request_zone by fastforce
qed

text \<open>
  \<open>Request.Name\<close> is the lower-cased name of the first question: nothing else of the message
  has a part in it.
\<close>

definition reqname_laws :: "reqlib \<Rightarrow> bool" where
  "reqname_laws Q \<longleftrightarrow>
     (\<forall>r r' q qs q' qs'. mQuestion r = q # qs \<longrightarrow> mQuestion r' = q' # qs' \<longrightarrow> qName q = qName q' \<longrightarrow>
        reqName Q r = reqName Q r')"

lemma reqname_laws_ref: "reqname_laws reqlib_ref"
  by (simp add: reqname_laws_def reqlib_ref_def)

text \<open>A cache hit is written out, and nothing is sent upstream.\<close>

lemma serve_hit:
  assumes "reply_laws L" and "mQuestion (rqMsg q) = [qu]"
    and "fst (zonecache_Get U K (sCache s) (reqName Q (rqMsg q)) (reqQType Q (rqMsg q))
           (zone_key (request_zone a q)) (rqNow q)) = Some m"
  shows "\<exists>w' s' msg. serve L Q U K X a q s = Some ((RcodeSuccess, None), w', s') \<and> sUpstream s' = sUpstream s \<and>
    wWritten w' = wWritten (rqWriter q) @ [msg] \<and> mQuestion msg = [qu] \<and> mAnswer msg = mAnswer m"
proof -
  obtain M1 where rz: "resolveZone (a\<lparr>aResolver := rqResolver q\<rparr>) (wRemoteIP (rqWriter q)) (sMetrics s) =
      (request_zone a q, M1)"
    using serve_zone [where a = a and q = q and M = "sMetrics s"] by (metis prod.collapse)
  obtain c1 where "zonecache_Get U K (sCache s) (reqName Q (rqMsg q)) (reqQType Q (rqMsg q))
      (zone_key (request_zone a q)) (rqNow q) = (Some m, c1)"
    using assms(3) by (metis prod.collapse)
  with rz reply_with_written [OF assms(1,2), of "rqWriter q" m] show ?thesis
    by (auto simp: serve_def agent_ServeDNS_def)
qed

text \<open>An answer that was fetched is a hit for the next question with the same key, until it expires.\<close>

lemma serve_then_hit:
  assumes "lru_laws K ok" and "ok n (cL (sCache s))"
    and "serve L Q U K (exchange_log X) a q s = Some (res, w', s')"
    and "snd (sUpstream s') = snd (sUpstream s) @ [(out, Inr m)]" and "res = (RcodeSuccess, None)"
    and "answer_ttl m \<noteq> 0" and "rqNow q \<le> now" and "now < rqNow q + min (uint (answer_ttl m)) 30 * Second"
  shows "answersQuestion U out m \<and> agent_outbound L (aEDNS0Code a) (request_zone a q) (rqMsg q) = Some out \<and>
    fst (zonecache_Get U K (sCache s') (reqName Q (rqMsg q)) (reqQType Q (rqMsg q)) (zone_key (request_zone a q)) now) =
      Some (retime (word_of_int ((rqNow q + min (uint (answer_ttl m)) 30 * Second - now) div Second)) m)"
  using assms(3)
proof (cases rule: serve_cases)
  case (hit m1)
  with assms(4) show ?thesis by simp
next
  case (failed out1 r)
  with assms(5) show ?thesis by (simp add: RcodeServerFailure_def RcodeSuccess_def)
next
  case (fresh out1 m1)
  let ?c = "snd (zonecache_Get U K (sCache s) (reqName Q (rqMsg q)) (reqQType Q (rqMsg q)) (zone_key (request_zone a q)) (rqNow q))"
  have same: "out1 = out" "m1 = m" using fresh(3) assms(4) by simp_all
  have "ok n (cL ?c)" using lru_Get(1) [OF assms(1,2)] by (simp add: Get_snd)
  from hit_result [OF assms(1) this assms(6) refl assms(7,8)] fresh(1,4,7) show ?thesis
    unfolding same by (simp add: cache_run_def)
qed

text \<open>
  Property C39. The cache key has no class: after the node has fetched an answer for a
  question, a query for the same name and type from the same zone in another class is, until
  that answer expires, answered with its records, under the other class in the question
  section and without asking central, although the node's own check of an answer's question
  would refuse that answer for this query.
\<close>

theorem agent_cache_ignores_class:
  assumes "edns_laws L" and "reply_laws L" and "reqlib_laws Q" and "reqname_laws Q"
    and "lru_laws K ok" and "ok n (cL (sCache s))" and "resolver_ok (rqResolver q1)"
    and "mQuestion (rqMsg q1) = [qu]" and "mQuestion (rqMsg q2) = [qu\<lparr>qQclass := c\<rparr>]" and "c \<noteq> qQclass qu"
    and "request_zone a q2 = request_zone a q1"
    and "serve L Q U K (exchange_log X) a q1 s = Some ((RcodeSuccess, None), w1, s1)"
    and "snd (sUpstream s1) = snd (sUpstream s) @ [(out, Inr m)]" and "answer_ttl m \<noteq> 0"
    and "rqNow q1 \<le> rqNow q2" and "rqNow q2 < rqNow q1 + min (uint (answer_ttl m)) 30 * Second"
  shows "\<not> answersQuestion U (rqMsg q2) m \<and>
    (\<exists>w2 s2 msg. serve L Q U K (exchange_log X) a q2 s1 = Some ((RcodeSuccess, None), w2, s2) \<and>
      sUpstream s2 = sUpstream s1 \<and> wWritten w2 = wWritten (rqWriter q2) @ [msg] \<and>
      mQuestion msg = [qu\<lparr>qQclass := c\<rparr>] \<and>
      mAnswer msg = map (with_ttl (word_of_int
        ((rqNow q1 + min (uint (answer_ttl m)) 30 * Second - rqNow q2) div Second))) (mAnswer m))"
proof -
  note first = serve_then_hit [OF assms(5,6,12,13) refl assms(14-16)]
  have quest: "mQuestion out = [qu]" using request_outbound(2) [OF assms(1,7)] first assms(8) by metis
  then have "\<exists>qa. mQuestion m = [qa] \<and> qQclass qa = qQclass qu"
    using first by (cases "mQuestion m") (auto simp: answersQuestion_def split: if_splits)
  then have refused: "\<not> answersQuestion U (rqMsg q2) m"
    using assms(9,10) by (auto simp: answersQuestion_def)
  have "reqName Q (rqMsg q2) = reqName Q (rqMsg q1)"
    using assms(4,8,9) unfolding reqname_laws_def by simp
  moreover have "reqQType Q (rqMsg q2) = reqQType Q (rqMsg q1)"
    using assms(8,9) by (simp add: req_simps [OF assms(3)])
  ultimately have "fst (zonecache_Get U K (sCache s1) (reqName Q (rqMsg q2)) (reqQType Q (rqMsg q2))
      (zone_key (request_zone a q2)) (rqNow q2)) =
      Some (retime (word_of_int ((rqNow q1 + min (uint (answer_ttl m)) 30 * Second - rqNow q2) div Second)) m)"
    using first assms(11) by simp
  from serve_hit [OF assms(2,9) this, where X = "exchange_log X"] refused show ?thesis by (simp add: retime_def)
qed

definition fetched ::
  "((int \<times> string option) \<times> writer \<times> ('l, 'u \<times> (dns_msg \<times> ('e + dns_msg)) list) agent_state) option \<Rightarrow> rr list \<Rightarrow> bool" where
  "fetched r as =
     (case r of
        None \<Rightarrow> False
      | Some (res, w, s) \<Rightarrow> res = (RcodeSuccess, None) \<and>
          (case snd (sUpstream s) of [(out, Inr m)] \<Rightarrow> mAnswer m = as | _ \<Rightarrow> False))"

lemma fetched_iff:
  "fetched r as \<longleftrightarrow> (\<exists>w s out m. r = Some ((RcodeSuccess, None), w, s) \<and> snd (sUpstream s) = [(out, Inr m)] \<and> mAnswer m = as)"
  unfolding fetched_def by (auto split: option.splits list.splits prod.splits sum.splits) (metis list.exhaust surj_pair)+

lemma demo_first:
  "fetched (serve dnslib_ref reqlib_ref demo_U lru_ref (exchange_log demo_upstream) demo_agent_node (demo_request 7 0) demo_start)
     [RR_A \<lparr>hName = ''pay.io.'', hRrtype = TypeA, hClass = ClassINET, hTtl = 60\<rparr> [10, 0, 0, 9]]"
  by code_simp

theorem agent_cache_ignores_class_witness:
  "\<exists>w1 s1 w2 s2 msg. serve dnslib_ref reqlib_ref demo_U lru_ref (exchange_log demo_upstream) demo_agent_node
      (demo_request 7 0) demo_start = Some ((RcodeSuccess, None), w1, s1) \<and>
    serve dnslib_ref reqlib_ref demo_U lru_ref (exchange_log demo_upstream) demo_agent_node
      ((demo_request 8 Second)\<lparr>rqMsg := (demo_ask 8)\<lparr>mQuestion := [demo_in\<lparr>qQclass := 3\<rparr>]\<rparr>\<rparr>) s1 =
      Some ((RcodeSuccess, None), w2, s2) \<and>
    wWritten w2 = [msg] \<and> mQuestion msg = [demo_in\<lparr>qQclass := 3\<rparr>] \<and>
    mAnswer msg = [RR_A \<lparr>hName = ''pay.io.'', hRrtype = TypeA, hClass = ClassINET, hTtl = 29\<rparr> [10, 0, 0, 9]]"
proof -
  let ?q1 = "demo_request 7 0" and ?q2 = "(demo_request 8 Second)\<lparr>rqMsg := (demo_ask 8)\<lparr>mQuestion := [demo_in\<lparr>qQclass := 3\<rparr>]\<rparr>\<rparr>"
  let ?A = "[RR_A \<lparr>hName = ''pay.io.'', hRrtype = TypeA, hClass = ClassINET, hTtl = 60\<rparr> [10, 0, 0, 9]]"
  obtain w1 s1 out m where ser: "serve dnslib_ref reqlib_ref demo_U lru_ref (exchange_log demo_upstream) demo_agent_node
      ?q1 demo_start = Some ((RcodeSuccess, None), w1, s1)" and up: "snd (sUpstream s1) = [(out, Inr m)]" and m: "mAnswer m = ?A"
    using demo_first unfolding fetched_iff by blast
  have log: "snd (sUpstream s1) = snd (sUpstream demo_start) @ [(out, Inr m)]" using up by (simp add: demo_start_def)
  have ok: "lru_ref_ok 8 (cL (sCache demo_start))" by (simp add: demo_start_def lru_ref_ok_def)
  have quest: "mQuestion (rqMsg ?q1) = [demo_in]" "mQuestion (rqMsg ?q2) = [demo_in\<lparr>qQclass := 3\<rparr>]" "3 \<noteq> qQclass demo_in"
    by (simp_all add: demo_request_def demo_ask_def demo_in_def ClassINET_def)
  have zone: "request_zone demo_agent_node ?q2 = request_zone demo_agent_node ?q1"
    using demo_request_zone [of 8 Second] demo_request_zone [of 7 0]
    by (auto simp: request_zone_def split: option.splits if_splits)
  have ttl: "answer_ttl m = 60" by (simp add: answer_ttl_def m)
  have time: "rqNow ?q1 \<le> rqNow ?q2" "rqNow ?q2 < rqNow ?q1 + min (uint (answer_ttl m)) 30 * Second" "answer_ttl m \<noteq> 0"
    by (simp_all add: ttl demo_request_def Second_def)
  have left: "word_of_int ((rqNow ?q1 + min (uint (answer_ttl m)) 30 * Second - rqNow ?q2) div Second) = (29 :: u32)"
    by (simp add: ttl demo_request_def Second_def)
  have w: "wWritten (rqWriter ?q2) = []" by (simp add: demo_request_def demo_client_def)
  show ?thesis
    using agent_cache_ignores_class [OF edns_laws_ref reply_laws_ref reqlib_laws_ref reqname_laws_ref lru_laws_ref ok
        demo_resolver_ok quest zone ser log time(3,1,2)] ser
    unfolding left w m by fastforce
qed

text \<open>
  Only the OPT record \<open>IsEdns0\<close> returns is stripped of the client's declarations:
  every other record of the additional section, a second OPT record with a declaration of
  its own included, is forwarded as the client sent it. Central reads the declaration from
  the same record the agent rewrites, so it does not see the survivor.
\<close>

theorem strip_leaves_other_records:
  assumes "edns_laws L" and "IsEdns0 L m = Some i" and "j \<noteq> i" and "j < length (mExtra m)"
  shows "mExtra (stripZoneOption L m code) ! j = mExtra m ! j \<and>
    IsEdns0 L (stripZoneOption L m code) = Some i \<and> ednszone_Get L (stripZoneOption L m code) code = None"
  using assms strip_Get [OF assms(1), of m code]
  by (simp add: stripZoneOption_def set_options_def) (metis edns_set_options set_options_def edns_Some)

theorem strip_leaves_other_records_witness:
  "mExtra (stripZoneOption dnslib_ref ((demo_ask 7)\<lparr>mExtra := mExtra (demo_ask 7) @ mExtra (demo_ask 7)\<rparr>) 65001) ! 0 =
     mExtra (demo_ask 7) ! 0 \<and> opt_options (demo_ask 7) 0 = [EDNS0_LOCAL 65001 ''zone-evil'']"
proof -
  have "IsEdns0 dnslib_ref ((demo_ask 7)\<lparr>mExtra := mExtra (demo_ask 7) @ mExtra (demo_ask 7)\<rparr>) = Some 1"
    by (simp add: demo_ask_def dnslib_ref_def)
  from strip_leaves_other_records [OF edns_laws_ref this, of 0 65001] show ?thesis
    by (simp add: demo_ask_def opt_options_def)
qed

end
