(* ===== verification/Doh_Upstream.thy ===== *)
theory Doh_Upstream
  imports Zone_Cache
begin

text \<open>
  Package \<open>internal/dohupstream\<close>: the node's DoH client. The SPIFFE libraries, \<open>net/http\<close>
  and CoreDNS's \<open>doh\<close> package are not part of this repository: what the client calls of
  them is the records \<open>spiffe_ops\<close> and \<open>doh_ops\<close>. The HTTP stack and its connections are
  a state \<open>'h\<close> the calls thread, so that a response body left open is visible.
\<close>

section \<open>Configuration\<close>

definition defaultDialTimeout :: int where
  "defaultDialTimeout = 10 * Second"

definition defaultQueryTimeout :: int where
  "defaultQueryTimeout = 5 * Second"

record doh_config =
  dcURL :: string
  dcWorkloadAPIAddr :: string
  dcCentralSPIFFEID :: string
  dcDialTimeout :: int
  dcTimeout :: int

record 'tls http_client =
  hcTLSClientConfig :: 'tls
  hcTimeout :: int

record 'tls doh_client =
  clURL :: string
  clHC :: "'tls http_client"

datatype doh_error =
    ErrCentralIDRequired
  | ErrCentralIDInvalid string string
  | ErrSVID string int string
  | ErrBuildRequest string
  | ErrDo string
  | ErrStatus int
  | ErrDecode string

text \<open>
  \<open>spiffeid.FromString\<close>, \<open>workloadapi.NewX509Source\<close> under a dial timeout, and
  \<open>tlsconfig.MTLSClientConfig\<close> with \<open>AuthorizeID\<close>.
\<close>

record ('id, 'src, 'tls) spiffe_ops =
  spFromString :: "string \<Rightarrow> string + 'id"
  spNewX509Source :: "int \<Rightarrow> string \<Rightarrow> string + 'src"
  spMTLSClientConfig :: "'src \<Rightarrow> 'id \<Rightarrow> 'tls"

definition NewWithHTTPClient :: "string \<Rightarrow> 'tls http_client \<Rightarrow> 'tls doh_client" where
  "NewWithHTTPClient url hc = \<lparr>clURL = url, clHC = hc\<rparr>"

definition buildHTTPClient :: "'tls \<Rightarrow> int \<Rightarrow> 'tls http_client" where
  "buildHTTPClient tlsCfg timeout =
     \<lparr>hcTLSClientConfig = tlsCfg, hcTimeout = (if timeout = 0 then defaultQueryTimeout else timeout)\<rparr>"

text \<open>The second component of the result is the source the returned \<open>cleanup\<close> closes.\<close>

definition NewMTLS ::
  "('id, 'src, 'tls) spiffe_ops \<Rightarrow> doh_config \<Rightarrow> doh_error + 'tls doh_client \<times> 'src" where
  "NewMTLS S cfg =
     (if dcCentralSPIFFEID cfg = [] then Inl ErrCentralIDRequired
      else case spFromString S (dcCentralSPIFFEID cfg) of
        Inl err \<Rightarrow> Inl (ErrCentralIDInvalid (dcCentralSPIFFEID cfg) err)
      | Inr sid \<Rightarrow>
          (let timeout = (if dcDialTimeout cfg = 0 then defaultDialTimeout else dcDialTimeout cfg) in
           case spNewX509Source S timeout (dcWorkloadAPIAddr cfg) of
             Inl err \<Rightarrow> Inl (ErrSVID (dcWorkloadAPIAddr cfg) timeout err)
           | Inr source \<Rightarrow>
               (let hc = buildHTTPClient (spMTLSClientConfig S source sid) (dcTimeout cfg)
                in Inr (\<lparr>clURL = dcURL cfg, clHC = hc\<rparr>, source))))"

section \<open>Exchange\<close>

text \<open>
  \<open>doh.NewRequestWithContext\<close> with the method POST, \<open>http.Client.Do\<close>, \<open>resp.StatusCode\<close>,
  \<open>resp.Body.Close\<close> and \<open>doh.ResponseToMsg\<close>, which closes the body.
\<close>

record ('h, 'req, 'resp, 'tls) doh_ops =
  dhNewRequest :: "string \<Rightarrow> dns_msg \<Rightarrow> string + 'req"
  dhDo :: "'tls http_client \<Rightarrow> 'req \<Rightarrow> 'h \<Rightarrow> (string + 'resp) \<times> 'h"
  dhStatus :: "'resp \<Rightarrow> int"
  dhClose :: "'resp \<Rightarrow> 'h \<Rightarrow> 'h"
  dhToMsg :: "'resp \<Rightarrow> 'h \<Rightarrow> (string + dns_msg) \<times> 'h"

definition Exchange ::
  "('h, 'req, 'resp, 'tls) doh_ops \<Rightarrow> 'tls doh_client \<Rightarrow> dns_msg \<Rightarrow> 'h \<Rightarrow> (doh_error + dns_msg) \<times> 'h" where
  "Exchange D c m h =
     (let originalID = mId m; outbound = m\<lparr>mId := 0\<rparr> in
      case dhNewRequest D (clURL c) outbound of
        Inl err \<Rightarrow> (Inl (ErrBuildRequest err), h)
      | Inr req \<Rightarrow>
          (case dhDo D (clHC c) req h of
             (Inl err, h1) \<Rightarrow> (Inl (ErrDo err), h1)
           | (Inr resp, h1) \<Rightarrow>
               if dhStatus D resp \<noteq> 200 then (Inl (ErrStatus (dhStatus D resp)), dhClose D resp h1)
               else (case dhToMsg D resp h1 of
                       (Inl err, h2) \<Rightarrow> (Inl (ErrDecode err), h2)
                     | (Inr answer, h2) \<Rightarrow> (Inr (answer\<lparr>mId := originalID\<rparr>), h2))))"

section \<open>Properties\<close>

text \<open>
  The HTTP stack as its documentation describes it, with \<open>bodies\<close> the number of response
  bodies that are open in a state. \<open>transport h url m\<close> is what posting a message comes to in the
  state \<open>h\<close>: an error (refused, not authenticated, timed out), or a status and a body that
  decodes or does not. A failed \<open>Do\<close> leaves no body behind, a successful one leaves
  one open, and both \<open>Body.Close\<close> and \<open>ResponseToMsg\<close>, whatever it returns, close it.
\<close>

definition doh_laws ::
  "('h, 'req, 'resp, 'tls) doh_ops \<Rightarrow> ('h \<Rightarrow> nat) \<Rightarrow>
   ('h \<Rightarrow> string \<Rightarrow> dns_msg \<Rightarrow> string + int \<times> (string + dns_msg)) \<Rightarrow> bool" where
  "doh_laws D bodies transport \<longleftrightarrow>
     (\<forall>url m req hc h. dhNewRequest D url m = Inr req \<longrightarrow>
        (case transport h url m of
           Inl err \<Rightarrow> \<exists>h1. dhDo D hc req h = (Inl err, h1) \<and> bodies h1 = bodies h
         | Inr (status, body) \<Rightarrow>
             \<exists>resp h1. dhDo D hc req h = (Inr resp, h1) \<and> dhStatus D resp = status \<and> bodies h1 = Suc (bodies h) \<and>
               bodies (dhClose D resp h1) = bodies h \<and>
               fst (dhToMsg D resp h1) = body \<and> bodies (snd (dhToMsg D resp h1)) = bodies h))"

lemma doh_laws_Inl:
  assumes "doh_laws D bodies transport" "dhNewRequest D url m = Inr req" "transport h url m = Inl err"
  obtains h1 where "dhDo D hc req h = (Inl err, h1)" "bodies h1 = bodies h"
proof -
  from assms(1,2) have "case transport h url m of
      Inl err \<Rightarrow> \<exists>h1. dhDo D hc req h = (Inl err, h1) \<and> bodies h1 = bodies h
    | Inr (status, body) \<Rightarrow> True"
    unfolding doh_laws_def by (fastforce split: sum.splits)
  then show thesis using assms(3) that by auto
qed

lemma doh_laws_Inr:
  assumes "doh_laws D bodies transport" "dhNewRequest D url m = Inr req" "transport h url m = Inr (status, body)"
  obtains resp h1 h2 where "dhDo D hc req h = (Inr resp, h1)" "dhStatus D resp = status"
    "bodies (dhClose D resp h1) = bodies h" "dhToMsg D resp h1 = (body, h2)" "bodies h2 = bodies h"
proof -
  from assms(1,2) have "case transport h url m of
      Inl err \<Rightarrow> True
    | Inr (status, body) \<Rightarrow>
        \<exists>resp h1. dhDo D hc req h = (Inr resp, h1) \<and> dhStatus D resp = status \<and>
          bodies (dhClose D resp h1) = bodies h \<and>
          fst (dhToMsg D resp h1) = body \<and> bodies (snd (dhToMsg D resp h1)) = bodies h"
    unfolding doh_laws_def by (fastforce split: sum.splits)
  then obtain resp h1 where r: "dhDo D hc req h = (Inr resp, h1)" "dhStatus D resp = status"
      "bodies (dhClose D resp h1) = bodies h" "fst (dhToMsg D resp h1) = body" "bodies (snd (dhToMsg D resp h1)) = bodies h"
    using assms(3) by auto
  show thesis
    by (rule that [of resp h1 "snd (dhToMsg D resp h1)"]) (use r in \<open>simp_all flip: r(4)\<close>)
qed

text \<open>
  Property C35. An exchange posts the query under DNS ID 0, and on each of its paths it
  returns what it should and leaves no response body open: a request that cannot be built,
  a \<open>Do\<close> that fails, a status other than 200 and a body that does not decode are each
  reported as that error, and otherwise the answer is the server's with the query's own ID
  restored.
\<close>

theorem Exchange_correct:
  assumes "doh_laws D bodies transport"
  shows "fst (Exchange D c m h) =
      (case dhNewRequest D (clURL c) (m\<lparr>mId := 0\<rparr>) of
         Inl err \<Rightarrow> Inl (ErrBuildRequest err)
       | Inr _ \<Rightarrow>
           (case transport h (clURL c) (m\<lparr>mId := 0\<rparr>) of
              Inl err \<Rightarrow> Inl (ErrDo err)
            | Inr (status, body) \<Rightarrow>
                if status \<noteq> 200 then Inl (ErrStatus status)
                else (case body of Inl err \<Rightarrow> Inl (ErrDecode err) | Inr answer \<Rightarrow> Inr (answer\<lparr>mId := mId m\<rparr>)))) \<and>
    bodies (snd (Exchange D c m h)) = bodies h"
proof (cases "dhNewRequest D (clURL c) (m\<lparr>mId := 0\<rparr>)")
  case (Inl err)
  then show ?thesis by (simp add: Exchange_def)
next
  case req: (Inr req)
  show ?thesis
  proof (cases "transport h (clURL c) (m\<lparr>mId := 0\<rparr>)")
    case (Inl err)
    from doh_laws_Inl [OF assms req Inl, of "clHC c"] obtain h1 where
      "dhDo D (clHC c) req h = (Inl err, h1)" "bodies h1 = bodies h" .
    with req Inl show ?thesis by (simp add: Exchange_def)
  next
    case (Inr sb)
    obtain status body where sb: "sb = (status, body)" by fastforce
    from doh_laws_Inr [OF assms req Inr [unfolded sb], of "clHC c"] obtain resp h1 h2 where
      "dhDo D (clHC c) req h = (Inr resp, h1)" "dhStatus D resp = status"
      "bodies (dhClose D resp h1) = bodies h" "dhToMsg D resp h1 = (body, h2)" "bodies h2 = bodies h" .
    with req Inr sb show ?thesis by (cases body) (simp_all add: Exchange_def)
  qed
qed

text \<open>
  A concrete stack: a request is its message, a response the status and the body, and the
  state the number of open bodies. In the second one nothing can be reached.
\<close>

definition demo_doh :: "(dns_msg \<Rightarrow> int \<times> (string + dns_msg)) \<Rightarrow> (nat, dns_msg, int \<times> (string + dns_msg), unit) doh_ops" where
  "demo_doh serve =
     \<lparr>dhNewRequest = (\<lambda>url m. Inr m), dhDo = (\<lambda>hc req h. (Inr (serve req), h + 1)), dhStatus = fst,
      dhClose = (\<lambda>resp h. h - 1), dhToMsg = (\<lambda>resp h. (snd resp, h - 1))\<rparr>"

definition demo_unreachable :: "(nat, dns_msg, int \<times> (string + dns_msg), unit) doh_ops" where
  "demo_unreachable = (demo_doh (\<lambda>m. (200, Inr m)))\<lparr>dhDo := (\<lambda>hc req h. (Inl ''connection refused'', h))\<rparr>"

lemma doh_laws_demo: "doh_laws (demo_doh serve) id (\<lambda>h url m. Inr (serve m))"
  by (simp add: doh_laws_def demo_doh_def split: prod.splits)

lemma doh_laws_unreachable: "doh_laws demo_unreachable id (\<lambda>h url m. Inl ''connection refused'')"
  by (simp add: doh_laws_def demo_unreachable_def)

theorem Exchange_correct_witness:
  "Exchange (demo_doh (\<lambda>m. (200, Inr (m\<lparr>mResponse := True\<rparr>)))) \<lparr>clURL = ''https://c'', clHC = buildHTTPClient () 0\<rparr>
     (new_msg\<lparr>mId := 7\<rparr>) 0 = (Inr (new_msg\<lparr>mId := 7, mResponse := True\<rparr>), 0) \<and>
   Exchange demo_unreachable \<lparr>clURL = ''https://c'', clHC = buildHTTPClient () 0\<rparr> (new_msg\<lparr>mId := 7\<rparr>) 0 =
     (Inl (ErrDo ''connection refused''), 0)"
proof -
  let ?c = "\<lparr>clURL = ''https://c'', clHC = buildHTTPClient () 0\<rparr>"
  note ok = Exchange_correct [OF doh_laws_demo, of "\<lambda>m. (200, Inr (m\<lparr>mResponse := True\<rparr>))" ?c "new_msg\<lparr>mId := 7\<rparr>" 0]
  note refused = Exchange_correct [OF doh_laws_unreachable, of ?c "new_msg\<lparr>mId := 7\<rparr>" 0]
  show ?thesis
    using ok refused by (intro conjI prod_eqI) (simp_all add: demo_doh_def demo_unreachable_def)
qed

text \<open>
  A client is built only with central's identity pinned: without a valid SPIFFE ID
  for central, or without an SVID from the Workload API, there is no client; otherwise its
  TLS configuration authorizes exactly that ID, and every query has a positive time limit
  as long as the configured one is not negative (five seconds when it is left out).
\<close>

theorem NewMTLS_pins_central:
  "NewMTLS S cfg = Inr (c, source) \<longleftrightarrow>
     dcCentralSPIFFEID cfg \<noteq> [] \<and>
     (\<exists>sid. spFromString S (dcCentralSPIFFEID cfg) = Inr sid \<and>
        spNewX509Source S (if dcDialTimeout cfg = 0 then 10 * Second else dcDialTimeout cfg)
          (dcWorkloadAPIAddr cfg) = Inr source \<and>
        clURL c = dcURL cfg \<and> hcTLSClientConfig (clHC c) = spMTLSClientConfig S source sid \<and>
        hcTimeout (clHC c) = (if dcTimeout cfg = 0 then 5 * Second else dcTimeout cfg))"
  by (cases c; cases "clHC c")
    (auto simp: NewMTLS_def buildHTTPClient_def Let_def defaultDialTimeout_def defaultQueryTimeout_def split: sum.splits)

end
