(* ===== verification/Readiness.thy ===== *)
theory Readiness
  imports Prelude
begin

text \<open>
  Package \<open>plugin/zonedns_agent\<close>, file \<open>setup.go\<close>: the readiness gauge, which instances of
  the plugin share across reloads. Every instance draws a generation number; it marks
  itself ready when its resolver has its data, and stopped when its context ends, each in
  its own goroutine. \<open>markResolverReady\<close> and \<open>markResolverStopped\<close> hold one mutex for
  their whole body, so they are atomic steps and a run of the process is an interleaving
  of them. The counter is a \<open>uint64\<close> that grows by one per reload and wraps around; the
  interleavings below are those of a process in which it has not yet done so, so that a
  generation number belongs to one instance.
\<close>

section \<open>The shared state and its operations\<close>

record ready_vars =
  resolverGeneration :: u64
  resolverReadyGeneration :: u64
  resolverReady :: float64

definition ready_init :: ready_vars where
  "ready_init = \<lparr>resolverGeneration = 0, resolverReadyGeneration = 0, resolverReady = 0\<rparr>"

definition nextGeneration :: "ready_vars \<Rightarrow> u64 \<times> ready_vars" where
  "nextGeneration v = (resolverGeneration v + 1, v\<lparr>resolverGeneration := resolverGeneration v + 1\<rparr>)"

definition markResolverReady :: "u64 \<Rightarrow> ready_vars \<Rightarrow> ready_vars" where
  "markResolverReady gen v = v\<lparr>resolverReadyGeneration := gen, resolverReady := 1\<rparr>"

definition markResolverStopped :: "u64 \<Rightarrow> ready_vars \<Rightarrow> ready_vars" where
  "markResolverStopped gen v =
     (let stillLatest = (resolverReadyGeneration v = gen)
      in if stillLatest then v\<lparr>resolverReady := 0\<rparr> else v)"

text \<open>
  \<open>wireResolverReadyLifecycle\<close> up to the goroutine it starts, which runs
  \<open>markResolverStopped\<close> with the generation returned here.
\<close>

definition wireResolverReadyLifecycle :: "ready_vars \<Rightarrow> u64 \<times> ready_vars" where
  "wireResolverReadyLifecycle v =
     (let (gen, v1) = nextGeneration v in (gen, markResolverReady gen v1))"

section \<open>Interleavings\<close>

text \<open>
  The instances: which generations have marked themselves ready and which have stopped.
  \<open>OnReady\<close> is called at most once per generation, and the goroutine that waits for the
  context marks it stopped at most once; nothing else orders the two.
\<close>

record ready_state =
  rvars :: ready_vars
  readied :: "u64 set"
  stopped :: "u64 set"

datatype ready_label = Draw | MarkReady u64 | MarkStopped u64

inductive ready_step :: "ready_state \<Rightarrow> ready_label \<Rightarrow> ready_state \<Rightarrow> bool" where
  draw: "resolverGeneration (rvars s) \<noteq> - 1 \<Longrightarrow> nextGeneration (rvars s) = (gen, v) \<Longrightarrow> ready_step s Draw (s\<lparr>rvars := v\<rparr>)"
| ready: "0 < gen \<Longrightarrow> gen \<le> resolverGeneration (rvars s) \<Longrightarrow> gen \<notin> readied s \<Longrightarrow>
    ready_step s (MarkReady gen)
      (s\<lparr>rvars := markResolverReady gen (rvars s), readied := insert gen (readied s)\<rparr>)"
| stop: "0 < gen \<Longrightarrow> gen \<le> resolverGeneration (rvars s) \<Longrightarrow> gen \<notin> stopped s \<Longrightarrow>
    ready_step s (MarkStopped gen)
      (s\<lparr>rvars := markResolverStopped gen (rvars s), stopped := insert gen (stopped s)\<rparr>)"

inductive_cases ready_stepE: "ready_step s l t"
inductive_simps ready_step_simps: "ready_step s Draw t" "ready_step s (MarkReady gen) t" "ready_step s (MarkStopped gen) t"

definition ready_start :: "ready_state \<Rightarrow> bool" where
  "ready_start s \<longleftrightarrow> s = \<lparr>rvars = ready_init, readied = {}, stopped = {}\<rparr>"

text \<open>Any interleaving, and the ones in which generations become ready in order and before they stop.\<close>

definition any_step :: "ready_state \<Rightarrow> ready_state \<Rightarrow> bool" where
  "any_step s t \<longleftrightarrow> (\<exists>l. ready_step s l t)"

definition in_order :: "ready_state \<Rightarrow> ready_label \<Rightarrow> bool" where
  "in_order s l = (case l of MarkReady gen \<Rightarrow> gen \<notin> stopped s \<and> (\<forall>g \<in> readied s. g < gen) | _ \<Rightarrow> True)"

definition ordered_step :: "ready_state \<Rightarrow> ready_state \<Rightarrow> bool" where
  "ordered_step s t \<longleftrightarrow> (\<exists>l. in_order s l \<and> ready_step s l t)"

section \<open>Invariants\<close>

definition any_inv :: "ready_state \<Rightarrow> bool" where
  "any_inv s \<longleftrightarrow>
     resolverReady (rvars s) \<in> {0, 1} \<and>
     (\<forall>g \<in> readied s. 0 < g \<and> g \<le> resolverGeneration (rvars s)) \<and>
     (if resolverReadyGeneration (rvars s) = 0 then readied s = {} \<and> resolverReady (rvars s) = 0
      else resolverReadyGeneration (rvars s) \<in> readied s \<and>
        (resolverReady (rvars s) = 0 \<longrightarrow> resolverReadyGeneration (rvars s) \<in> stopped s))"

definition ordered_inv :: "ready_state \<Rightarrow> bool" where
  "ordered_inv s \<longleftrightarrow> any_inv s \<and>
     (\<forall>g \<in> readied s. g \<le> resolverReadyGeneration (rvars s)) \<and>
     (resolverReady (rvars s) = 1 \<longleftrightarrow>
        resolverReadyGeneration (rvars s) \<noteq> 0 \<and> resolverReadyGeneration (rvars s) \<notin> stopped s)"

lemma gen_le_next:
  fixes g n :: u64
  assumes "g \<le> n" "n \<noteq> - 1"
  shows "g \<le> n + 1"
proof -
  have "unat (n + 1) = unat n + 1"
    using assms(2) by (metis Suc_eq_plus1 add.commute add_eq_0_iff unatSuc)
  then show ?thesis using assms(1) by (simp add: word_le_nat_alt)
qed

lemma any_inv_step: "any_inv s \<Longrightarrow> ready_step s l t \<Longrightarrow> any_inv t"
  by (erule ready_stepE)
    (auto simp: any_inv_def nextGeneration_def gen_le_next markResolverReady_def markResolverStopped_def Let_def split: if_splits)

lemma inv_start: "ready_start s \<Longrightarrow> ordered_inv s" "ready_start s \<Longrightarrow> any_inv s"
  by (simp_all add: ready_start_def ordered_inv_def any_inv_def ready_init_def)

interpretation any: step_system ready_start any_step any_inv
  by unfold_locales (auto simp: any_step_def intro: any_inv_step inv_start)

lemma ordered_inv_step:
  assumes "ordered_inv s" "in_order s l" "ready_step s l t"
  shows "ordered_inv t"
proof -
  have "any_inv t" using assms(1,3) by (auto simp: ordered_inv_def intro: any_inv_step)
  from assms(3) show ?thesis
  proof (cases rule: ready_step.cases)
    case (draw gen v)
    with assms(1) \<open>any_inv t\<close> show ?thesis by (auto simp: ordered_inv_def nextGeneration_def)
  next
    case (ready gen)
    with assms(1,2) \<open>any_inv t\<close> show ?thesis
      by (auto simp: ordered_inv_def in_order_def markResolverReady_def)
  next
    case (stop gen)
    with assms(1) \<open>any_inv t\<close> show ?thesis
      by (auto simp: ordered_inv_def markResolverStopped_def Let_def any_inv_def split: if_splits)
  qed
qed

interpretation ordered: step_system ready_start ordered_step ordered_inv
  by unfold_locales (auto simp: ordered_step_def intro: ordered_inv_step inv_start)

section \<open>Properties\<close>

text \<open>
  Property C17. When the instances become ready in the order of their generations, each before
  it stops, the gauge tells the truth after every interleaving: it is 1 exactly when some
  instance has become ready and the newest one that has is still running. In particular an
  older instance that stops late never clears the readiness of a newer one.
\<close>

theorem gauge_correct_in_order:
  assumes "ready_start s" and "ordered_step\<^sup>*\<^sup>* s t"
  shows "resolverReady (rvars t) = (if readied t \<noteq> {} \<and> Max (readied t) \<notin> stopped t then 1 else 0)"
proof -
  have inv: "ordered_inv t" using ordered.reachable_inv [OF assms] .
  have fin: "finite (readied t)"
    by (rule finite)
  show ?thesis
  proof (cases "readied t = {}")
    case True
    with inv show ?thesis by (auto simp: ordered_inv_def any_inv_def split: if_splits)
  next
    case False
    with inv fin have "Max (readied t) = resolverReadyGeneration (rvars t)"
      by (intro Max_eqI) (auto simp: ordered_inv_def any_inv_def split: if_splits)
    with False inv show ?thesis
      by (auto simp: ordered_inv_def any_inv_def split: if_splits)
  qed
qed

text \<open>A reload: generation 1 is ready, 2 becomes ready, then 1 stops.\<close>

theorem gauge_correct_in_order_witness:
  "\<exists>t. ordered_step\<^sup>*\<^sup>* \<lparr>rvars = ready_init, readied = {}, stopped = {}\<rparr> t \<and> stopped t = {1} \<and> readied t = {1, 2} \<and>
     resolverReady (rvars t) = 1"
proof -
  let ?s0 = "\<lparr>rvars = ready_init, readied = {}, stopped = {}\<rparr>"
  have "\<exists>t. ordered_step\<^sup>*\<^sup>* ?s0 t \<and> stopped t = {1} \<and> readied t = {1, 2}"
  proof (intro exI conjI)
    let ?v = "\<lambda>g r x. \<lparr>resolverGeneration = g, resolverReadyGeneration = r, resolverReady = x\<rparr>"
    have "ordered_step ?s0 \<lparr>rvars = ?v 1 0 0, readied = {}, stopped = {}\<rparr>"
      unfolding ordered_step_def
      by (intro exI [of _ Draw]) (simp add: in_order_def ready_step_simps nextGeneration_def ready_init_def)
    also have "ordered_step\<^sup>*\<^sup>* \<dots> \<lparr>rvars = ?v 1 1 1, readied = {1}, stopped = {}\<rparr>"
      unfolding ordered_step_def
      by (intro r_into_rtranclp exI [of _ "MarkReady 1"]) (simp add: in_order_def ready_step_simps markResolverReady_def)
    also have "ordered_step\<^sup>*\<^sup>* \<dots> \<lparr>rvars = ?v 2 1 1, readied = {1}, stopped = {}\<rparr>"
      unfolding ordered_step_def
      by (intro r_into_rtranclp exI [of _ Draw]) (simp add: in_order_def ready_step_simps nextGeneration_def)
    also have "ordered_step\<^sup>*\<^sup>* \<dots> \<lparr>rvars = ?v 2 2 1, readied = {1, 2}, stopped = {}\<rparr>"
      unfolding ordered_step_def
      by (intro r_into_rtranclp exI [of _ "MarkReady 2"])
        (simp add: in_order_def ready_step_simps markResolverReady_def insert_commute)
    also have "ordered_step\<^sup>*\<^sup>* \<dots> \<lparr>rvars = ?v 2 2 1, readied = {1, 2}, stopped = {1}\<rparr>"
      unfolding ordered_step_def
      by (intro r_into_rtranclp exI [of _ "MarkStopped 1"])
        (simp add: in_order_def ready_step_simps markResolverStopped_def)
    finally show "ordered_step\<^sup>*\<^sup>* ?s0 \<lparr>rvars = ?v 2 2 1, readied = {1, 2}, stopped = {1}\<rparr>" .
  qed simp_all
  then obtain t where t: "ordered_step\<^sup>*\<^sup>* ?s0 t" "stopped t = {1}" "readied t = {1, 2}" by blast
  then show ?thesis
    using gauge_correct_in_order [of ?s0 t] by (auto simp: ready_start_def)
qed

text \<open>
  Under every interleaving at all, the gauge is 1 only if some instance has become
  ready, and 0 only if none has or the one that marked itself ready last has stopped.
\<close>

theorem gauge_any_interleaving:
  assumes "ready_start s" and "any_step\<^sup>*\<^sup>* s t"
  shows "(resolverReady (rvars t) = 1 \<and> resolverReadyGeneration (rvars t) \<in> readied t) \<or>
    (resolverReady (rvars t) = 0 \<and>
      (readied t = {} \<or> resolverReadyGeneration (rvars t) \<in> readied t \<inter> stopped t))"
  using any.reachable_inv [OF assms] by (auto simp: any_inv_def split: if_splits)

lemma any_draw: "resolverGeneration (rvars s) \<noteq> - 1 \<Longrightarrow> any_step s (s\<lparr>rvars := (rvars s)\<lparr>resolverGeneration := resolverGeneration (rvars s) + 1\<rparr>\<rparr>)"
  unfolding any_step_def by (intro exI [of _ Draw]) (simp add: ready_step_simps nextGeneration_def)

lemma any_ready:
  "0 < gen \<Longrightarrow> gen \<le> resolverGeneration (rvars s) \<Longrightarrow> gen \<notin> readied s \<Longrightarrow>
     any_step s (s\<lparr>rvars := markResolverReady gen (rvars s), readied := insert gen (readied s)\<rparr>)"
  unfolding any_step_def by (blast intro: ready_step.ready)

lemma any_stop:
  "0 < gen \<Longrightarrow> gen \<le> resolverGeneration (rvars s) \<Longrightarrow> gen \<notin> stopped s \<Longrightarrow>
     any_step s (s\<lparr>rvars := markResolverStopped gen (rvars s), stopped := insert gen (stopped s)\<rparr>)"
  unfolding any_step_def by (blast intro: ready_step.stop)

theorem gauge_any_interleaving_witness:
  "\<exists>t. any_step \<lparr>rvars = ready_init, readied = {}, stopped = {}\<rparr> t \<and> resolverReady (rvars t) = 0 \<and> readied t = {}"
proof -
  let ?s0 = "\<lparr>rvars = ready_init, readied = {}, stopped = {}\<rparr>"
  let ?t = "?s0\<lparr>rvars := (rvars ?s0)\<lparr>resolverGeneration := resolverGeneration (rvars ?s0) + 1\<rparr>\<rparr>"
  have "resolverReady (rvars ?t) = 0 \<or> resolverReady (rvars ?t) = 1 \<and> resolverReadyGeneration (rvars ?t) \<in> readied ?t"
    using gauge_any_interleaving [of ?s0 ?t] r_into_rtranclp [of any_step, OF any_draw [of ?s0]]
    by (auto simp: ready_start_def ready_init_def)
  then show ?thesis using any_draw [of ?s0] by (intro exI [of _ ?t]) (simp add: ready_init_def)
qed

text \<open>
  Property C37. The order is needed, and nothing in the code enforces it. An older instance whose
  resolver finishes loading after a newer one is ready takes the gauge over, and when it
  then stops it clears the gauge while the newer instance is ready and running; and an
  instance whose context ends between its sync and its call of \<open>OnReady\<close> leaves the gauge
  at 1 with every instance stopped. No later event repairs either.
\<close>

theorem gauge_wrong_out_of_order:
  "(\<exists>t. any_step\<^sup>*\<^sup>* \<lparr>rvars = ready_init, readied = {}, stopped = {}\<rparr> t \<and> resolverReady (rvars t) = 0 \<and>
      resolverGeneration (rvars t) = 2 \<and> 2 \<in> readied t \<and> 2 \<notin> stopped t) \<and>
   (\<exists>t. any_step\<^sup>*\<^sup>* \<lparr>rvars = ready_init, readied = {}, stopped = {}\<rparr> t \<and> resolverReady (rvars t) = 1 \<and>
      resolverGeneration (rvars t) = 1 \<and> stopped t = {1} \<and> readied t = {1})"
proof
  let ?s0 = "\<lparr>rvars = ready_init, readied = {}, stopped = {}\<rparr>"
  let ?v = "\<lambda>g r x. \<lparr>resolverGeneration = g, resolverReadyGeneration = r, resolverReady = x\<rparr>"
  note simps = ready_init_def markResolverReady_def markResolverStopped_def
  have 1: "any_step ?s0 \<lparr>rvars = ?v 1 0 0, readied = {}, stopped = {}\<rparr>"
    using any_draw [of ?s0] by (simp add: simps)
  have 2: "any_step \<lparr>rvars = ?v 1 0 0, readied = {}, stopped = {}\<rparr> \<lparr>rvars = ?v 2 0 0, readied = {}, stopped = {}\<rparr>"
    using any_draw [of "\<lparr>rvars = ?v 1 0 0, readied = {}, stopped = {}\<rparr>"] by simp
  have 3: "any_step \<lparr>rvars = ?v 2 0 0, readied = {}, stopped = {}\<rparr> \<lparr>rvars = ?v 2 2 1, readied = {2}, stopped = {}\<rparr>"
    using any_ready [of 2 "\<lparr>rvars = ?v 2 0 0, readied = {}, stopped = {}\<rparr>"] by (simp add: simps)
  have 4: "any_step \<lparr>rvars = ?v 2 2 1, readied = {2}, stopped = {}\<rparr> \<lparr>rvars = ?v 2 1 1, readied = {1, 2}, stopped = {}\<rparr>"
    using any_ready [of 1 "\<lparr>rvars = ?v 2 2 1, readied = {2}, stopped = {}\<rparr>"] by (simp add: simps)
  have 5: "any_step \<lparr>rvars = ?v 2 1 1, readied = {1, 2}, stopped = {}\<rparr> \<lparr>rvars = ?v 2 1 0, readied = {1, 2}, stopped = {1}\<rparr>"
    using any_stop [of 1 "\<lparr>rvars = ?v 2 1 1, readied = {1, 2}, stopped = {}\<rparr>"] by (simp add: simps)
  have "any_step\<^sup>*\<^sup>* ?s0 \<lparr>rvars = ?v 2 1 0, readied = {1, 2}, stopped = {1}\<rparr>"
    using 1 2 3 4 5 by (blast intro: converse_rtranclp_into_rtranclp)
  then show "\<exists>t. any_step\<^sup>*\<^sup>* ?s0 t \<and> resolverReady (rvars t) = 0 \<and> resolverGeneration (rvars t) = 2 \<and>
      2 \<in> readied t \<and> 2 \<notin> stopped t"
    by (intro exI [of _ "\<lparr>rvars = ?v 2 1 0, readied = {1, 2}, stopped = {1}\<rparr>"]) simp
  have 6: "any_step \<lparr>rvars = ?v 1 0 0, readied = {}, stopped = {}\<rparr> \<lparr>rvars = ?v 1 0 0, readied = {}, stopped = {1}\<rparr>"
    using any_stop [of 1 "\<lparr>rvars = ?v 1 0 0, readied = {}, stopped = {}\<rparr>"] by (simp add: simps)
  have 7: "any_step \<lparr>rvars = ?v 1 0 0, readied = {}, stopped = {1}\<rparr> \<lparr>rvars = ?v 1 1 1, readied = {1}, stopped = {1}\<rparr>"
    using any_ready [of 1 "\<lparr>rvars = ?v 1 0 0, readied = {}, stopped = {1}\<rparr>"] by (simp add: simps)
  have "any_step\<^sup>*\<^sup>* ?s0 \<lparr>rvars = ?v 1 1 1, readied = {1}, stopped = {1}\<rparr>"
    using 1 6 7 by (blast intro: converse_rtranclp_into_rtranclp)
  then show "\<exists>t. any_step\<^sup>*\<^sup>* ?s0 t \<and> resolverReady (rvars t) = 1 \<and> resolverGeneration (rvars t) = 1 \<and>
      stopped t = {1} \<and> readied t = {1}"
    by (intro exI [of _ "\<lparr>rvars = ?v 1 1 1, readied = {1}, stopped = {1}\<rparr>"]) simp
qed

end
