(* ===== verification/Agent_Setup.thy ===== *)
theory Agent_Setup
  imports Central_Setup Agent Doh_Upstream Readiness
begin

text \<open>
  Package \<open>plugin/zonedns_agent\<close>, file \<open>setup.go\<close>: parsing the node's configuration and
  wiring resolver, cache and upstream together. \<open>url.Parse\<close> is a parameter that returns the
  scheme and the path (no theorem depends on which texts it accepts); the SPIFFE and
  Kubernetes libraries are parameters as well.
\<close>

section \<open>Configuration\<close>

datatype mode = modeUnset | modeK8s | modeVM

definition defaultCacheSize :: int where
  "defaultCacheSize = 4096"

record agent_config =
  acMode :: mode
  acZone :: string
  acNodeName :: string
  acZoneLabel :: string
  acUpstreamURL :: string
  acCentralSPIFFEID :: string
  acWorkloadAPI :: string
  acCacheSize :: int
  acEdns0Code :: u16
  acNodeIP :: addr

record parsed_url =
  puScheme :: string
  puPath :: string

type_synonym url_parse = "string \<Rightarrow> string + parsed_url"

definition agent_property :: "'d dispenser \<Rightarrow> agent_config \<Rightarrow> 'd \<Rightarrow> cfg_error + agent_config \<times> 'd" where
  "agent_property D cfg d =
     (let prop = dVal D d in
      if prop = ''mode'' then
        one_arg D d (\<lambda>v. if v = ''k8s'' then Inr (cfg\<lparr>acMode := modeK8s\<rparr>)
                          else if v = ''vm'' then Inr (cfg\<lparr>acMode := modeVM\<rparr>)
                          else Inl (ErrInvalid ''mode'' v))
      else if prop = ''zone'' then one_arg D d (\<lambda>v. Inr (cfg\<lparr>acZone := v\<rparr>))
      else if prop = ''node_name'' then one_arg D d (\<lambda>v. Inr (cfg\<lparr>acNodeName := v\<rparr>))
      else if prop = ''zone_label'' then one_arg D d (\<lambda>v. Inr (cfg\<lparr>acZoneLabel := v\<rparr>))
      else if prop = ''upstream'' then one_arg D d (\<lambda>v. Inr (cfg\<lparr>acUpstreamURL := v\<rparr>))
      else if prop = ''central_spiffe_id'' then one_arg D d (\<lambda>v. Inr (cfg\<lparr>acCentralSPIFFEID := v\<rparr>))
      else if prop = ''workload_api'' then one_arg D d (\<lambda>v. Inr (cfg\<lparr>acWorkloadAPI := v\<rparr>))
      else if prop = ''cache_size'' then
        one_arg D d (\<lambda>v. case Atoi v of
            Inl err \<Rightarrow> Inl (ErrInvalid ''cache_size'' v)
          | Inr n \<Rightarrow> if n \<le> 0 then Inl (ErrNotPositive ''cache_size'' v) else Inr (cfg\<lparr>acCacheSize := n\<rparr>))
      else if prop = ''node_ip'' then
        one_arg D d (\<lambda>v. case ParseAddr v of
            None \<Rightarrow> Inl (ErrInvalid ''node_ip'' v)
          | Some a \<Rightarrow> Inr (cfg\<lparr>acNodeIP := a\<rparr>))
      else if prop = ''edns0_code'' then
        one_arg D d (\<lambda>v. case parse_code v of Inl err \<Rightarrow> Inl err | Inr code \<Rightarrow> Inr (cfg\<lparr>acEdns0Code := code\<rparr>))
      else Inl (ErrUnknownProperty prop))"

definition agent_default :: agent_config where
  "agent_default =
     \<lparr>acMode = modeUnset, acZone = [], acNodeName = [], acZoneLabel = ''zone'', acUpstreamURL = [],
      acCentralSPIFFEID = [], acWorkloadAPI = [], acCacheSize = defaultCacheSize,
      acEdns0Code = ednszone_DefaultCode, acNodeIP = AddrZero\<rparr>"

text \<open>The checks after the loops.\<close>

definition agent_validate :: "url_parse \<Rightarrow> agent_config \<Rightarrow> cfg_error + agent_config" where
  "agent_validate UP cfg =
     (if acMode cfg = modeUnset then Inl (ErrRequired ''mode'')
      else if acUpstreamURL cfg = [] then Inl (ErrRequired ''upstream'')
      else case UP (acUpstreamURL cfg) of
        Inl err \<Rightarrow> Inl (ErrInvalid ''upstream'' (acUpstreamURL cfg))
      | Inr u \<Rightarrow>
          if puScheme u \<noteq> ''https'' then Inl (ErrNotHTTPS (acUpstreamURL cfg))
          else if TrimSuffix (puPath u) ''/'' \<noteq> [] then Inl (ErrHasPath (acUpstreamURL cfg))
          else if acCentralSPIFFEID cfg = [] then Inl (ErrRequired ''central_spiffe_id'')
          else if acWorkloadAPI cfg = [] then Inl (ErrRequired ''workload_api'')
          else (case acMode cfg of
                  modeVM \<Rightarrow>
                    if acZone cfg = [] then Inl (ErrRequired ''zone'')
                    else if \<not> ednszone_Valid (acZone cfg) then Inl (ErrInvalid ''zone'' (acZone cfg))
                    else if acNodeName cfg \<noteq> [] then Inl (ErrWrongMode ''node_name'')
                    else Inr cfg
                | modeK8s \<Rightarrow>
                    if acNodeName cfg = [] then Inl (ErrRequired ''node_name'')
                    else if acZone cfg \<noteq> [] then Inl (ErrWrongMode ''zone'')
                    else Inr cfg
                | modeUnset \<Rightarrow> Inr cfg))"

text \<open>\<open>env\<close> is the value of the environment variable \<open>NODE_IP\<close>, empty when it is not set.\<close>

definition agent_parseConfig ::
  "url_parse \<Rightarrow> string \<Rightarrow> 'd dispenser \<Rightarrow> nat \<Rightarrow> 'd \<Rightarrow> (cfg_error + agent_config) option" where
  "agent_parseConfig UP env D fuel d =
     (case (if env = [] then Some agent_default
            else map_option (\<lambda>a. agent_default\<lparr>acNodeIP := a\<rparr>) (ParseAddr env)) of
        None \<Rightarrow> Some (Inl (ErrInvalid ''NODE_IP'' env))
      | Some cfg0 \<Rightarrow>
          (case config_loop D (agent_property D) fuel cfg0 d of
             None \<Rightarrow> None
           | Some (Inl err) \<Rightarrow> Some (Inl err)
           | Some (Inr cfg) \<Rightarrow> Some (agent_validate UP cfg)))"

section \<open>Setup\<close>

record ('rest, 'client) k8s_ops =
  koInClusterConfig :: "string + 'rest"
  koNewForConfig :: "'rest \<Rightarrow> string + 'client"

datatype agent_setup_error =
    ASetupOrder order_error
  | ASetupConfig cfg_error
  | ASetupCache string
  | ASetupUpstream doh_error
  | ASetupInCluster string
  | ASetupClient string

datatype any_resolver = ResStatic StaticResolver | ResPods Watcher

definition any_Zone :: "any_resolver \<Rightarrow> resolver" where
  "any_Zone r = (case r of ResStatic s \<Rightarrow> StaticResolver_Zone s | ResPods w \<Rightarrow> Watcher_Zone w)"

text \<open>
  What a successful \<open>setup\<close> leaves behind; \<open>aiGeneration\<close> is the number the readiness
  callbacks of this instance use, and \<open>aiSource\<close> what \<open>cleanup\<close> closes.
\<close>

record ('l, 'tls, 'src) agent_instance =
  aiResolver :: "any_resolver option"
  aiCache :: "'l Cache"
  aiUpstream :: "'tls doh_client"
  aiCode :: u16
  aiNodeIP :: addr
  aiGeneration :: "u64 option"
  aiSource :: 'src

text \<open>
  The result with the readiness variables, the X.509 sources left open and whether the
  context (once created) was cancelled. \<^const>\<open>None\<close> is \<open>parseConfig\<close> running out of fuel.
\<close>

definition agent_setup ::
  "url_parse \<Rightarrow> string \<Rightarrow> 'd dispenser \<Rightarrow> nat \<Rightarrow> (key, entry, 'l) lru_ops \<Rightarrow> ('id, 'src, 'tls) spiffe_ops \<Rightarrow>
   ('rest, 'client) k8s_ops \<Rightarrow> string list \<Rightarrow> 'd \<Rightarrow> ready_vars \<Rightarrow>
   ((agent_setup_error + ('l, 'tls, 'src) agent_instance) \<times> ready_vars \<times> 'src list \<times> bool option) option" where
  "agent_setup UP env D fuel K S KO directives d v =
     (case agent_CheckDirectiveOrder directives of
        Some err \<Rightarrow> Some (Inl (ASetupOrder err), v, [], None)
      | None \<Rightarrow>
          (case agent_parseConfig UP env D fuel d of
             None \<Rightarrow> None
           | Some (Inl err) \<Rightarrow> Some (Inl (ASetupConfig err), v, [], None)
           | Some (Inr cfg) \<Rightarrow>
               (case zonecache_New K (acCacheSize cfg) of
                  Inl err \<Rightarrow> Some (Inl (ASetupCache err), v, [], None)
                | Inr cache \<Rightarrow>
                    (case NewMTLS S \<lparr>dcURL = acUpstreamURL cfg, dcWorkloadAPIAddr = acWorkloadAPI cfg,
                                     dcCentralSPIFFEID = acCentralSPIFFEID cfg, dcDialTimeout = 0, dcTimeout = 0\<rparr> of
                       Inl err \<Rightarrow> Some (Inl (ASetupUpstream err), v, [], Some True)
                     | Inr (up, source) \<Rightarrow>
                         (let inst = \<lparr>aiResolver = None, aiCache = cache, aiUpstream = up, aiCode = acEdns0Code cfg,
                                      aiNodeIP = acNodeIP cfg, aiGeneration = None, aiSource = source\<rparr>;
                              opened = [source] in
                          case acMode cfg of
                            modeVM \<Rightarrow>
                              (let (gen, v1) = wireResolverReadyLifecycle v in
                               Some (Inr (inst\<lparr>aiResolver := Some (ResStatic (NewStaticResolver (acZone cfg))),
                                               aiGeneration := Some gen\<rparr>), v1, opened, Some False))
                          | modeK8s \<Rightarrow>
                              (case koInClusterConfig KO of
                                 Inl err \<Rightarrow> Some (Inl (ASetupInCluster err), v, source_Close source opened, Some True)
                               | Inr restCfg \<Rightarrow>
                                   (case koNewForConfig KO restCfg of
                                      Inl err \<Rightarrow> Some (Inl (ASetupClient err), v, source_Close source opened, Some True)
                                    | Inr client \<Rightarrow>
                                        (let (gen, v1) = nextGeneration v in
                                         Some (Inr (inst\<lparr>aiResolver :=
                                                     Some (ResPods (podzone_New (acNodeName cfg) (acZoneLabel cfg))),
                                                    aiGeneration := Some gen\<rparr>), v1, opened, Some False))))
                          | modeUnset \<Rightarrow> Some (Inr inst, v, opened, Some False))))))"

section \<open>Facts\<close>

definition agent_state_ok :: "agent_config \<Rightarrow> bool" where
  "agent_state_ok cfg \<longleftrightarrow> 0 < acCacheSize cfg \<and> 65001 \<le> unat (acEdns0Code cfg) \<and> unat (acEdns0Code cfg) \<le> 65534 \<and>
     addr_ok (acNodeIP cfg)"

lemma agent_state_ok_frame:
  "agent_state_ok (cfg\<lparr>acMode := mo\<rparr>) = agent_state_ok cfg"
  "agent_state_ok (cfg\<lparr>acZone := v\<rparr>) = agent_state_ok cfg"
  "agent_state_ok (cfg\<lparr>acNodeName := v\<rparr>) = agent_state_ok cfg"
  "agent_state_ok (cfg\<lparr>acZoneLabel := v\<rparr>) = agent_state_ok cfg"
  "agent_state_ok (cfg\<lparr>acUpstreamURL := v\<rparr>) = agent_state_ok cfg"
  "agent_state_ok (cfg\<lparr>acCentralSPIFFEID := v\<rparr>) = agent_state_ok cfg"
  "agent_state_ok (cfg\<lparr>acWorkloadAPI := v\<rparr>) = agent_state_ok cfg"
  "0 < n \<Longrightarrow> agent_state_ok cfg \<Longrightarrow> agent_state_ok (cfg\<lparr>acCacheSize := n\<rparr>)"
  "ParseAddr v = Some a \<Longrightarrow> agent_state_ok cfg \<Longrightarrow> agent_state_ok (cfg\<lparr>acNodeIP := a\<rparr>)"
  "parse_code v = Inr c \<Longrightarrow> agent_state_ok cfg \<Longrightarrow> agent_state_ok (cfg\<lparr>acEdns0Code := c\<rparr>)"
  by (simp_all add: agent_state_ok_def parse_code_range ParseAddr_ok)

text \<open>Every property has one argument, and keeps a configuration well formed.\<close>

lemma agent_property_arg:
  assumes "agent_property D cfg d = Inr (cfg', d')"
  obtains f where "one_arg D d f = Inr (cfg', d')"
    "\<And>v. f v = Inr cfg' \<Longrightarrow> agent_state_ok cfg \<Longrightarrow> agent_state_ok cfg'"
  using assms unfolding agent_property_def Let_def
  by (simp only: if_False split: if_split_asm)
    (erule that, auto simp: agent_state_ok_frame split: sum.splits if_splits option.splits)+

lemma agent_property_keeps: "body_keeps agent_state_ok (agent_property D)"
  unfolding body_keeps_def by (auto elim!: agent_property_arg simp: one_arg_Inr)

lemma agent_property_uses:
  assumes "dispenser_laws D left"
  shows "body_uses left (agent_property D)"
  unfolding body_uses_def
proof (intro allI impI)
  fix cfg d cfg' d'
  assume "agent_property D cfg d = Inr (cfg', d')"
  then obtain f where f: "one_arg D d f = Inr (cfg', d')" by (rule agent_property_arg)
  show "left d' \<le> left d" by (rule one_arg_left [OF assms f])
qed

lemma agent_validate_Inr:
  "agent_validate UP cfg = Inr cfg' \<Longrightarrow>
     cfg' = cfg \<and> acCentralSPIFFEID cfg \<noteq> [] \<and> acWorkloadAPI cfg \<noteq> [] \<and>
     (\<exists>u. UP (acUpstreamURL cfg) = Inr u \<and> puScheme u = ''https'' \<and> (puPath u = [] \<or> puPath u = ''/'')) \<and>
     (acMode cfg = modeVM \<and> ednszone_Valid (acZone cfg) \<and> acNodeName cfg = [] \<or>
      acMode cfg = modeK8s \<and> acNodeName cfg \<noteq> [] \<and> acZone cfg = [])"
proof -
  have path: "TrimSuffix p ''/'' = [] \<longleftrightarrow> p = [] \<or> p = ''/''" for p
    using TrimSuffix_cases [of p "''/''"] by (auto simp: TrimSuffix_def HasSuffix_def)
  assume "agent_validate UP cfg = Inr cfg'"
  then show ?thesis
    by (auto simp: agent_validate_def path split: if_splits sum.splits mode.splits)
qed

subsection \<open>A concrete configuration\<close>

definition demo_vm :: block_text where
  "demo_vm = block_of
     [[''mode'', ''vm''], [''zone'', ''zone-a''], [''upstream'', ''https://central:8443''],
      [''central_spiffe_id'', ''spiffe://d/central''], [''workload_api'', ''unix:///run/agent.sock'']]"

definition demo_url :: url_parse where
  "demo_url s = Inr \<lparr>puScheme = takeWhile (\<lambda>c. c \<noteq> CHR '':'') s, puPath = []\<rparr>"

definition demo_spiffe :: "(string, string, string) spiffe_ops" where
  "demo_spiffe = \<lparr>spFromString = Inr, spNewX509Source = (\<lambda>t a. Inr a), spMTLSClientConfig = (\<lambda>src i. i)\<rparr>"

definition demo_k8s :: "(unit, unit) k8s_ops" where
  "demo_k8s = \<lparr>koInClusterConfig = Inl ''not in a cluster'', koNewForConfig = (\<lambda>r. Inr ())\<rparr>"

lemma demo_vm_parsed:
  "\<exists>cfg. agent_parseConfig demo_url [] block_dispenser 7 demo_vm = Some (Inr cfg) \<and> acMode cfg = modeVM \<and>
     acCacheSize cfg = 4096 \<and> acCentralSPIFFEID cfg = ''spiffe://d/central''"
proof -
  let ?r = "agent_parseConfig demo_url [] block_dispenser 7 demo_vm"
  have "case ?r of
      Some (Inr cfg) \<Rightarrow> acMode cfg = modeVM \<and> acCacheSize cfg = 4096 \<and> acCentralSPIFFEID cfg = ''spiffe://d/central''
    | _ \<Rightarrow> False"
    by code_simp
  then show ?thesis by (cases ?r; cases "the ?r") auto
qed

lemma demo_agent_setup:
  "\<exists>inst v opened c. agent_setup demo_url [] block_dispenser 7 lru_ref demo_spiffe demo_k8s [''zonedns_agent'', ''cache'']
     demo_vm ready_init = Some (Inr inst, v, opened, c)"
proof -
  have ord: "agent_CheckDirectiveOrder [''zonedns_agent'', ''cache''] = None" by code_simp
  show ?thesis
    using demo_vm_parsed
    by (auto simp: agent_setup_def ord zonecache_New_def lru_ref_def NewMTLS_def demo_spiffe_def Let_def
        wireResolverReadyLifecycle_def nextGeneration_def)
qed

section \<open>Properties\<close>

text \<open>
  Property C24. Parsing the node's configuration always ends, and a configuration it accepts is
  one the plugin can run with: the upstream is https and has no path, central's identity is
  pinned, the cache has room, the option code is in the local range; in VM mode the zone
  can be declared on the wire and no node name is given, in Kubernetes mode the node is
  named and no fixed zone is given. A \<open>NODE_IP\<close> that is set and not an address is refused.
\<close>

theorem agent_parseConfig_correct:
  assumes "dispenser_laws D left" and "left d < fuel"
  shows "\<exists>r. agent_parseConfig UP env D fuel d = Some r \<and>
    (case r of
       Inl err \<Rightarrow> True
     | Inr cfg \<Rightarrow>
         (env = [] \<or> ParseAddr env \<noteq> None) \<and>
         (\<exists>u. UP (acUpstreamURL cfg) = Inr u \<and> puScheme u = ''https'' \<and> (puPath u = [] \<or> puPath u = ''/'')) \<and>
         acCentralSPIFFEID cfg \<noteq> [] \<and> acWorkloadAPI cfg \<noteq> [] \<and> 0 < acCacheSize cfg \<and>
         65001 \<le> unat (acEdns0Code cfg) \<and> unat (acEdns0Code cfg) \<le> 65534 \<and>
         (acMode cfg = modeVM \<and> ednszone_Valid (acZone cfg) \<and> acNodeName cfg = [] \<or>
          acMode cfg = modeK8s \<and> acNodeName cfg \<noteq> [] \<and> acZone cfg = []))"
proof (cases "env = [] \<or> ParseAddr env \<noteq> None")
  case False
  then show ?thesis by (simp add: agent_parseConfig_def)
next
  case True
  then obtain cfg0 where cfg0: "(if env = [] then Some agent_default
      else map_option (\<lambda>a. agent_default\<lparr>acNodeIP := a\<rparr>) (ParseAddr env)) = Some cfg0" "agent_state_ok cfg0"
  proof -
    have "agent_state_ok agent_default"
      by (simp add: agent_state_ok_def agent_default_def defaultCacheSize_def ednszone_DefaultCode_def addr_ok_def)
    then show ?thesis
      using True that agent_state_ok_frame(9) by (cases "env = []") auto
  qed
  obtain r where r: "config_loop D (agent_property D) fuel cfg0 d = Some r"
    using config_loop_total [OF assms(1) agent_property_uses [OF assms(1)] assms(2)] by blast
  show ?thesis
  proof (cases r)
    case (Inl err)
    then show ?thesis using r cfg0 by (simp add: agent_parseConfig_def)
  next
    case (Inr cfg)
    have "agent_state_ok cfg"
      by (rule config_loop_inv [OF agent_property_keeps cfg0(2) r [unfolded Inr]])
    then show ?thesis
      using r Inr cfg0(1) True
      by (auto simp: agent_parseConfig_def agent_state_ok_def split: sum.splits dest!: agent_validate_Inr)
  qed
qed

theorem agent_parseConfig_correct_witness:
  "\<exists>cfg. agent_parseConfig demo_url [] block_dispenser 7 demo_vm = Some (Inr cfg) \<and> ednszone_Valid (acZone cfg)"
proof -
  have left: "block_left demo_vm < 7" by code_simp
  show ?thesis
    using agent_parseConfig_correct [OF block_dispenser_laws left, of demo_url "[]"] demo_vm_parsed by auto
qed

text \<open>
  Property C26. Setting the node up releases what it acquired: when any step fails, no X.509
  source stays open, the context, if it was created, is cancelled, and the shared readiness
  variables are untouched. On success exactly the source that shutting down closes is open,
  the upstream's TLS configuration authorizes central's exact identity, and the resolver is
  one that only ever names zones that can be declared.
\<close>

theorem agent_setup_safe:
  assumes "agent_setup UP env D fuel K S KO directives d v = Some (res, v', opened, cancelled)"
  shows "case res of
      Inl err \<Rightarrow> opened = [] \<and> cancelled \<noteq> Some False \<and> v' = v
    | Inr inst \<Rightarrow> opened = [aiSource inst] \<and> cancelled = Some False \<and>
        (\<exists>cfg sid r. agent_parseConfig UP env D fuel d = Some (Inr cfg) \<and>
           spFromString S (acCentralSPIFFEID cfg) = Inr sid \<and>
           hcTLSClientConfig (clHC (aiUpstream inst)) = spMTLSClientConfig S (aiSource inst) sid \<and>
           hcTimeout (clHC (aiUpstream inst)) = 5 * Second \<and>
           aiResolver inst = Some r \<and> resolver_ok (any_Zone r) \<and> aiCode inst = acEdns0Code cfg)"
proof -
  have static: "resolver_ok (any_Zone (ResStatic (NewStaticResolver z)))" if "ednszone_Valid z" for z
    using static.ok [of z] that by (simp add: any_Zone_def [abs_def])
  have pods: "resolver_ok (any_Zone (ResPods (podzone_New n l)))" for n l
    using pods.ok [OF inv_New] by (simp add: any_Zone_def [abs_def])
  have modes: "acMode cfg = modeVM \<and> ednszone_Valid (acZone cfg) \<or> acMode cfg = modeK8s"
    if "agent_parseConfig UP env D fuel d = Some (Inr cfg)" for cfg
    using that
    by (auto simp: agent_parseConfig_def split: option.splits sum.splits if_splits dest!: agent_validate_Inr)
  show ?thesis
    using assms static pods
    by (auto simp: agent_setup_def NewMTLS_def buildHTTPClient_def defaultQueryTimeout_def Let_def
        split: option.splits sum.splits prod.splits if_splits mode.splits dest!: modes)
qed

theorem agent_setup_safe_witness:
  "\<exists>inst v opened c r. agent_setup demo_url [] block_dispenser 7 lru_ref demo_spiffe demo_k8s
      [''zonedns_agent'', ''cache''] demo_vm ready_init = Some (Inr inst, v, opened, c) \<and>
     opened = [aiSource inst] \<and> aiResolver inst = Some r \<and> resolver_ok (any_Zone r)"
proof -
  obtain inst v opened c where
    ok: "agent_setup demo_url [] block_dispenser 7 lru_ref demo_spiffe demo_k8s [''zonedns_agent'', ''cache'']
      demo_vm ready_init = Some (Inr inst, v, opened, c)"
    using demo_agent_setup by blast
  show ?thesis using agent_setup_safe [OF ok] ok by auto
qed

end
