(* ===== verification/Agent_Concurrent.thy ===== *)
theory Agent_Concurrent
  imports Agent
begin

text \<open>
  The node serves many queries at a time. Each call of \<open>ServeDNS\<close> runs in a goroutine of its
  own and shares the cache with the others; it holds the cache's lock during its \<open>Get\<close> and
  during its \<open>Put\<close>, and between the two it waits for central. So a call is two atomic
  sections, \<open>begin_request\<close> (up to the outbound query) and \<open>finish_request\<close> (from the upstream's
  answer on), and sections of different calls interleave in any order: an answer may be put
  into the cache after any number of other requests came and went, under the time the
  request began. Serving one request at a time is the special case in which the two
  sections follow each other.
\<close>

section \<open>The two sections of a call\<close>

datatype begun = Hit "int \<times> string option" writer | Miss dns_msg

definition begin_request ::
  "dnslib \<Rightarrow> reqlib \<Rightarrow> unicode \<Rightarrow> (key, entry, 'l) lru_ops \<Rightarrow> Agent \<Rightarrow> agent_request \<Rightarrow> 'l Cache \<Rightarrow> (begun \<times> 'l Cache) option" where
  "begin_request L Q U K a q c =
     (let zo = request_zone a q; r = rqMsg q in
      case zonecache_Get U K c (reqName Q r) (reqQType Q r) (zone_key zo) (rqNow q) of
        (Some cached, c1) \<Rightarrow> Some (Hit (RcodeSuccess, None) (reply_with L (rqWriter q) r cached), c1)
      | (None, c1) \<Rightarrow>
          (case agent_outbound L (aEDNS0Code a) zo r of
             None \<Rightarrow> None
           | Some out \<Rightarrow> Some (Miss out, c1)))"

definition finish_request ::
  "dnslib \<Rightarrow> reqlib \<Rightarrow> unicode \<Rightarrow> (key, entry, 'l) lru_ops \<Rightarrow> Agent \<Rightarrow> agent_request \<Rightarrow> dns_msg \<Rightarrow> 'e + dns_msg \<Rightarrow> 'l Cache \<Rightarrow>
     ((int \<times> string option) \<times> writer) \<times> 'l Cache" where
  "finish_request L Q U K a q out res c =
     (let r = rqMsg q in
      case res of
        Inl err \<Rightarrow> (((RcodeServerFailure, None), rqWriter q), c)
      | Inr answer \<Rightarrow>
          if \<not> answersQuestion U out answer then (((RcodeServerFailure, None), rqWriter q), c)
          else (((RcodeSuccess, None), reply_with L (rqWriter q) r answer),
                zonecache_Put U K c (reqName Q r) (reqQType Q r) (zone_key (request_zone a q)) (Some answer) (rqNow q)))"

section \<open>Interleaving\<close>

text \<open>
  The calls in progress and done, by number. \<open>arrives\<close> is what requests there may be and
  \<open>answers\<close> what the upstream may return to an outbound query.
\<close>

datatype call = Waiting agent_request dns_msg | Done agent_request "int \<times> string option" writer

record 'l node =
  nCache :: "'l Cache"
  nCalls :: "nat \<Rightarrow> call option"

inductive node_step ::
  "dnslib \<Rightarrow> reqlib \<Rightarrow> unicode \<Rightarrow> (key, entry, 'l) lru_ops \<Rightarrow> Agent \<Rightarrow> (agent_request \<Rightarrow> bool) \<Rightarrow>
   (dns_msg \<Rightarrow> 'e + dns_msg \<Rightarrow> bool) \<Rightarrow> 'l node \<Rightarrow> 'l node \<Rightarrow> bool"
  for L Q U K a arrives answers where
  hit: "nCalls s i = None \<Longrightarrow> arrives q \<Longrightarrow> begin_request L Q U K a q (nCache s) = Some (Hit res w, c) \<Longrightarrow>
    node_step L Q U K a arrives answers s (s\<lparr>nCache := c, nCalls := (nCalls s)(i \<mapsto> Done q res w)\<rparr>)"
| miss: "nCalls s i = None \<Longrightarrow> arrives q \<Longrightarrow> begin_request L Q U K a q (nCache s) = Some (Miss out, c) \<Longrightarrow>
    node_step L Q U K a arrives answers s (s\<lparr>nCache := c, nCalls := (nCalls s)(i \<mapsto> Waiting q out)\<rparr>)"
| finish: "nCalls s i = Some (Waiting q out) \<Longrightarrow> answers out r \<Longrightarrow>
    finish_request L Q U K a q out r (nCache s) = ((res, w), c) \<Longrightarrow>
    node_step L Q U K a arrives answers s (s\<lparr>nCache := c, nCalls := (nCalls s)(i \<mapsto> Done q res w)\<rparr>)"

section \<open>Facts\<close>

subsection \<open>One call at a time\<close>

text \<open>\<open>ServeDNS\<close> is its two sections, one after the other.\<close>

lemma serve_sections:
  "serve L Q U K X a q s =
     (case begin_request L Q U K a q (sCache s) of
        None \<Rightarrow> None
      | Some (Hit res w, c) \<Rightarrow>
          Some (res, w, s\<lparr>sCache := c, sMetrics := inc_cache ''hit''
            (snd (resolveZone (a\<lparr>aResolver := rqResolver q\<rparr>) (wRemoteIP (rqWriter q)) (sMetrics s)))\<rparr>)
      | Some (Miss out, c) \<Rightarrow>
          (let (r, u) = X (sUpstream s) (rqCtx q) out;
               ((res, w), c') = finish_request L Q U K a q out r c;
               M = inc_cache ''miss'' (snd (resolveZone (a\<lparr>aResolver := rqResolver q\<rparr>) (wRemoteIP (rqWriter q)) (sMetrics s)))
           in Some (res, w, s\<lparr>sCache := c', sUpstream := u,
                sMetrics := (if res = (RcodeSuccess, None) then M else inc_upstreamErrors M)\<rparr>)))"
proof -
  obtain M where "resolveZone (a\<lparr>aResolver := rqResolver q\<rparr>) (wRemoteIP (rqWriter q)) (sMetrics s) = (request_zone a q, M)"
    using serve_zone [where a = a and q = q and M = "sMetrics s"] by (metis prod.collapse)
  then show ?thesis
    by (auto simp: serve_def agent_ServeDNS_def begin_request_def finish_request_def Let_def RcodeSuccess_def
        RcodeServerFailure_def split: prod.splits option.splits sum.splits)
qed

text \<open>A request served on its own is one or two steps of the relation.\<close>

lemma serve_steps:
  assumes "serve L Q U K X a q s = Some (res, w, s')" and "nCalls n i = None" and "nCache n = sCache s" and "arrives q"
    and "\<And>out. answers out (fst (X (sUpstream s) (rqCtx q) out))"
  shows "(node_step L Q U K a arrives answers)\<^sup>*\<^sup>* n (n\<lparr>nCache := sCache s', nCalls := (nCalls n)(i \<mapsto> Done q res w)\<rparr>)"
proof (cases "begin_request L Q U K a q (sCache s)")
  case None
  with assms(1) show ?thesis by (simp add: serve_sections)
next
  case (Some bc)
  then obtain b c where b: "begin_request L Q U K a q (nCache n) = Some (b, c)"
    using assms(3) by (cases bc) simp
  show ?thesis
  proof (cases b)
    case (Hit res1 w1)
    then show ?thesis
      using assms(1-4) b by (auto simp: serve_sections intro!: r_into_rtranclp node_step.hit)
  next
    case (Miss out)
    let ?n1 = "n\<lparr>nCache := c, nCalls := (nCalls n)(i \<mapsto> Waiting q out)\<rparr>"
    obtain r u where r: "X (sUpstream s) (rqCtx q) out = (r, u)" by fastforce
    obtain c' where "finish_request L Q U K a q out r c = ((res, w), c')" "sCache s' = c'"
      using assms(1,3) b r by (auto simp: serve_sections Miss Let_def split: prod.splits)
    then have "node_step L Q U K a arrives answers ?n1 (?n1\<lparr>nCache := sCache s', nCalls := (nCalls ?n1)(i \<mapsto> Done q res w)\<rparr>)"
      using assms(5) [of out] r by (intro node_step.finish [where r = r]) auto
    moreover have "node_step L Q U K a arrives answers n ?n1"
      using assms(2,4) b Miss by (intro node_step.miss) auto
    ultimately show ?thesis
      by (auto intro: converse_rtranclp_into_rtranclp)
  qed
qed

subsection \<open>Where an answer comes from\<close>

text \<open>
  The origin of an answer, under every interleaving: the upstream gave it to the outbound
  query of a request that arrived, and for this request it is either fresh or was put into
  the cache for a request of the same zone, name and type begun less than 30 seconds before.
\<close>

definition asked :: "dnslib \<Rightarrow> unicode \<Rightarrow> Agent \<Rightarrow> (agent_request \<Rightarrow> bool) \<Rightarrow> (dns_msg \<Rightarrow> 'e + dns_msg \<Rightarrow> bool) \<Rightarrow>
    agent_request \<Rightarrow> dns_msg \<Rightarrow> dns_msg \<Rightarrow> bool" where
  "asked L U a arrives answers q out m \<longleftrightarrow>
     arrives q \<and> agent_outbound L (aEDNS0Code a) (request_zone a q) (rqMsg q) = Some out \<and>
     answers out (Inr m) \<and> answersQuestion U out m"

definition put_from ::
  "dnslib \<Rightarrow> reqlib \<Rightarrow> unicode \<Rightarrow> Agent \<Rightarrow> (agent_request \<Rightarrow> bool) \<Rightarrow> (dns_msg \<Rightarrow> 'e + dns_msg \<Rightarrow> bool) \<Rightarrow> cache_op \<Rightarrow> bool" where
  "put_from L Q U a arrives answers op \<longleftrightarrow>
     (case op of
        PutOp n t z (Some m) t0 \<Rightarrow>
          (\<exists>q out. asked L U a arrives answers q out m \<and> n = reqName Q (rqMsg q) \<and> t = reqQType Q (rqMsg q) \<and>
             z = zone_key (request_zone a q) \<and> t0 = rqNow q)
      | _ \<Rightarrow> True)"

definition finished ::
  "dnslib \<Rightarrow> reqlib \<Rightarrow> unicode \<Rightarrow> Agent \<Rightarrow> (agent_request \<Rightarrow> bool) \<Rightarrow> (dns_msg \<Rightarrow> 'e + dns_msg \<Rightarrow> bool) \<Rightarrow>
   agent_request \<Rightarrow> int \<times> string option \<Rightarrow> writer \<Rightarrow> bool" where
  "finished L Q U a arrives answers q res w \<longleftrightarrow>
     res = (RcodeServerFailure, None) \<and> w = rqWriter q \<or>
     res = (RcodeSuccess, None) \<and>
     (\<exists>q0 out m r. asked L U a arrives answers q0 out m \<and> same_query Q U a q0 q \<and>
        w = reply_with L (rqWriter q) (rqMsg q) r \<and>
        (q0 = q \<and> r = m \<or> rqNow q < rqNow q0 + 30 * Second \<and> (\<exists>ttl. r = retime ttl m)))"

definition node_start ::
  "(key, entry, 'l) lru_ops \<Rightarrow> (int \<Rightarrow> 'l \<Rightarrow> bool) \<Rightarrow> int \<Rightarrow> (agent_request \<Rightarrow> bool) \<Rightarrow> 'l node \<Rightarrow> bool" where
  "node_start K ok n arrives s \<longleftrightarrow>
     lru_laws K ok \<and> zonecache_New K n = Inr (nCache s) \<and> nCalls s = Map.empty \<and>
     (\<forall>q. arrives q \<longrightarrow> resolver_ok (rqResolver q))"

definition call_ok ::
  "dnslib \<Rightarrow> reqlib \<Rightarrow> unicode \<Rightarrow> Agent \<Rightarrow> (agent_request \<Rightarrow> bool) \<Rightarrow> (dns_msg \<Rightarrow> 'e + dns_msg \<Rightarrow> bool) \<Rightarrow> call \<Rightarrow> bool" where
  "call_ok L Q U a arrives answers call \<longleftrightarrow>
     (case call of
        Waiting q out \<Rightarrow> arrives q \<and> agent_outbound L (aEDNS0Code a) (request_zone a q) (rqMsg q) = Some out
      | Done q res w \<Rightarrow> arrives q \<and> finished L Q U a arrives answers q res w)"

definition node_inv ::
  "dnslib \<Rightarrow> reqlib \<Rightarrow> unicode \<Rightarrow> (key, entry, 'l) lru_ops \<Rightarrow> (int \<Rightarrow> 'l \<Rightarrow> bool) \<Rightarrow> int \<Rightarrow> Agent \<Rightarrow> (agent_request \<Rightarrow> bool) \<Rightarrow>
   (dns_msg \<Rightarrow> 'e + dns_msg \<Rightarrow> bool) \<Rightarrow> 'l node \<Rightarrow> bool" where
  "node_inv L Q U K ok n a arrives answers s \<longleftrightarrow>
     lru_laws K ok \<and> (\<forall>q. arrives q \<longrightarrow> resolver_ok (rqResolver q)) \<and>
     (\<exists>c0 ops. zonecache_New K n = Inr c0 \<and> nCache s = cache_run U K ops c0 \<and>
        list_all (put_from L Q U a arrives answers) ops) \<and>
     (\<forall>i call. nCalls s i = Some call \<longrightarrow> call_ok L Q U a arrives answers call)"

lemma hit_finished:
  assumes "lru_laws K ok" and "zonecache_New K n = Inr c0" and "list_all (put_from L Q U a arrives answers) ops"
    and "\<And>q. arrives q \<Longrightarrow> resolver_ok (rqResolver q)" and "arrives q"
    and "fst (zonecache_Get U K (cache_run U K ops c0) (reqName Q (rqMsg q)) (reqQType Q (rqMsg q))
           (zone_key (request_zone a q)) (rqNow q)) = Some r"
  shows "finished L Q U a arrives answers q (RcodeSuccess, None) (reply_with L (rqWriter q) (rqMsg q) r)"
proof -
  obtain n0 m t0 ttl where put: "PutOp n0 (reqQType Q (rqMsg q)) (zone_key (request_zone a q)) (Some m) t0 \<in> set ops"
      "ToLower U n0 = ToLower U (reqName Q (rqMsg q))" "rqNow q < t0 + 30 * Second" "r = retime ttl m"
    using Get_run_origin [OF assms(1,2,6)] by blast
  then obtain q0 out where q0: "asked L U a arrives answers q0 out m" "n0 = reqName Q (rqMsg q0)"
      "reqQType Q (rqMsg q) = reqQType Q (rqMsg q0)" "zone_key (request_zone a q) = zone_key (request_zone a q0)" "t0 = rqNow q0"
    using assms(3) by (auto simp: list_all_iff put_from_def dest!: bspec)
  then have "request_zone a q0 = request_zone a q"
    using assms(4,5) by (intro zone_key_inj) (auto simp: asked_def dest: request_zone_valid)
  then have "same_query Q U a q0 q"
    using q0 put(2) by (simp add: same_query_def)
  with q0 put(3,4) show ?thesis
    unfolding finished_def by blast
qed

text \<open>What a section does to the cache, as operations of the cache.\<close>

lemma begin_cache:
  "begin_request L Q U K a q c = Some (b, c') \<Longrightarrow>
     c' = cache_run U K [GetOp (reqName Q (rqMsg q)) (reqQType Q (rqMsg q)) (zone_key (request_zone a q)) (rqNow q)] c"
  by (auto simp: begin_request_def cache_run_def Let_def split: prod.splits option.splits)

lemma begin_hit:
  "begin_request L Q U K a q c = Some (Hit res w, c') \<Longrightarrow>
     \<exists>r. fst (zonecache_Get U K c (reqName Q (rqMsg q)) (reqQType Q (rqMsg q)) (zone_key (request_zone a q)) (rqNow q)) = Some r \<and>
       res = (RcodeSuccess, None) \<and> w = reply_with L (rqWriter q) (rqMsg q) r"
  by (auto simp: begin_request_def Let_def split: prod.splits option.splits)

lemma begin_miss:
  "begin_request L Q U K a q c = Some (Miss out, c') \<Longrightarrow>
     agent_outbound L (aEDNS0Code a) (request_zone a q) (rqMsg q) = Some out"
  by (auto simp: begin_request_def Let_def split: prod.splits option.splits)

lemma finish_cases:
  assumes "finish_request L Q U K a q out r c = ((res, w), c')"
  obtains (failed) "res = (RcodeServerFailure, None)" "w = rqWriter q" "c' = c"
  | (fresh) m where "r = Inr m" "answersQuestion U out m" "res = (RcodeSuccess, None)"
      "w = reply_with L (rqWriter q) (rqMsg q) m"
      "c' = cache_run U K [PutOp (reqName Q (rqMsg q)) (reqQType Q (rqMsg q)) (zone_key (request_zone a q)) (Some m) (rqNow q)] c"
  using assms by (auto simp: finish_request_def cache_run_def Let_def split: sum.splits if_splits)

text \<open>An invariant kept by a step that runs operations on the cache and changes one call.\<close>

lemma node_inv_update:
  assumes "node_inv L Q U K ok n a arrives answers s" and "c = cache_run U K ops (nCache s)"
    and "list_all (put_from L Q U a arrives answers) ops"
    and "call_ok L Q U a arrives answers call"
  shows "node_inv L Q U K ok n a arrives answers (s\<lparr>nCache := c, nCalls := (nCalls s)(i \<mapsto> call)\<rparr>)"
proof -
  obtain c0 ops0 where "zonecache_New K n = Inr c0" "nCache s = cache_run U K ops0 c0"
      "list_all (put_from L Q U a arrives answers) ops0"
    using assms(1) by (auto simp: node_inv_def)
  with assms(2,3) have "zonecache_New K n = Inr c0 \<and> c = cache_run U K (ops0 @ ops) c0 \<and>
      list_all (put_from L Q U a arrives answers) (ops0 @ ops)"
    by (simp add: cache_run_append)
  with assms(1,4) show ?thesis
    unfolding node_inv_def by auto
qed

lemma node_inv_call:
  "node_inv L Q U K ok n a arrives answers s \<Longrightarrow> nCalls s i = Some call \<Longrightarrow> call_ok L Q U a arrives answers call"
  unfolding node_inv_def by blast

lemma node_inv_start: "node_start K ok n arrives s \<Longrightarrow> node_inv L Q U K ok n a arrives answers s"
  unfolding node_start_def node_inv_def
  by (auto intro!: exI [of _ "nCache s"] exI [of _ "[]"] simp: cache_run_def)

lemma node_inv_step [keeps_inv]:
  assumes "node_inv L Q U K ok n a arrives answers s" and "node_step L Q U K a arrives answers s t"
  shows "node_inv L Q U K ok n a arrives answers t"
  using assms(2)
proof cases
  case (hit i q res w c)
  obtain c0 ops where c0: "lru_laws K ok" "zonecache_New K n = Inr c0" "nCache s = cache_run U K ops c0"
      "list_all (put_from L Q U a arrives answers) ops" and oks: "\<And>q. arrives q \<Longrightarrow> resolver_ok (rqResolver q)"
    using assms(1) by (auto simp: node_inv_def)
  obtain r where r: "fst (zonecache_Get U K (cache_run U K ops c0) (reqName Q (rqMsg q)) (reqQType Q (rqMsg q))
      (zone_key (request_zone a q)) (rqNow q)) = Some r" "res = (RcodeSuccess, None)" "w = reply_with L (rqWriter q) (rqMsg q) r"
    using begin_hit [OF hit(4)] by (auto simp: c0(3))
  have "finished L Q U a arrives answers q res w"
    unfolding r(2,3) by (rule hit_finished [OF c0(1,2,4) oks hit(3) r(1)])
  then show ?thesis
    unfolding hit(1)
    by (intro node_inv_update [OF assms(1) begin_cache [OF hit(4)]]) (auto simp: put_from_def call_ok_def hit(3))
next
  case (miss i q out c)
  then show ?thesis
    unfolding miss(1)
    by (intro node_inv_update [OF assms(1) begin_cache [OF miss(4)]]) (auto simp: put_from_def call_ok_def dest: begin_miss)
next
  case (finish i q out r res w c)
  have q: "arrives q" "agent_outbound L (aEDNS0Code a) (request_zone a q) (rqMsg q) = Some out"
    using node_inv_call [OF assms(1) finish(2)] by (simp_all add: call_ok_def)
  from finish(4) show ?thesis
  proof (cases rule: finish_cases)
    case failed
    then show ?thesis
      unfolding finish(1)
      by (intro node_inv_update [OF assms(1), of _ "[]"]) (auto simp: cache_run_def call_ok_def finished_def q)
  next
    case (fresh m)
    then have "asked L U a arrives answers q out m" and "same_query Q U a q q"
      using q finish(3) by (simp_all add: asked_def same_query_def)
    with fresh show ?thesis
      unfolding finish(1)
      by (intro node_inv_update [OF assms(1) fresh(5)]) (auto simp: put_from_def call_ok_def finished_def q)
  qed
qed

interpretation node: step_system "node_start K ok n arrives" "node_step L Q U K a arrives answers"
    "node_inv L Q U K ok n a arrives answers" for L Q U K ok n a arrives answers
  by unfold_locales (auto intro: node_inv_start node_inv_step)

lemma reachable_finished:
  assumes "node_start K ok n arrives s" and "(node_step L Q U K a arrives answers)\<^sup>*\<^sup>* s t"
    and "nCalls t i = Some (Done q res w)"
  shows "arrives q" and "finished L Q U a arrives answers q res w"
  using node_inv_call [OF node.reachable_inv [OF assms(1,2)] assms(3)] by (simp_all add: call_ok_def)

lemma finished_written:
  assumes "reply_laws L" and "mQuestion (rqMsg q) = qu # qus" and "finished L Q U a arrives answers q res w"
  shows "res = (RcodeServerFailure, None) \<and> w = rqWriter q \<or>
    (\<exists>q0 out m msg. asked L U a arrives answers q0 out m \<and> same_query Q U a q0 q \<and>
       wWritten w = wWritten (rqWriter q) @ [msg] \<and> mId msg = mId (rqMsg q) \<and> mQuestion msg = [qu] \<and>
       mRcode msg = mRcode m \<and>
       (q0 = q \<and> mAnswer msg = mAnswer m \<or>
        rqNow q < rqNow q0 + 30 * Second \<and> (\<exists>ttl. mAnswer msg = map (with_ttl ttl) (mAnswer m))))"
proof (cases "res = (RcodeServerFailure, None) \<and> w = rqWriter q")
  case False
  then obtain q0 out m r where q0: "asked L U a arrives answers q0 out m" "same_query Q U a q0 q"
      and w: "w = reply_with L (rqWriter q) (rqMsg q) r"
      and r: "q0 = q \<and> r = m \<or> rqNow q < rqNow q0 + 30 * Second \<and> (\<exists>ttl. r = retime ttl m)"
    using assms(3) unfolding finished_def by blast
  obtain msg where "wWritten w = wWritten (rqWriter q) @ [msg]" "mId msg = mId (rqMsg q)" "mQuestion msg = [qu]"
      "mRcode msg = mRcode r" "mAnswer msg = mAnswer r"
    using reply_with_written [OF assms(1,2), of "rqWriter q" r] w by blast
  moreover have "mRcode r = mRcode m" "q0 = q \<and> mAnswer r = mAnswer m \<or>
      rqNow q < rqNow q0 + 30 * Second \<and> (\<exists>ttl. mAnswer r = map (with_ttl ttl) (mAnswer m))"
    using r by (auto simp: retime_def)
  ultimately show ?thesis
    using q0 by (intro disjI2 exI [of _ q0] exI [of _ out] exI [of _ m] exI [of _ msg]) simp
qed blast

section \<open>Properties\<close>

text \<open>
  Property C6. The node never gives one zone's answer to another zone, however many requests
  it serves at a time and however their sections interleave: a request that is done either
  failed with nothing written, or got one message under its own ID and question whose
  records, up to their TTL, central gave to an outbound query that declared exactly the zone
  this request was resolved to (none if it was resolved to none); that query was this
  request's own or, less than 30 seconds before, that of a request for the same name up to
  case and the same type.
\<close>

theorem node_isolation:
  assumes "edns_laws L" and "reply_laws L" and "node_start K ok n arrives s"
    and "(node_step L Q U K a arrives answers)\<^sup>*\<^sup>* s t"
    and "nCalls t i = Some (Done q res w)" and "mQuestion (rqMsg q) = qu # qus"
  shows "res = (RcodeServerFailure, None) \<and> w = rqWriter q \<or>
    (\<exists>q0 out m msg. arrives q0 \<and> request_zone a q0 = request_zone a q \<and>
       reqQType Q (rqMsg q0) = reqQType Q (rqMsg q) \<and> ToLower U (reqName Q (rqMsg q0)) = ToLower U (reqName Q (rqMsg q)) \<and>
       ednszone_Get L out (aEDNS0Code a) = request_zone a q \<and> mQuestion out = mQuestion (rqMsg q0) \<and>
       answers out (Inr m) \<and> answersQuestion U out m \<and>
       wWritten w = wWritten (rqWriter q) @ [msg] \<and> mId msg = mId (rqMsg q) \<and> mQuestion msg = [qu] \<and>
       mRcode msg = mRcode m \<and>
       (q0 = q \<and> mAnswer msg = mAnswer m \<or>
        rqNow q < rqNow q0 + 30 * Second \<and> (\<exists>ttl. mAnswer msg = map (with_ttl ttl) (mAnswer m))))"
proof (cases "res = (RcodeServerFailure, None) \<and> w = rqWriter q")
  case False
  then obtain q0 out m msg where q0: "asked L U a arrives answers q0 out m" and same: "same_query Q U a q0 q"
      and msg: "wWritten w = wWritten (rqWriter q) @ [msg]" "mId msg = mId (rqMsg q)" "mQuestion msg = [qu]"
        "mRcode msg = mRcode m" "q0 = q \<and> mAnswer msg = mAnswer m \<or>
          rqNow q < rqNow q0 + 30 * Second \<and> (\<exists>ttl. mAnswer msg = map (with_ttl ttl) (mAnswer m))"
    using finished_written [OF assms(2,6) reachable_finished(2) [OF assms(3-5)]] by blast
  have "resolver_ok (rqResolver q0)"
    using q0 assms(3) by (auto simp: asked_def node_start_def)
  with q0 have "ednszone_Get L out (aEDNS0Code a) = request_zone a q0" "mQuestion out = mQuestion (rqMsg q0)"
    using request_outbound [OF assms(1)] by (auto simp: asked_def)
  with q0 same msg show ?thesis
    by (intro disjI2 exI [of _ q0] exI [of _ out] exI [of _ m] exI [of _ msg]) (simp add: asked_def same_query_def)
qed blast

text \<open>Two requests at a time: the second begins and ends while the first one waits.\<close>

theorem node_isolation_witness:
  "\<exists>t res w. (node_step dnslib_ref reqlib_ref demo_U lru_ref demo_agent_node (\<lambda>q. \<exists>i now. q = demo_request i now)
      (\<lambda>out r. r = fst (demo_upstream () \<lparr>ctxHTTP = None\<rparr> out)))\<^sup>*\<^sup>* \<lparr>nCache = sCache demo_start, nCalls = Map.empty\<rparr> t \<and>
     nCalls t 0 \<noteq> None \<and> nCalls t 1 = Some (Done (demo_request 8 0) res w) \<and>
     (res = (RcodeServerFailure, None) \<and> w = demo_client ''10.0.0.1'' \<or> (\<exists>msg. wWritten w = [msg] \<and> mId msg = 8))"
proof -
  let ?step = "node_step dnslib_ref reqlib_ref demo_U lru_ref demo_agent_node (\<lambda>q. \<exists>i now. q = demo_request i now)
      (\<lambda>out r. r = fst (demo_upstream () \<lparr>ctxHTTP = None\<rparr> out))"
  let ?s = "\<lparr>nCache = sCache demo_start, nCalls = Map.empty\<rparr>"
  obtain out where "agent_outbound dnslib_ref (aEDNS0Code demo_agent_node)
      (request_zone demo_agent_node (demo_request 7 0)) (rqMsg (demo_request 7 0)) = Some out"
    using outbound_total [OF edns_laws_ref] by blast
  then have "begin_request dnslib_ref reqlib_ref demo_U lru_ref demo_agent_node (demo_request 7 0) (nCache ?s) =
      Some (Miss out, sCache demo_start)"
    by (simp add: begin_request_def demo_start_def zonecache_Get_def lru_ref_def lru_get_def Let_def)
  then have 1: "?step ?s (?s\<lparr>nCache := sCache demo_start, nCalls := (nCalls ?s)(0 \<mapsto> Waiting (demo_request 7 0) out)\<rparr>)"
    by (intro node_step.miss) auto
  let ?s1 = "?s\<lparr>nCache := sCache demo_start, nCalls := (nCalls ?s)(0 \<mapsto> Waiting (demo_request 7 0) out)\<rparr>"
  obtain res w s' where ser: "serve dnslib_ref reqlib_ref demo_U lru_ref (exchange_log demo_upstream) demo_agent_node
      (demo_request 8 0) demo_start = Some (res, w, s')"
    using serve_total [OF edns_laws_ref] by blast
  let ?t = "?s1\<lparr>nCache := sCache s', nCalls := (nCalls ?s1)(1 \<mapsto> Done (demo_request 8 0) res w)\<rparr>"
  have 2: "?step\<^sup>*\<^sup>* ?s1 ?t"
    by (rule serve_steps [OF ser]) (auto simp: demo_upstream_def exchange_log_def)
  have start: "node_start lru_ref lru_ref_ok 8 (\<lambda>q. \<exists>i now. q = demo_request i now) ?s"
    unfolding node_start_def using demo_resolver_ok lru_laws_ref
    by (auto simp: zonecache_New_def demo_start_def) (simp add: lru_ref_def)
  have calls: "nCalls ?t 1 = Some (Done (demo_request 8 0) res w)" "nCalls ?t 0 \<noteq> None"
    by simp_all
  have q: "mQuestion (rqMsg (demo_request 8 0)) = demo_in # []" "rqWriter (demo_request 8 0) = demo_client ''10.0.0.1''"
    "wWritten (demo_client ''10.0.0.1'') = []" "mId (rqMsg (demo_request 8 0)) = 8"
    by (simp_all add: demo_request_def demo_ask_def demo_in_def demo_client_def)
  note steps = converse_rtranclp_into_rtranclp [of ?step, OF 1 2]
  from node_isolation [OF edns_laws_ref reply_laws_ref start steps calls(1) q(1)]
  have "res = (RcodeServerFailure, None) \<and> w = demo_client ''10.0.0.1'' \<or> (\<exists>msg. wWritten w = [msg] \<and> mId msg = 8)"
    unfolding q by auto
  with steps calls show ?thesis by blast
qed

end
