(* ===== verification/Drift.thy ===== *)
theory Drift
  imports Pod_Zone Registry
begin

text \<open>
  Package \<open>internal/drift\<close>: the comparison of the names VirtualServices declare with the
  names pods are labelled with. \<open>filter.go\<close> decides what takes part, \<open>collect.go\<close> lists and
  sorts the names into compared and skipped ones, \<open>drift.go\<close> compares. The Kubernetes
  clients are not part of this repository: a listing is a function of what is asked for,
  and an API error is a value of the type \<open>'e\<close>, told apart only by \<open>errors.IsNotFound\<close>.
  Go ranges over a map in any order, so each of the two ranges of \<open>Compare\<close> takes its
  order as a parameter.
\<close>

section \<open>Filtering\<close>

type_synonym SkipReason = string

definition SkipWildcard :: SkipReason where
  "SkipWildcard = ''wildcard host''"

definition SkipGatewayBound :: SkipReason where
  "SkipGatewayBound = ''bound to a gateway rather than the mesh''"

definition SkipShortName :: SkipReason where
  "SkipShortName = ''short name, not an FQDN''"

definition SkipClusterLocal :: SkipReason where
  "SkipClusterLocal = ''cluster-internal name''"

definition DefaultClusterDomain :: string where
  "DefaultClusterDomain = ''cluster.local''"

definition ShouldSkipHost :: "string \<Rightarrow> string \<Rightarrow> SkipReason" where
  "ShouldSkipHost host clusterDomain =
     (if HasPrefix host ''*'' then SkipWildcard
      else if CHR ''.'' \<notin> set host then SkipShortName
      else if clusterDomain \<noteq> [] \<and> HasSuffix host (''.'' @ TrimSuffix clusterDomain ''.'') then SkipClusterLocal
      else [])"

fun mesh_loop :: "string list \<Rightarrow> SkipReason" where
  "mesh_loop [] = SkipGatewayBound"
| "mesh_loop (g # gs) = (if g = ''mesh'' then [] else mesh_loop gs)"

definition ShouldSkipVirtualService :: "string list \<Rightarrow> SkipReason" where
  "ShouldSkipVirtualService gateways = (if length gateways = 0 then [] else mesh_loop gateways)"

section \<open>Collecting\<close>

definition HostLabel :: string where
  "HostLabel = ''zonedns.io/host''"

record gvr =
  gvGroup :: string
  gvVersion :: string
  gvResource :: string

definition VirtualServiceGVRs :: "gvr list" where
  "VirtualServiceGVRs =
     [\<lparr>gvGroup = ''networking.istio.io'', gvVersion = ''v1'', gvResource = ''virtualservices''\<rparr>,
      \<lparr>gvGroup = ''networking.istio.io'', gvVersion = ''v1beta1'', gvResource = ''virtualservices''\<rparr>]"

text \<open>
  An unstructured object: its namespace and name, and what \<open>unstructured.NestedStringSlice\<close>
  returns for a path of fields (an error, not found, or the list).
\<close>

record vservice =
  vsNamespace :: string
  vsName :: string
  vsNested :: "string list \<Rightarrow> string + string list option"

record Skipped =
  skSource :: string
  skHost :: string
  skReason :: SkipReason

datatype 'e drift_error =
    ErrListing gvr 'e
  | ErrNoCRD "'e option"
  | ErrField string "string list" string
  | ErrListPods string 'e
  | ErrLoadConfig 'e
  | ErrTypedClient 'e
  | ErrDynamicClient 'e

type_synonym 'e vs_client = "gvr \<Rightarrow> string \<Rightarrow> 'e + vservice list"
type_synonym 'e pod_client = "string \<Rightarrow> string \<Rightarrow> 'e + pod list"

fun list_loop :: "('e \<Rightarrow> bool) \<Rightarrow> 'e vs_client \<Rightarrow> string \<Rightarrow> 'e option \<Rightarrow> gvr list \<Rightarrow> 'e drift_error + vservice list" where
  "list_loop isNotFound client ns lastErr [] = Inl (ErrNoCRD lastErr)"
| "list_loop isNotFound client ns lastErr (g # gs) =
     (case client g ns of
        Inr vss \<Rightarrow> Inr vss
      | Inl err \<Rightarrow>
          if \<not> isNotFound err then Inl (ErrListing g err)
          else list_loop isNotFound client ns (Some err) gs)"

definition listVirtualServices :: "('e \<Rightarrow> bool) \<Rightarrow> 'e vs_client \<Rightarrow> string \<Rightarrow> 'e drift_error + vservice list" where
  "listVirtualServices isNotFound client ns = list_loop isNotFound client ns None VirtualServiceGVRs"

definition stringSlice :: "vservice \<Rightarrow> string list \<Rightarrow> string + string list" where
  "stringSlice obj path =
     (case vsNested obj path of
        Inl err \<Rightarrow> Inl err
      | Inr None \<Rightarrow> Inr []
      | Inr (Some out) \<Rightarrow> Inr out)"

definition vs_source :: "vservice \<Rightarrow> string" where
  "vs_source vs = vsNamespace vs @ ''/'' @ vsName vs"

fun skip_loop :: "string \<Rightarrow> SkipReason \<Rightarrow> Skipped list \<Rightarrow> string list \<Rightarrow> Skipped list" where
  "skip_loop source reason skipped [] = skipped"
| "skip_loop source reason skipped (h # hs) =
     skip_loop source reason (skipped @ [\<lparr>skSource = source, skHost = h, skReason = reason\<rparr>]) hs"

fun host_loop ::
  "string \<Rightarrow> string \<Rightarrow> string list \<times> Skipped list \<Rightarrow> string list \<Rightarrow> string list \<times> Skipped list" where
  "host_loop clusterDomain source (hosts, skipped) [] = (hosts, skipped)"
| "host_loop clusterDomain source (hosts, skipped) (h # hs) =
     (let reason = ShouldSkipHost h clusterDomain in
      if reason \<noteq> [] then
        host_loop clusterDomain source (hosts, skipped @ [\<lparr>skSource = source, skHost = h, skReason = reason\<rparr>]) hs
      else host_loop clusterDomain source (hosts @ [h], skipped) hs)"

fun collect_loop ::
  "string \<Rightarrow> string list \<times> Skipped list \<Rightarrow> vservice list \<Rightarrow> 'e drift_error + string list \<times> Skipped list" where
  "collect_loop clusterDomain (hosts, skipped) [] = Inr (hosts, skipped)"
| "collect_loop clusterDomain (hosts, skipped) (vs # vss) =
     (let source = vs_source vs in
      case stringSlice vs [''spec'', ''gateways''] of
        Inl err \<Rightarrow> Inl (ErrField source [''spec'', ''gateways''] err)
      | Inr gateways \<Rightarrow>
          (case stringSlice vs [''spec'', ''hosts''] of
             Inl err \<Rightarrow> Inl (ErrField source [''spec'', ''hosts''] err)
           | Inr vsHosts \<Rightarrow>
               (let reason = ShouldSkipVirtualService gateways in
                if reason \<noteq> [] then
                  collect_loop clusterDomain (hosts, skip_loop source reason skipped vsHosts) vss
                else collect_loop clusterDomain (host_loop clusterDomain source (hosts, skipped) vsHosts) vss)))"

definition CollectVirtualServiceHosts ::
  "('e \<Rightarrow> bool) \<Rightarrow> 'e vs_client \<Rightarrow> string \<Rightarrow> string \<Rightarrow> 'e drift_error + string list \<times> Skipped list" where
  "CollectVirtualServiceHosts isNotFound client clusterDomain ns =
     (case listVirtualServices isNotFound client ns of
        Inl err \<Rightarrow> Inl err
      | Inr vss \<Rightarrow> collect_loop clusterDomain ([], []) vss)"

text \<open>\<open>pods.Items[i].Labels[hostLabel]\<close> reads the empty string for a missing label.\<close>

definition CollectPodHosts :: "'e pod_client \<Rightarrow> string \<Rightarrow> string \<Rightarrow> 'e drift_error + string list" where
  "CollectPodHosts client hostLabel ns =
     (case client ns hostLabel of
        Inl err \<Rightarrow> Inl (ErrListPods hostLabel err)
      | Inr pods \<Rightarrow> Inr (map (\<lambda>p. case gm_get (pLabels p) hostLabel of None \<Rightarrow> [] | Some v \<Rightarrow> v) pods))"

section \<open>Comparing\<close>

record Report =
  UnclaimedHosts :: "string list"
  UnroutedLabels :: "string list"

definition OK :: "Report \<Rightarrow> bool" where
  "OK r = (length (UnclaimedHosts r) = 0 \<and> length (UnroutedLabels r) = 0)"

fun toSet_loop :: "(string, unit) gomap \<Rightarrow> string list \<Rightarrow> (string, unit) gomap" where
  "toSet_loop out [] = out"
| "toSet_loop out (s # ss) = (if s = [] then toSet_loop out ss else toSet_loop (gm_put out s ()) ss)"

definition toSet :: "string list \<Rightarrow> (string, unit) gomap" where
  "toSet xs = toSet_loop gm_empty xs"

type_synonym map_range = "(string, unit) gomap \<Rightarrow> string list"

fun absent_loop :: "(string, unit) gomap \<Rightarrow> string list \<Rightarrow> string list \<Rightarrow> string list" where
  "absent_loop other acc [] = acc"
| "absent_loop other acc (h # hs) =
     (case gm_get other h of
        None \<Rightarrow> absent_loop other (acc @ [h]) hs
      | Some u \<Rightarrow> absent_loop other acc hs)"

definition Compare :: "map_range \<Rightarrow> map_range \<Rightarrow> string list \<Rightarrow> string list \<Rightarrow> Report" where
  "Compare rangeVS rangeLabel virtualServiceHosts podLabelHosts =
     (let inVS = toSet virtualServiceHosts; inLabel = toSet podLabelHosts;
          unclaimed = absent_loop inLabel [] (rangeVS inVS);
          unrouted = absent_loop inVS [] (rangeLabel inLabel)
      in \<lparr>UnclaimedHosts = sort unclaimed, UnroutedLabels = sort unrouted\<rparr>)"

section \<open>What the collection and the comparison mean\<close>

text \<open>A range over a map visits every key of it once, in some order.\<close>

definition range_laws :: "map_range \<Rightarrow> bool" where
  "range_laws rng \<longleftrightarrow> (\<forall>m. gm_ok m \<longrightarrow> distinct (rng m) \<and> set (rng m) = set (gm_keys m))"

text \<open>
  The specification's reading of a VirtualService: the hosts it declares, whether it is
  bound to the mesh, and whether both fields can be read; and the names that take part.
\<close>

definition readable :: "vservice \<Rightarrow> bool" where
  "readable vs \<longleftrightarrow> (\<exists>gs. vsNested vs [''spec'', ''gateways''] = Inr gs) \<and> (\<exists>hs. vsNested vs [''spec'', ''hosts''] = Inr hs)"

definition declared_hosts :: "vservice \<Rightarrow> string list" where
  "declared_hosts vs = (case vsNested vs [''spec'', ''hosts''] of Inr (Some hs) \<Rightarrow> hs | _ \<Rightarrow> [])"

definition mesh_bound :: "vservice \<Rightarrow> bool" where
  "mesh_bound vs \<longleftrightarrow>
     (case vsNested vs [''spec'', ''gateways''] of Inr (Some gs) \<Rightarrow> gs = [] \<or> ''mesh'' \<in> set gs | _ \<Rightarrow> True)"

definition cluster_local :: "string \<Rightarrow> string \<Rightarrow> bool" where
  "cluster_local cdom h \<longleftrightarrow> cdom \<noteq> [] \<and> (\<exists>p. h = p @ ''.'' @ TrimSuffix cdom ''.'')"

definition takes_part :: "string \<Rightarrow> string \<Rightarrow> bool" where
  "takes_part cdom h \<longleftrightarrow> take 1 h \<noteq> ''*'' \<and> CHR ''.'' \<in> set h \<and> \<not> cluster_local cdom h"

definition compared :: "string \<Rightarrow> vservice list \<Rightarrow> string list" where
  "compared cdom vss = concat (map (\<lambda>vs. if mesh_bound vs then filter (takes_part cdom) (declared_hosts vs) else []) vss)"

text \<open>The reason a declared host is skipped for, in the words of the specification.\<close>

definition excuse :: "string \<Rightarrow> vservice \<Rightarrow> string \<Rightarrow> SkipReason \<Rightarrow> bool" where
  "excuse cdom vs h reason \<longleftrightarrow>
     (if \<not> mesh_bound vs then reason = SkipGatewayBound
      else if take 1 h = ''*'' then reason = SkipWildcard
      else if CHR ''.'' \<notin> set h then reason = SkipShortName
      else cluster_local cdom h \<and> reason = SkipClusterLocal)"

section \<open>Facts\<close>

subsection \<open>Filtering\<close>

lemmas skip_reasons = SkipWildcard_def SkipGatewayBound_def SkipShortName_def SkipClusterLocal_def

lemma HasPrefix_star: "HasPrefix h ''*'' \<longleftrightarrow> take 1 h = ''*''"
  by (cases h) (auto simp: HasPrefix_iff)

lemma ShouldSkipHost_none: "ShouldSkipHost h cdom = [] \<longleftrightarrow> takes_part cdom h"
  by (simp add: ShouldSkipHost_def takes_part_def cluster_local_def HasPrefix_star HasSuffix_iff skip_reasons)

lemma mesh_loop_none: "mesh_loop gs = (if ''mesh'' \<in> set gs then [] else SkipGatewayBound)"
  by (induction gs) auto

lemma ShouldSkipVirtualService_eq:
  "ShouldSkipVirtualService gs = (if gs = [] \<or> ''mesh'' \<in> set gs then [] else SkipGatewayBound)"
  by (simp add: ShouldSkipVirtualService_def mesh_loop_none)

lemma readable_slices:
  assumes "readable vs"
  shows "\<exists>gs. stringSlice vs [''spec'', ''gateways''] = Inr gs \<and>
      ShouldSkipVirtualService gs = (if mesh_bound vs then [] else SkipGatewayBound)"
    and "stringSlice vs [''spec'', ''hosts''] = Inr (declared_hosts vs)"
proof -
  obtain gs hs where gs: "vsNested vs [''spec'', ''gateways''] = Inr gs" and hs: "vsNested vs [''spec'', ''hosts''] = Inr hs"
    using assms unfolding readable_def by blast
  from hs show "stringSlice vs [''spec'', ''hosts''] = Inr (declared_hosts vs)"
    by (cases hs) (simp_all add: stringSlice_def declared_hosts_def)
  from gs show "\<exists>gs. stringSlice vs [''spec'', ''gateways''] = Inr gs \<and>
      ShouldSkipVirtualService gs = (if mesh_bound vs then [] else SkipGatewayBound)"
    by (cases gs) (simp_all add: stringSlice_def mesh_bound_def ShouldSkipVirtualService_eq)
qed

lemma unreadable_slices:
  "\<not> readable vs \<Longrightarrow>
     (\<exists>err. stringSlice vs [''spec'', ''gateways''] = Inl err) \<or> (\<exists>err. stringSlice vs [''spec'', ''hosts''] = Inl err)"
  by (simp add: readable_def stringSlice_def split: sum.splits option.splits) (metis sum.exhaust)

subsection \<open>The loops\<close>

lemma skip_loop_eq:
  "skip_loop source reason skipped hs =
     skipped @ map (\<lambda>h. \<lparr>skSource = source, skHost = h, skReason = reason\<rparr>) hs"
  by (induction hs arbitrary: skipped) auto

lemma host_loop_eq:
  "host_loop cdom source (hosts, skipped) hs =
     (hosts @ filter (takes_part cdom) hs,
      skipped @ map (\<lambda>h. \<lparr>skSource = source, skHost = h, skReason = ShouldSkipHost h cdom\<rparr>)
        (filter (\<lambda>h. \<not> takes_part cdom h) hs))"
  by (induction hs arbitrary: hosts skipped) (auto simp: Let_def ShouldSkipHost_none)

definition skipped_of :: "string \<Rightarrow> vservice \<Rightarrow> Skipped list" where
  "skipped_of cdom vs =
     (if mesh_bound vs
      then map (\<lambda>h. \<lparr>skSource = vs_source vs, skHost = h, skReason = ShouldSkipHost h cdom\<rparr>)
             (filter (\<lambda>h. \<not> takes_part cdom h) (declared_hosts vs))
      else map (\<lambda>h. \<lparr>skSource = vs_source vs, skHost = h, skReason = SkipGatewayBound\<rparr>) (declared_hosts vs))"

lemma SkipGatewayBound_not_Nil [simp]: "SkipGatewayBound \<noteq> []"
  by (simp add: skip_reasons)

lemma collect_loop_step:
  assumes "readable vs"
  shows "collect_loop cdom (hosts, skipped) (vs # vss) =
    collect_loop cdom (hosts @ (if mesh_bound vs then filter (takes_part cdom) (declared_hosts vs) else []),
      skipped @ skipped_of cdom vs) vss"
proof -
  obtain gs where "stringSlice vs [''spec'', ''gateways''] = Inr gs"
      "ShouldSkipVirtualService gs = (if mesh_bound vs then [] else SkipGatewayBound)"
    using readable_slices(1) [OF assms] by blast
  then show ?thesis
    by (simp add: readable_slices(2) [OF assms] Let_def skip_loop_eq host_loop_eq skipped_of_def)
qed

lemma collect_loop_readable:
  "list_all readable vss \<Longrightarrow>
     collect_loop cdom (hosts, skipped) vss = Inr (hosts @ compared cdom vss, skipped @ concat (map (skipped_of cdom) vss))"
  by (induction vss arbitrary: hosts skipped) (simp_all add: collect_loop_step compared_def del: collect_loop.simps(2))

lemma collect_loop_unreadable:
  "\<not> list_all readable vss \<Longrightarrow> \<exists>source path err. collect_loop cdom acc vss = Inl (ErrField source path err)"
proof (induction vss arbitrary: acc)
  case (Cons vs vss)
  show ?case
  proof (cases "readable vs")
    case True
    with Cons show ?thesis
      by (cases acc) (simp add: collect_loop_step del: collect_loop.simps(2))
  next
    case False
    then show ?thesis
      using unreadable_slices by (cases acc) (fastforce simp: Let_def split: sum.splits)
  qed
qed simp

lemma skipped_of_excuse: "s \<in> set (skipped_of cdom vs) \<Longrightarrow> excuse cdom vs (skHost s) (skReason s)"
  by (auto simp: skipped_of_def excuse_def takes_part_def ShouldSkipHost_def HasPrefix_star HasSuffix_iff
      cluster_local_def split: if_splits)

lemma skipped_of_set:
  "(\<lambda>s. (skSource s, skHost s)) ` set (skipped_of cdom vs) =
     {vs_source vs} \<times> {h \<in> set (declared_hosts vs). \<not> (mesh_bound vs \<and> takes_part cdom h)}"
  by (auto simp: skipped_of_def image_iff)

lemma skipped_of_source: "s \<in> set (skipped_of cdom vs) \<Longrightarrow> skSource s = vs_source vs"
  by (auto simp: skipped_of_def split: if_splits)

lemma skipped_of_length:
  "length (if mesh_bound vs then filter (takes_part cdom) (declared_hosts vs) else []) + length (skipped_of cdom vs) =
     length (declared_hosts vs)"
  by (simp add: skipped_of_def sum_length_filter_compl)

lemma collected_length:
  "length (compared cdom vss) + length (concat (map (skipped_of cdom) vss)) =
     sum_list (map (\<lambda>vs. length (declared_hosts vs)) vss)"
proof (induction vss)
  case (Cons vs vss)
  then show ?case
    using skipped_of_length [of vs cdom] by (simp add: compared_def)
qed (simp add: compared_def)

subsection \<open>Sets of names\<close>

lemma toSet_loop_ok: "gm_ok m \<Longrightarrow> gm_ok (toSet_loop m xs)"
  by (induction xs arbitrary: m) auto

lemma toSet_loop_get: "gm_get (toSet_loop m xs) k = (if k \<in> set xs - {[]} then Some () else gm_get m k)"
  by (induction xs arbitrary: m) auto

lemma toSet_ok [simp]: "gm_ok (toSet xs)"
  by (simp add: toSet_def toSet_loop_ok)

lemma toSet_get [simp]: "gm_get (toSet xs) k = (if k \<in> set xs \<and> k \<noteq> [] then Some () else None)"
  by (simp add: toSet_def toSet_loop_get)

lemma absent_loop_eq: "absent_loop other acc hs = acc @ filter (\<lambda>h. gm_get other h = None) hs"
  by (induction hs arbitrary: acc) (auto split: option.splits)

lemma absent_sorted:
  assumes "range_laws rng"
  shows "sort (absent_loop (toSet ys) [] (rng (toSet xs))) = sorted_list_of_set (set xs - set ys - {[]})"
proof -
  have *: "distinct (rng (toSet xs))" "set (rng (toSet xs)) = set xs - {[]}"
    using assms by (auto simp: range_laws_def gm.set_keys)
  then have "set (filter (\<lambda>h. gm_get (toSet ys) h = None) (rng (toSet xs))) = set xs - set ys - {[]}"
    by auto
  with * show ?thesis
    by (metis absent_loop_eq append_Nil distinct_filter sorted_list_of_set_sort_remdups distinct_remdups_id)
qed

section \<open>Properties\<close>

text \<open>
  Property C30. The comparison is set arithmetic, whatever order Go ranges over its maps in:
  the two lists of the report are, strictly ascending and without the empty name, the names
  only VirtualServices declare and the names only pods are labelled with; and the report is
  clean exactly when both sides declare the same names.
\<close>

theorem Compare_correct:
  assumes "range_laws rangeVS" and "range_laws rangeLabel"
  shows "UnclaimedHosts (Compare rangeVS rangeLabel vs labels) = sorted_list_of_set (set vs - set labels - {[]}) \<and>
    UnroutedLabels (Compare rangeVS rangeLabel vs labels) = sorted_list_of_set (set labels - set vs - {[]}) \<and>
    (OK (Compare rangeVS rangeLabel vs labels) \<longleftrightarrow> set vs - {[]} = set labels - {[]})"
proof -
  have *: "UnclaimedHosts (Compare rangeVS rangeLabel vs labels) = sorted_list_of_set (set vs - set labels - {[]})"
      "UnroutedLabels (Compare rangeVS rangeLabel vs labels) = sorted_list_of_set (set labels - set vs - {[]})"
    using assms by (simp_all add: Compare_def Let_def absent_sorted)
  then show ?thesis
    by (auto simp: OK_def)
qed

theorem Compare_correct_witness:
  "Compare gm_keys (\<lambda>m. rev (gm_keys m)) [''b.x'', ''a.x'', [], ''b.x''] [''a.x'', ''c.x''] =
     \<lparr>UnclaimedHosts = [''b.x''], UnroutedLabels = [''c.x'']\<rparr>"
proof -
  have "range_laws gm_keys" "range_laws (\<lambda>m. rev (gm_keys m))"
    by (simp_all add: range_laws_def gm.distinct_keys)
  from Compare_correct [OF this, of "[''b.x'', ''a.x'', [], ''b.x'']" "[''a.x'', ''c.x'']"] show ?thesis
    by (simp add: insert_Diff_if)
qed

text \<open>
  Property C31. Nothing escapes the comparison silently: once the VirtualServices are listed,
  either every one of them can be read, and then each declared host is either compared or
  recorded as skipped with its source and the reason the filter rules give, counted one by
  one; or the whole collection fails with the field that cannot be read.
\<close>

theorem CollectVirtualServiceHosts_partition:
  assumes "listVirtualServices isNotFound client ns = Inr vss"
  shows "if list_all readable vss then
      (\<exists>skipped. CollectVirtualServiceHosts isNotFound client cdom ns = Inr (compared cdom vss, skipped) \<and>
         (\<lambda>s. (skSource s, skHost s)) ` set skipped =
           (\<Union>vs \<in> set vss. {vs_source vs} \<times> {h \<in> set (declared_hosts vs). \<not> (mesh_bound vs \<and> takes_part cdom h)}) \<and>
         (\<forall>s \<in> set skipped. \<exists>vs \<in> set vss. skSource s = vs_source vs \<and> excuse cdom vs (skHost s) (skReason s)) \<and>
         length (compared cdom vss) + length skipped = sum_list (map (\<lambda>vs. length (declared_hosts vs)) vss))
    else (\<exists>source path err. CollectVirtualServiceHosts isNotFound client cdom ns = Inl (ErrField source path err))"
proof (cases "list_all readable vss")
  case True
  let ?sk = "concat (map (skipped_of cdom) vss)"
  have "CollectVirtualServiceHosts isNotFound client cdom ns = Inr (compared cdom vss, ?sk)"
    using assms True by (simp add: CollectVirtualServiceHosts_def collect_loop_readable)
  moreover have "(\<lambda>s. (skSource s, skHost s)) ` set ?sk =
      (\<Union>vs \<in> set vss. {vs_source vs} \<times> {h \<in> set (declared_hosts vs). \<not> (mesh_bound vs \<and> takes_part cdom h)})"
    by (simp add: image_UN skipped_of_set)
  moreover have "\<forall>s \<in> set ?sk. \<exists>vs \<in> set vss. skSource s = vs_source vs \<and> excuse cdom vs (skHost s) (skReason s)"
    using skipped_of_excuse skipped_of_source by auto
  ultimately show ?thesis
    using True collected_length by (metis (no_types, lifting))
next
  case False
  then show ?thesis
    using assms collect_loop_unreadable [OF False] by (simp add: CollectVirtualServiceHosts_def)
qed

text \<open>A cluster whose API serves only the older version, with one VirtualService of each kind.\<close>

definition demo_vs :: "string \<Rightarrow> string list option \<Rightarrow> string list \<Rightarrow> vservice" where
  "demo_vs name gateways hosts =
     \<lparr>vsNamespace = ''shop'', vsName = name,
      vsNested = (\<lambda>path. if path = [''spec'', ''gateways''] then Inr gateways
                         else if path = [''spec'', ''hosts''] then Inr (Some hosts) else Inr None)\<rparr>"

definition demo_vss :: "vservice list" where
  "demo_vss =
     [demo_vs ''pay'' None [''pay.corp.io'', ''pay.shop.svc.cluster.local'', ''pay''],
      demo_vs ''edge'' (Some [''ingress'']) [''www.corp.io'']]"

definition demo_list :: "string vs_client" where
  "demo_list g ns = (if gvVersion g = ''v1'' then Inl ''NotFound'' else Inr demo_vss)"

lemma demo_listed: "listVirtualServices (\<lambda>e. e = ''NotFound'') demo_list [] = Inr demo_vss"
  by (simp add: listVirtualServices_def VirtualServiceGVRs_def demo_list_def)

lemma demo_readable: "list_all readable demo_vss"
  by (simp add: demo_vss_def demo_vs_def readable_def)

lemma demo_compared: "compared ''cluster.local'' demo_vss = [''pay.corp.io'']"
  by (simp add: compared_def demo_vss_def demo_vs_def mesh_bound_def declared_hosts_def
      ShouldSkipHost_none [symmetric]) code_simp

theorem CollectVirtualServiceHosts_partition_witness:
  "\<exists>skipped. CollectVirtualServiceHosts (\<lambda>e. e = ''NotFound'') demo_list ''cluster.local'' [] =
     Inr ([''pay.corp.io''], skipped) \<and> length skipped = 3"
proof -
  have "sum_list (map (\<lambda>vs. length (declared_hosts vs)) demo_vss) = 4"
    by (simp add: demo_vss_def demo_vs_def declared_hosts_def)
  with CollectVirtualServiceHosts_partition [OF demo_listed, of "''cluster.local''"] demo_readable demo_compared
  show ?thesis by auto
qed

text \<open>
  The comparison is byte by byte, while the registry drops the case and a trailing dot of
  every name: two declarations the registry takes for one name are reported as drift.
\<close>

lemma Compare_not_normalized:
  "normalize_name U ''Pay.corp.io'' = normalize_name U ''pay.corp.io'' \<and>
   Compare gm_keys gm_keys [''Pay.corp.io''] [''pay.corp.io''] =
     \<lparr>UnclaimedHosts = [''Pay.corp.io''], UnroutedLabels = [''pay.corp.io'']\<rparr>"
proof
  have "TrimSuffix ''Pay.corp.io'' ''.'' = ''Pay.corp.io''" "TrimSuffix ''pay.corp.io'' ''.'' = ''pay.corp.io''"
      "list_all ascii ''Pay.corp.io''" "list_all ascii ''pay.corp.io''"
      "map lower_byte ''Pay.corp.io'' = map lower_byte ''pay.corp.io''"
    by code_simp+
  then show "normalize_name U ''Pay.corp.io'' = normalize_name U ''pay.corp.io''"
    unfolding normalize_name_def ToLower_def by metis
qed code_simp

end
