(* ===== verification/Drift_Cmd.thy ===== *)
theory Drift_Cmd
  imports Drift
begin

text \<open>
  The command \<open>cmd/zonedns-drift\<close>: loading the configuration, one run of the comparison,
  the report it prints and its exit code. The Kubernetes configuration and client
  constructors are the record \<open>drift_env\<close>. Standard output is the string the run appends;
  the parsed flags are the record \<open>options\<close>.
\<close>

section \<open>Printing\<close>

text \<open>
  \<open>utf8.RuneCountInString\<close>, which \<open>fmt\<close> measures widths with: the length of the first rune
  of a byte string (1 for an invalid byte), and the count.
\<close>

definition byte_in :: "string \<Rightarrow> nat \<Rightarrow> nat \<Rightarrow> nat \<Rightarrow> bool" where
  "byte_in s i lo hi \<longleftrightarrow> i < length s \<and> lo \<le> of_char (s ! i) \<and> of_char (s ! i) \<le> hi"

definition rune_len :: "string \<Rightarrow> nat" where
  "rune_len s =
     (if byte_in s 0 0xC2 0xDF \<and> byte_in s 1 0x80 0xBF then 2
      else if byte_in s 0 0xE0 0xE0 \<and> byte_in s 1 0xA0 0xBF \<and> byte_in s 2 0x80 0xBF then 3
      else if (byte_in s 0 0xE1 0xEC \<or> byte_in s 0 0xEE 0xEF) \<and> byte_in s 1 0x80 0xBF \<and> byte_in s 2 0x80 0xBF then 3
      else if byte_in s 0 0xED 0xED \<and> byte_in s 1 0x80 0x9F \<and> byte_in s 2 0x80 0xBF then 3
      else if byte_in s 0 0xF0 0xF0 \<and> byte_in s 1 0x90 0xBF \<and> byte_in s 2 0x80 0xBF \<and> byte_in s 3 0x80 0xBF then 4
      else if byte_in s 0 0xF1 0xF3 \<and> byte_in s 1 0x80 0xBF \<and> byte_in s 2 0x80 0xBF \<and> byte_in s 3 0x80 0xBF then 4
      else if byte_in s 0 0xF4 0xF4 \<and> byte_in s 1 0x80 0x8F \<and> byte_in s 2 0x80 0xBF \<and> byte_in s 3 0x80 0xBF then 4
      else 1)"

function RuneCountInString :: "string \<Rightarrow> nat" where
  "RuneCountInString s = (if s = [] then 0 else Suc (RuneCountInString (drop (rune_len s) s)))"
  by auto
termination
  by (relation "measure length") (auto simp: rune_len_def)

declare RuneCountInString.simps [simp del]

text \<open>The verb \<open>%-<width>s\<close>.\<close>

definition pad_right :: "nat \<Rightarrow> string \<Rightarrow> string" where
  "pad_right width s = s @ replicate (width - RuneCountInString s) CHR '' ''"

definition Fprintln :: "string \<Rightarrow> string \<Rightarrow> string" where
  "Fprintln w s = w @ s @ [CHR 0x0A]"

text \<open>The UTF-8 encoding of the dash in two of the texts.\<close>

definition em_dash :: string where
  "em_dash = [CHR 0xE2, CHR 0x80, CHR 0x94]"

section \<open>The report\<close>

definition exitClean :: nat where "exitClean = 0"

definition exitDrift :: nat where "exitDrift = 1"

definition exitFailed :: nat where "exitFailed = 2"

definition skipped_line :: "Skipped \<Rightarrow> string" where
  "skipped_line s =
     ''  '' @ pad_right 45 (skHost s) @ '' '' @ pad_right 20 (skSource s) @ '' ('' @ skReason s @ '')''"

definition print_skipped :: "string \<Rightarrow> Skipped list \<Rightarrow> bool \<Rightarrow> string" where
  "print_skipped w skipped showSkipped =
     (if showSkipped \<and> length skipped > 0 then
        let w1 = Fprintln w (''Excluded from the comparison ('' @ show_dec (length skipped) @ ''):'');
            w2 = fold (\<lambda>s w. Fprintln w (skipped_line s)) skipped w1
        in Fprintln w2 []
      else w)"

definition print_unclaimed :: "string \<Rightarrow> Report \<Rightarrow> string \<Rightarrow> string" where
  "print_unclaimed w report hostLabel =
     (if length (UnclaimedHosts report) > 0 then
        let w1 = Fprintln w (''VirtualService hosts that no pod claims via '' @ hostLabel @ '' ('' @
                   show_dec (length (UnclaimedHosts report)) @ ''):'');
            w2 = fold (\<lambda>h w. Fprintln w (''  '' @ h)) (UnclaimedHosts report) w1;
            w3 = Fprintln w2 ''  Clients resolve these names, but they are absent from the central registry,'';
            w4 = Fprintln w3 ''  so cross-zone lookups for them silently fall through without zone routing.''
        in Fprintln w4 []
      else w)"

definition print_unrouted :: "string \<Rightarrow> Report \<Rightarrow> string" where
  "print_unrouted w report =
     (if length (UnroutedLabels report) > 0 then
        let w1 = Fprintln w (''Names labelled on pods that no VirtualService declares ('' @
                   show_dec (length (UnroutedLabels report)) @ ''):'');
            w2 = fold (\<lambda>h w. Fprintln w (''  '' @ h)) (UnroutedLabels report) w1;
            w3 = Fprintln w2 (''  These occupy a registry entry that nothing ever queries '' @ em_dash @
                   '' usually a typo or a leftover.'')
        in Fprintln w3 []
      else w)"

definition printReport :: "string \<Rightarrow> Report \<Rightarrow> Skipped list \<Rightarrow> string \<Rightarrow> bool \<Rightarrow> nat \<times> string" where
  "printReport w report skipped hostLabel showSkipped =
     (let w1 = print_skipped w skipped showSkipped in
      if OK report then
        (exitClean, Fprintln w1 ''No drift: every compared VirtualService host is claimed by a pod, and every labelled name is routed.'')
      else
        let w2 = print_unclaimed w1 report hostLabel;
            w3 = print_unrouted w2 report;
            w4 = Fprintln w3 ''Note: this compares names only. It does not verify that a host routes to the pod''
        in (exitDrift, Fprintln w4 (''that claims it '' @ em_dash @ '' a name matched on both sides can still point at the wrong workload.'')))"

section \<open>The run\<close>

text \<open>
  \<open>rest.InClusterConfig\<close>, the deferred loading of a kubeconfig with or without an explicit
  path, \<open>kubernetes.NewForConfig\<close>, \<open>dynamic.NewForConfig\<close> and \<open>errors.IsNotFound\<close>.
\<close>

record ('e, 'cfg) drift_env =
  deInClusterConfig :: "'e + 'cfg"
  deClientConfig :: "string option \<Rightarrow> 'e + 'cfg"
  deNewTyped :: "'cfg \<Rightarrow> 'e + 'e pod_client"
  deNewDynamic :: "'cfg \<Rightarrow> 'e + 'e vs_client"
  deIsNotFound :: "'e \<Rightarrow> bool"

record options =
  opKubeconfig :: string
  opClusterDomain :: string
  opHostLabel :: string
  opNamespace :: string
  opShowSkipped :: bool

definition default_options :: options where
  "default_options = \<lparr>opKubeconfig = [], opClusterDomain = DefaultClusterDomain, opHostLabel = HostLabel,
     opNamespace = [], opShowSkipped = False\<rparr>"

definition load_kubeconfig :: "('e, 'cfg) drift_env \<Rightarrow> string \<Rightarrow> 'e drift_error + 'cfg" where
  "load_kubeconfig E kubeconfig =
     (let explicitPath = (if kubeconfig \<noteq> [] then Some kubeconfig else None) in
      case deClientConfig E explicitPath of
        Inl err \<Rightarrow> Inl (ErrLoadConfig err)
      | Inr config \<Rightarrow> Inr config)"

definition loadConfig :: "('e, 'cfg) drift_env \<Rightarrow> string \<Rightarrow> 'e drift_error + 'cfg" where
  "loadConfig E kubeconfig =
     (if kubeconfig = [] then
        (case deInClusterConfig E of
           Inr config \<Rightarrow> Inr config
         | Inl _ \<Rightarrow> load_kubeconfig E kubeconfig)
      else load_kubeconfig E kubeconfig)"

text \<open>The exit code, the error and what was printed to standard output.\<close>

definition drift_run ::
  "('e, 'cfg) drift_env \<Rightarrow> map_range \<Rightarrow> map_range \<Rightarrow> options \<Rightarrow> (nat \<times> 'e drift_error option) \<times> string" where
  "drift_run E rangeVS rangeLabel opts =
     (case loadConfig E (opKubeconfig opts) of
        Inl err \<Rightarrow> ((exitFailed, Some err), [])
      | Inr config \<Rightarrow>
          (case deNewTyped E config of
             Inl err \<Rightarrow> ((exitFailed, Some (ErrTypedClient err)), [])
           | Inr typed \<Rightarrow>
               (case deNewDynamic E config of
                  Inl err \<Rightarrow> ((exitFailed, Some (ErrDynamicClient err)), [])
                | Inr dyn \<Rightarrow>
                    (case CollectVirtualServiceHosts (deIsNotFound E) dyn (opClusterDomain opts) (opNamespace opts) of
                       Inl err \<Rightarrow> ((exitFailed, Some err), [])
                     | Inr (vsHosts, skipped) \<Rightarrow>
                         (case CollectPodHosts typed (opHostLabel opts) (opNamespace opts) of
                            Inl err \<Rightarrow> ((exitFailed, Some err), [])
                          | Inr podHosts \<Rightarrow>
                              (case printReport [] (Compare rangeVS rangeLabel vsHosts podHosts) skipped
                                      (opHostLabel opts) (opShowSkipped opts) of
                                 (code, out) \<Rightarrow> ((code, None), out)))))))"

definition drift_main :: "('e, 'cfg) drift_env \<Rightarrow> map_range \<Rightarrow> map_range \<Rightarrow> options \<Rightarrow> nat \<times> string" where
  "drift_main E rangeVS rangeLabel opts =
     (case drift_run E rangeVS rangeLabel opts of
        ((code, Some err), out) \<Rightarrow> (exitFailed, out)
      | ((code, None), out) \<Rightarrow> (code, out))"

section \<open>Facts\<close>

text \<open>ASCII text is as wide as it is long, so the columns of the report line up.\<close>

lemma rune_len_ascii: "s \<noteq> [] \<Longrightarrow> ascii (hd s) \<Longrightarrow> rune_len s = 1"
  by (cases s) (simp_all add: rune_len_def byte_in_def ascii_def)

lemma RuneCountInString_ascii: "list_all ascii s \<Longrightarrow> RuneCountInString s = length s"
proof (induction s)
  case Nil
  then show ?case by (simp add: RuneCountInString.simps [of "[]"])
next
  case (Cons c s)
  then show ?case
    using rune_len_ascii [of "c # s"] by (simp add: RuneCountInString.simps [of "c # s"])
qed

lemma pad_right_width: "list_all ascii s \<Longrightarrow> length (pad_right width s) = max width (length s)"
  by (simp add: pad_right_def RuneCountInString_ascii)

subsection \<open>What is printed\<close>

text \<open>A line once printed stays, and printing a list of lines prints each of them.\<close>

definition printed :: "string \<Rightarrow> string \<Rightarrow> bool" where
  "printed line w \<longleftrightarrow> sublist (line @ [CHR 0x0A]) w"

lemma printed_here [simp]: "printed line (Fprintln w line)"
  by (simp add: printed_def Fprintln_def)

lemma printed_stays [simp]: "printed line w \<Longrightarrow> printed line (Fprintln w s)"
  unfolding printed_def Fprintln_def by (metis append.assoc sublist_def)

lemma printed_fold_stays [simp]: "printed line w \<Longrightarrow> printed line (fold (\<lambda>x w. Fprintln w (f x)) xs w)"
  by (induction xs arbitrary: w) auto

lemma printed_fold: "x \<in> set xs \<Longrightarrow> printed (f x) (fold (\<lambda>x w. Fprintln w (f x)) xs w)"
  by (induction xs arbitrary: w) auto

lemmas report_parts = print_skipped_def print_unclaimed_def print_unrouted_def Let_def

lemma print_unclaimed_stays [simp]: "printed line w \<Longrightarrow> printed line (print_unclaimed w r l)"
  by (auto simp: report_parts)

lemma print_unrouted_stays [simp]: "printed line w \<Longrightarrow> printed line (print_unrouted w r)"
  by (auto simp: report_parts)

lemma print_skipped_lines: "s \<in> set skipped \<Longrightarrow> printed (skipped_line s) (print_skipped w skipped True)"
  using printed_fold [of s skipped skipped_line] by (auto simp: report_parts)

lemma print_unclaimed_lines: "h \<in> set (UnclaimedHosts r) \<Longrightarrow> printed (''  '' @ h) (print_unclaimed w r l)"
  using printed_fold [of h "UnclaimedHosts r" "\<lambda>h. ''  '' @ h"] by (auto simp: report_parts)

lemma print_unrouted_lines: "h \<in> set (UnroutedLabels r) \<Longrightarrow> printed (''  '' @ h) (print_unrouted w r)"
  using printed_fold [of h "UnroutedLabels r" "\<lambda>h. ''  '' @ h"] by (auto simp: report_parts)

lemma printReport_code: "fst (printReport w r skipped l b) = (if OK r then exitClean else exitDrift)"
  by (simp add: printReport_def Let_def)

lemma printReport_names:
  assumes "h \<in> set (UnclaimedHosts r) \<union> set (UnroutedLabels r)"
  shows "printed (''  '' @ h) (snd (printReport w r skipped l b))"
proof -
  have "\<not> OK r"
    using assms by (auto simp: OK_def)
  then show ?thesis
    using assms print_unclaimed_lines print_unrouted_lines by (auto simp: printReport_def Let_def)
qed

lemma printReport_skipped:
  "s \<in> set skipped \<Longrightarrow> printed (skipped_line s) (snd (printReport w r skipped l True))"
  using print_skipped_lines [of s skipped w] by (auto simp: printReport_def Let_def)

subsection \<open>What a run needs\<close>

text \<open>
  What has to succeed for a run to compare anything: a configuration from inside the
  cluster or from a kubeconfig, both clients, a listing of the VirtualServices at the first
  version the API serves, all of them readable, and a listing of the pods.
\<close>

definition config_found :: "('e, 'cfg) drift_env \<Rightarrow> string \<Rightarrow> 'cfg \<Rightarrow> bool" where
  "config_found E kubeconfig config \<longleftrightarrow>
     (if kubeconfig \<noteq> [] then deClientConfig E (Some kubeconfig) = Inr config
      else deInClusterConfig E = Inr config \<or>
        (\<exists>err. deInClusterConfig E = Inl err) \<and> deClientConfig E None = Inr config)"

definition listed :: "('e \<Rightarrow> bool) \<Rightarrow> 'e vs_client \<Rightarrow> string \<Rightarrow> vservice list \<Rightarrow> bool" where
  "listed isNotFound dyn ns vss \<longleftrightarrow>
     (let v = (\<lambda>version. dyn \<lparr>gvGroup = ''networking.istio.io'', gvVersion = version, gvResource = ''virtualservices''\<rparr> ns) in
      v ''v1'' = Inr vss \<or> (\<exists>err. v ''v1'' = Inl err \<and> isNotFound err \<and> v ''v1beta1'' = Inr vss))"

definition gathered :: "('e, 'cfg) drift_env \<Rightarrow> options \<Rightarrow> vservice list \<Rightarrow> pod list \<Rightarrow> bool" where
  "gathered E opts vss pods \<longleftrightarrow>
     (\<exists>config typed dyn. config_found E (opKubeconfig opts) config \<and>
        deNewTyped E config = Inr typed \<and> deNewDynamic E config = Inr dyn \<and>
        listed (deIsNotFound E) dyn (opNamespace opts) vss \<and> list_all readable vss \<and>
        typed (opNamespace opts) (opHostLabel opts) = Inr pods)"

definition label_of :: "string \<Rightarrow> pod \<Rightarrow> string" where
  "label_of l p = (case gm_get (pLabels p) l of None \<Rightarrow> [] | Some v \<Rightarrow> v)"

lemma loadConfig_found: "loadConfig E k = Inr config \<longleftrightarrow> config_found E k config"
  by (auto simp: loadConfig_def load_kubeconfig_def config_found_def split: sum.splits)

lemma listVirtualServices_listed: "listVirtualServices isNotFound dyn ns = Inr vss \<longleftrightarrow> listed isNotFound dyn ns vss"
  by (auto simp: listVirtualServices_def VirtualServiceGVRs_def listed_def Let_def split: sum.splits)

lemma Collect_readable:
  fixes isNotFound :: "'a \<Rightarrow> bool"
  shows "(\<exists>skipped. CollectVirtualServiceHosts isNotFound dyn cdom ns = Inr (hosts, skipped)) \<longleftrightarrow>
     (\<exists>vss. listed isNotFound dyn ns vss \<and> list_all readable vss \<and> hosts = compared cdom vss)"
proof (cases "listVirtualServices isNotFound dyn ns")
  case (Inl err)
  then show ?thesis
    by (metis CollectVirtualServiceHosts_def listVirtualServices_listed old.sum.simps(5) sum.distinct(1))
next
  case (Inr vss)
  then have "listed isNotFound dyn ns vss' \<longleftrightarrow> vss' = vss" for vss'
    by (auto simp: listVirtualServices_listed [symmetric])
  moreover have "(\<exists>skipped. collect_loop cdom ([], []) vss = (Inr (hosts, skipped) :: 'a drift_error + _)) \<longleftrightarrow>
      list_all readable vss \<and> hosts = compared cdom vss"
  proof (cases "list_all readable vss")
    case False
    then obtain source path err where "collect_loop cdom ([], []) vss = (Inl (ErrField source path err) :: 'a drift_error + _)"
      using collect_loop_unreadable by blast
    with False show ?thesis by simp
  qed (auto simp: collect_loop_readable)
  ultimately show ?thesis
    using Inr by (simp add: CollectVirtualServiceHosts_def)
qed

lemma CollectPodHosts_labels: "CollectPodHosts typed l ns = Inr hosts \<longleftrightarrow> (\<exists>pods. typed ns l = Inr pods \<and> hosts = map (label_of l) pods)"
  by (auto simp: CollectPodHosts_def label_of_def split: sum.splits)

text \<open>A run that gathers everything prints the report of what it gathered; any other run fails.\<close>

lemma drift_main_gathered:
  assumes "gathered E opts vss pods"
  shows "\<exists>skipped. drift_main E rangeVS rangeLabel opts =
    printReport [] (Compare rangeVS rangeLabel (compared (opClusterDomain opts) vss) (map (label_of (opHostLabel opts)) pods))
      skipped (opHostLabel opts) (opShowSkipped opts)"
proof -
  obtain config typed dyn where "loadConfig E (opKubeconfig opts) = Inr config"
      and "deNewTyped E config = Inr typed" and "deNewDynamic E config = Inr dyn"
      and vss: "listed (deIsNotFound E) dyn (opNamespace opts) vss" "list_all readable vss"
      and "CollectPodHosts typed (opHostLabel opts) (opNamespace opts) = Inr (map (label_of (opHostLabel opts)) pods)"
    using assms by (auto simp: gathered_def loadConfig_found CollectPodHosts_labels)
  moreover obtain skipped where
      "CollectVirtualServiceHosts (deIsNotFound E) dyn (opClusterDomain opts) (opNamespace opts) =
         Inr (compared (opClusterDomain opts) vss, skipped)"
    using vss Collect_readable by blast
  ultimately show ?thesis
    by (auto simp: drift_main_def drift_run_def split: prod.splits intro!: exI [of _ skipped])
qed

lemma drift_run_gathered:
  assumes "drift_run E rangeVS rangeLabel opts = ((code, None), out)"
  shows "\<exists>vss pods. gathered E opts vss pods"
proof -
  obtain config typed dyn hosts skipped podHosts where "loadConfig E (opKubeconfig opts) = Inr config"
      and "deNewTyped E config = Inr typed" and "deNewDynamic E config = Inr dyn"
      and "CollectVirtualServiceHosts (deIsNotFound E) dyn (opClusterDomain opts) (opNamespace opts) = Inr (hosts, skipped)"
      and "CollectPodHosts typed (opHostLabel opts) (opNamespace opts) = Inr podHosts"
    using assms by (auto simp: drift_run_def split: sum.splits prod.splits)
  then show ?thesis
    unfolding gathered_def loadConfig_found CollectPodHosts_labels by (metis Collect_readable)
qed

lemma drift_main_failed:
  "\<nexists>vss pods. gathered E opts vss pods \<Longrightarrow> fst (drift_main E rangeVS rangeLabel opts) = exitFailed"
  using drift_run_gathered [of E rangeVS rangeLabel opts]
  by (auto simp: drift_main_def split: prod.splits option.splits)

lemma compared_not_Nil: "[] \<notin> set (compared cdom vss)"
  by (auto simp: compared_def takes_part_def split: if_splits)

lemma drift_main_compared:
  assumes "range_laws rangeVS" and "range_laws rangeLabel" and "drift_main E rangeVS rangeLabel opts = (code, out)"
    and "gathered E opts vss pods"
    and hosts: "hosts = set (compared (opClusterDomain opts) vss)"
    and labels: "labels = set (map (label_of (opHostLabel opts)) pods) - {[]}"
  shows "code = (if hosts = labels then 0 else 1)"
    and "h \<in> (hosts - labels) \<union> (labels - hosts) \<Longrightarrow> printed (''  '' @ h) out"
proof -
  let ?r = "Compare rangeVS rangeLabel (compared (opClusterDomain opts) vss) (map (label_of (opHostLabel opts)) pods)"
  obtain skipped where report: "(code, out) = printReport [] ?r skipped (opHostLabel opts) (opShowSkipped opts)"
    using drift_main_gathered [OF assms(4), of rangeVS rangeLabel] assms(3) by metis
  have sets: "set (UnclaimedHosts ?r) = hosts - labels" "set (UnroutedLabels ?r) = labels - hosts"
    using compared_not_Nil [of "opClusterDomain opts" vss]
    by (auto simp: Compare_def Let_def absent_sorted assms(1,2) hosts labels)
  then have "OK ?r \<longleftrightarrow> hosts = labels"
    by (auto simp: OK_def)
  with printReport_code report show "code = (if hosts = labels then 0 else 1)"
    unfolding exitClean_def exitDrift_def by (metis fst_conv)
  show "printed (''  '' @ h) out" if "h \<in> (hosts - labels) \<union> (labels - hosts)"
    using printReport_names [of h ?r] that report sets by (metis snd_conv)
qed

section \<open>Properties\<close>

text \<open>
  Property C28. The exit code means what the command documents, whatever the cluster answers:
  2 exactly when something the comparison needs could not be had (no configuration, no
  client, no version of the CRD served, an API error, a VirtualService that cannot be read,
  no pods listing); otherwise 0 exactly when the compared hosts and the labelled names are
  the same set, and 1 when they differ, and then every name that differs is printed.
\<close>

theorem drift_exit_code:
  assumes "range_laws rangeVS" and "range_laws rangeLabel"
    and "drift_main E rangeVS rangeLabel opts = (code, out)"
  shows "(code = 2 \<longleftrightarrow> (\<nexists>vss pods. gathered E opts vss pods)) \<and>
    (\<forall>vss pods. gathered E opts vss pods \<longrightarrow>
       (let hosts = set (compared (opClusterDomain opts) vss);
            labels = set (map (label_of (opHostLabel opts)) pods) - {[]}
        in code = (if hosts = labels then 0 else 1) \<and>
           (\<forall>h \<in> (hosts - labels) \<union> (labels - hosts). printed (''  '' @ h) out)))"
proof -
  have failed: "code = 2" if "\<nexists>vss pods. gathered E opts vss pods"
    using drift_main_failed [OF that, of rangeVS rangeLabel] assms(3) by (simp add: exitFailed_def)
  note compared = drift_main_compared [OF assms]
  have "code \<noteq> 2" if "gathered E opts vss pods" for vss pods
    using compared(1) [OF that refl refl] by (simp split: if_splits)
  then have "code = 2 \<longleftrightarrow> (\<nexists>vss pods. gathered E opts vss pods)"
    using failed by blast
  moreover have "code = (if set (compared (opClusterDomain opts) vss) = set (map (label_of (opHostLabel opts)) pods) - {[]} then 0 else 1)"
    if "gathered E opts vss pods" for vss pods
    by (rule compared(1) [OF that refl refl])
  ultimately show ?thesis
    unfolding Let_def using compared(2) [OF _ refl refl] by simp
qed

text \<open>The cluster of the collection's example, reached by a kubeconfig, with one labelled pod.\<close>

definition demo_env :: "string \<Rightarrow> (string, unit) drift_env" where
  "demo_env label =
     \<lparr>deInClusterConfig = Inl ''not in a cluster'', deClientConfig = (\<lambda>path. Inr ()),
      deNewTyped = (\<lambda>config. Inr (\<lambda>ns l. Inr [\<lparr>pNamespace = ''shop'', pName = ''pay-0'', pHostNetwork = False,
        pPodIP = ''10.1.0.7'', pLabels = [(HostLabel, label)]\<rparr>])),
      deNewDynamic = (\<lambda>config. Inr demo_list), deIsNotFound = (\<lambda>e. e = ''NotFound'')\<rparr>"

lemma range_keys: "range_laws gm_keys"
  by (simp add: range_laws_def gm.distinct_keys)

lemma demo_gathered: "\<exists>pods. gathered (demo_env label) default_options demo_vss pods \<and> map (label_of HostLabel) pods = [label]"
  by (simp add: gathered_def demo_env_def default_options_def config_found_def demo_readable
      listVirtualServices_listed [symmetric] demo_listed label_of_def gm_get_def)

theorem drift_exit_code_witness:
  "fst (drift_main (demo_env ''pay.corp.io'') gm_keys gm_keys default_options) = 0 \<and>
   fst (drift_main (demo_env ''pay.corp.oi'') gm_keys gm_keys default_options) = 1 \<and>
   printed ''  pay.corp.oi'' (snd (drift_main (demo_env ''pay.corp.oi'') gm_keys gm_keys default_options))"
proof -
  note exit = drift_exit_code [OF range_keys range_keys prod.collapse [symmetric]]
  have opts: "opClusterDomain default_options = ''cluster.local''" "opHostLabel default_options = HostLabel"
    by (simp_all add: default_options_def DefaultClusterDomain_def)
  have *: "let labels = {label} - {[]} in
      fst (drift_main (demo_env label) gm_keys gm_keys default_options) = (if {''pay.corp.io''} = labels then 0 else 1) \<and>
      (\<forall>h \<in> ({''pay.corp.io''} - labels) \<union> (labels - {''pay.corp.io''}).
         printed (''  '' @ h) (snd (drift_main (demo_env label) gm_keys gm_keys default_options)))" for label
  proof -
    obtain pods where g: "gathered (demo_env label) default_options demo_vss pods" and l: "map (label_of HostLabel) pods = [label]"
      using demo_gathered by metis
    have "set (map (label_of HostLabel) pods) - {[]} = {label} - {[]}" and "set [''pay.corp.io''] = {''pay.corp.io''}"
      by (simp_all only: l list.set)
    from mp [OF spec [OF spec [OF conjunct2 [OF exit [of "demo_env label" default_options]]]] g, unfolded opts Let_def demo_compared this]
    show ?thesis
      unfolding Let_def .
  qed
  show ?thesis
    using * [of "''pay.corp.io''"] * [of "''pay.corp.oi''"] by (simp add: Let_def insert_Diff_if)
qed

text \<open>
  Property C29. What a clean run is worth to central: when the command exits with 0, every
  labelled name is rendered into a registration entry with a well-formed zone (which is
  what the cluster's \<open>ClusterSPIFFEID\<close> template does with the label) and no name is declared
  into two zones, then the registry central builds from the entries resolves every compared
  host, so no client's lookup of one falls through without zone routing.
\<close>

theorem drift_clean_known:
  assumes "range_laws rangeVS" and "range_laws rangeLabel" and "fst (drift_main E rangeVS rangeLabel opts) = 0"
    and "gathered E opts vss pods"
    and rendered: "\<And>p. p \<in> set pods \<Longrightarrow> label_of (opHostLabel opts) p \<noteq> [] \<Longrightarrow>
      \<exists>e \<in> set es. entry_zone e \<noteq> None \<and> label_of (opHostLabel opts) p \<in> set (eDNSNames e)"
    and single: "\<And>n y z. declared U es n y \<Longrightarrow> declared U es n z \<Longrightarrow> y = z"
    and "h \<in> set (compared (opClusterDomain opts) vss)" and "normalize_name U h \<noteq> []"
  shows "\<exists>z. Snapshot_Lookup U (fst (BuildSnapshot U es)) h = Some z"
proof -
  have "set (compared (opClusterDomain opts) vss) = set (map (label_of (opHostLabel opts)) pods) - {[]}"
    using drift_main_compared(1) [OF assms(1,2) prod.collapse [symmetric] assms(4) refl refl] assms(3)
    by (simp split: if_splits)
  with assms(7) obtain p where "p \<in> set pods" "h = label_of (opHostLabel opts) p" "h \<noteq> []"
    by auto
  then obtain e z where "e \<in> set es" "entry_zone e = Some z" "h \<in> set (eDNSNames e)"
    using rendered by fastforce
  then have "declared U es (normalize_name U h) z"
    using assms(8) by (auto simp: declared_def)
  then have "{y. declared U es (normalize_name U h) y} = {z}"
    using single by blast
  then show ?thesis
    unfolding Lookup_built by blast
qed

theorem drift_clean_known_witness:
  "\<exists>z. Snapshot_Lookup demo_U (fst (BuildSnapshot demo_U
     [\<lparr>eSPIFFEIDPath = ''/zone/a/sa/pay'', eDNSNames = [''pay.corp.io'']\<rparr>])) ''pay.corp.io'' = Some z"
  (is "\<exists>z. Snapshot_Lookup demo_U (fst (BuildSnapshot demo_U ?es)) _ = Some z")
proof -
  have zone: "entry_zone \<lparr>eSPIFFEIDPath = ''/zone/a/sa/pay'', eDNSNames = [''pay.corp.io'']\<rparr> = Some ''a''"
    by code_simp
  have name: "normalize_name demo_U ''pay.corp.io'' \<noteq> []"
    by code_simp
  obtain pods where g: "gathered (demo_env ''pay.corp.io'') default_options demo_vss pods"
      and l: "map (label_of HostLabel) pods = [''pay.corp.io'']"
    using demo_gathered by metis
  then obtain p where pods: "pods = [p]" "label_of HostLabel p = ''pay.corp.io''"
    by auto
  have opts: "opClusterDomain default_options = ''cluster.local''" "opHostLabel default_options = HostLabel"
    by (simp_all add: default_options_def DefaultClusterDomain_def)
  have code: "fst (drift_main (demo_env ''pay.corp.io'') gm_keys gm_keys default_options) = 0"
    using drift_main_compared(1) [OF range_keys range_keys prod.collapse [symmetric] g refl refl]
    by (simp add: opts l demo_compared)
  show ?thesis
  proof (rule drift_clean_known [OF range_keys range_keys code g _ _ _ name])
    show "\<exists>e \<in> set ?es. entry_zone e \<noteq> None \<and> label_of (opHostLabel default_options) q \<in> set (eDNSNames e)"
      if "q \<in> set pods" for q
      using that zone by (simp add: opts pods)
    show "y = z" if "declared demo_U ?es n y" "declared demo_U ?es n z" for n y z
      using that zone by (simp add: declared_def)
    show "''pay.corp.io'' \<in> set (compared (opClusterDomain default_options) demo_vss)"
      by (simp add: opts demo_compared)
  qed
qed

end
