(* ===== verification/End_To_End.thy ===== *)
theory End_To_End
  imports Agent_Setup Agent_Concurrent Drift_Cmd
begin

text \<open>
  The node and central together. The node's upstream is the DoH client of
  \<open>internal/dohupstream\<close>; at the other end of the mutually authenticated connection CoreDNS
  runs central's handler. CoreDNS and the TLS connection are not part of this repository:
  \<open>integrity\<close> says that what the client decodes from a response with status 200 was answered
  by central to the posted message, and \<open>central_answers\<close> what central answers: the message
  its handler wrote or, when the handler wrote none, CoreDNS's own reply with the handler's
  response code and no records.
\<close>

section \<open>The composed system\<close>

text \<open>\<open>Upstream: client\<close> in the node's set-up.\<close>

definition wire_upstream :: "('h, 'req, 'resp, 'tls) doh_ops \<Rightarrow> 'tls doh_client \<Rightarrow> ('h, doh_error) upstream" where
  "wire_upstream D c h ctx m = Exchange D c m h"

text \<open>What the exchange may return, over any state of the connection.\<close>

definition wire_result :: "('h, 'req, 'resp, 'tls) doh_ops \<Rightarrow> 'tls doh_client \<Rightarrow> dns_msg \<Rightarrow> doh_error + dns_msg \<Rightarrow> bool" where
  "wire_result D c out r \<longleftrightarrow> (\<exists>h cx. fst (wire_upstream D c h cx out) = r)"

definition central_answers ::
  "dnslib \<Rightarrow> reqlib \<Rightarrow> unicode \<Rightarrow> go_context \<Rightarrow> (ZoneDNS \<Rightarrow> bool) \<Rightarrow> dns_msg \<Rightarrow> dns_msg \<Rightarrow> bool" where
  "central_answers L Q U ctx state r a \<longleftrightarrow>
     (\<exists>z w M. state z \<and> wWritten w = [] \<and>
        (let (res, w', M') = zonedns_ServeDNS L Q U z ctx w r M in
         wWritten w' = [a] \<or> wWritten w' = [] \<and> mRcode a = fst res \<and> mAnswer a = []))"

definition integrity :: "('h, 'req, 'resp, 'tls) doh_ops \<Rightarrow> (dns_msg \<Rightarrow> dns_msg \<Rightarrow> bool) \<Rightarrow> bool" where
  "integrity D answers \<longleftrightarrow>
     (\<forall>url m req hc h resp h1 a h2. dhNewRequest D url m = Inr req \<longrightarrow> dhDo D hc req h = (Inr resp, h1) \<longrightarrow>
        dhStatus D resp = 200 \<longrightarrow> dhToMsg D resp h1 = (Inr a, h2) \<longrightarrow> answers m a)"

text \<open>
  A state of central in which the given agents are authorized under the given option code,
  a name is registered in zone \<open>d\<close>, and \<open>gw\<close> is the gateway configured for that zone, if any.
\<close>

definition central_knows :: "unicode \<Rightarrow> string list \<Rightarrow> u16 \<Rightarrow> string \<Rightarrow> string \<Rightarrow> addr option \<Rightarrow> ZoneDNS \<Rightarrow> bool" where
  "central_knows U agents code name d gw z \<longleftrightarrow>
     zIdentity z = NewConfig agents code \<and> Store_Lookup U (zRegistry z) name = Some d \<and>
     zonetable_Gateway (zZones z) d = gw"

text \<open>A record that names the gateway, and nothing else.\<close>

fun gateway_rr :: "addr \<Rightarrow> rr \<Rightarrow> bool" where
  "gateway_rr g (RR_A h b) = (b = addr_v4 g)"
| "gateway_rr g (RR_AAAA h b) = (b = As16 g)"
| "gateway_rr g r = False"

section \<open>Facts\<close>

lemma wire_result_log: "wire_result D c out (fst (exchange_log (wire_upstream D c) u cx out))"
  unfolding wire_result_def exchange_log_def Let_def
  by (rule exI [of _ "fst u"], rule exI [of _ cx]) (simp split: prod.split)

lemma Exchange_integrity:
  assumes "integrity D answers" and "fst (Exchange D c m h) = Inr a"
  shows "\<exists>a0. answers (m\<lparr>mId := 0\<rparr>) a0 \<and> a = a0\<lparr>mId := mId m\<rparr>"
proof -
  obtain req resp h1 a0 h2 where "dhNewRequest D (clURL c) (m\<lparr>mId := 0\<rparr>) = Inr req"
      "dhDo D (clHC c) req h = (Inr resp, h1)" "dhStatus D resp = 200" "dhToMsg D resp h1 = (Inr a0, h2)"
      "a = a0\<lparr>mId := mId m\<rparr>"
    using assms(2) by (auto simp: Exchange_def Let_def split: sum.splits prod.splits if_splits)
  with assms(1) show ?thesis
    unfolding integrity_def by blast
qed

lemma Get_mId: "edns_laws L \<Longrightarrow> ednszone_Get L (m\<lparr>mId := i\<rparr>) code = ednszone_Get L m code"
  using edns_cong [of L "m\<lparr>mId := i\<rparr>" m] by (simp add: ednszone_Get_def opt_options_def split: option.splits)

text \<open>On DoH the verdict depends on the request's TLS state only.\<close>

lemma authorized_DoH:
  "ctxHTTP ctx = Some (Some req) \<Longrightarrow> authorized_peer agents ctx w \<Longrightarrow> authorized_peer agents ctx w'"
  by (simp add: authorized_peer_def peer_id_def PeerCertificates_DoH)

text \<open>What central reads from the node's query is what the node resolved.\<close>

lemma forwarded_zone_read:
  assumes "edns_laws L" and "authorized_peer agents ctx w" and "resolver_ok (rqResolver q)"
    and "agent_outbound L code (request_zone a q) (rqMsg q) = Some out"
  shows "SourceZone L (NewConfig agents code) ctx w (out\<lparr>mId := 0\<rparr>) =
    (case request_zone a q of None \<Rightarrow> ([], ReasonNoDeclaration) | Some z \<Rightarrow> (z, ReasonOK))"
  using assms(2) by (simp add: SourceZone_authorized Get_mId assms(1) request_outbound [OF assms(1,3,4)])

text \<open>Names equal up to case are the same to the registry.\<close>

lemma lower_byte_dot [simp]: "lower_byte c = CHR ''.'' \<longleftrightarrow> c = CHR ''.''"
  by (cases "is_upper c") (auto simp: lower_byte_def is_upper_def less_eq_char_def
      dest!: arg_cong [where f = "of_char :: char \<Rightarrow> nat"])

lemma TrimSuffix_dot: "TrimSuffix s ''.'' = (if s \<noteq> [] \<and> last s = CHR ''.'' then butlast s else s)"
  by (cases s rule: rev_cases) (auto simp: TrimSuffix_def HasSuffix_def)

lemma normalize_ascii:
  assumes "list_all ascii n"
  shows "normalize_name U n = TrimSuffix (ToLower U n) ''.''"
proof (cases n rule: rev_cases)
  case (snoc n' c)
  with assms show ?thesis
    by (simp add: normalize_name_def TrimSuffix_dot ToLower_def map_butlast)
qed (simp add: normalize_name_def TrimSuffix_dot)

lemma lookup_same_name:
  "list_all ascii n \<Longrightarrow> list_all ascii n' \<Longrightarrow> ToLower U n = ToLower U n' \<Longrightarrow> Store_Lookup U st n = Store_Lookup U st n'"
  by (simp add: Store_Lookup_def Snapshot_Lookup_def normalize_ascii split: option.split)

lemma gateway_rr_records: "r \<in> set (gateway_records ttl q g) \<Longrightarrow> gateway_rr g r"
  by (auto simp: gateway_records_def split: if_splits)

lemma gateway_rr_ttl [simp]: "gateway_rr g (with_ttl ttl r) = gateway_rr g r"
  by (cases r) auto

text \<open>What central answers to a cross-zone query, as the node sees it.\<close>

definition isolated_answer :: "addr option \<Rightarrow> int \<Rightarrow> rr list \<Rightarrow> bool" where
  "isolated_answer gw rcode rrs \<longleftrightarrow>
     (case gw of
        None \<Rightarrow> rcode = RcodeServerFailure \<and> rrs = []
      | Some g \<Rightarrow> rcode = RcodeSuccess \<and> list_all (gateway_rr g) rrs)"

lemma central_answers_cross:
  assumes "reply_laws L" and "reqlib_laws Q" and "mQuestion r = qu # qus"
    and "central_answers L Q U ctx (central_knows U agents code name d gw) r a"
    and "\<And>w. SourceZone L (NewConfig agents code) ctx w r = (s, ReasonOK)" and "s \<noteq> d" and "address_query Q r"
    and "\<And>st. Store_Lookup U st (reqName Q r) = Store_Lookup U st name"
    and "\<And>g. gw = Some g \<Longrightarrow> addr_ok g \<and> IsValid g \<and> addr_zone g = []"
  shows "isolated_answer gw (mRcode a) (mAnswer a)"
proof -
  obtain z w M where z: "central_knows U agents code name d gw z" and w: "wWritten w = []"
      and out: "let (res, w', M') = zonedns_ServeDNS L Q U z ctx w r M in
         wWritten w' = [a] \<or> wWritten w' = [] \<and> mRcode a = fst res \<and> mAnswer a = []"
    using assms(4) unfolding central_answers_def by blast
  have cross: "cross_zone L Q U z ctx w r s d" and gw: "zonetable_Gateway (zZones z) d = gw"
    using z assms(5-8) by (auto simp: central_knows_def cross_zone_def)
  show ?thesis
  proof (cases gw)
    case None
    with ServeDNS_cross [OF cross, of M] gw w out show ?thesis
      by (auto simp: isolated_answer_def split: prod.splits)
  next
    case (Some g)
    then obtain m where "wWritten (fst (snd (zonedns_ServeDNS L Q U z ctx w r M))) = [m]" "mRcode m = RcodeSuccess"
        "mAnswer m = gateway_records (zTTL z) qu g"
      using cross_gateway_records [OF assms(1-3) cross, of g M] gw w assms(9) by auto
    with Some out show ?thesis
      by (auto simp: isolated_answer_def list_all_iff gateway_rr_records split: prod.splits)
  qed
qed

text \<open>
  The whole path: an outbound query of the node for a request of zone \<open>src\<close>, answered over
  the wire by central in any state that knows the name.
\<close>

lemma wire_answer_isolated:
  assumes "edns_laws L" and "reply_laws L" and "reqlib_laws Q"
    and "integrity D (central_answers L Q U ctx (central_knows U agents (aEDNS0Code a) name d gw))"
    and "ctxHTTP ctx = Some (Some hreq)" and "authorized_peer agents ctx w0"
    and "resolver_ok (rqResolver q)" and "request_zone a q = Some src" and "src \<noteq> d"
    and "address_query Q (rqMsg q)" and "\<And>st. Store_Lookup U st (reqName Q (rqMsg q)) = Store_Lookup U st name"
    and "\<And>g. gw = Some g \<Longrightarrow> addr_ok g \<and> IsValid g \<and> addr_zone g = []"
    and "agent_outbound L (aEDNS0Code a) (request_zone a q) (rqMsg q) = Some out"
    and "fst (wire_upstream D c h cx out) = Inr m"
  shows "isolated_answer gw (mRcode m) (mAnswer m)"
proof -
  obtain a0 where a0: "central_answers L Q U ctx (central_knows U agents (aEDNS0Code a) name d gw) (out\<lparr>mId := 0\<rparr>) a0"
      "m = a0\<lparr>mId := mId out\<rparr>"
    using Exchange_integrity [OF assms(4)] assms(14) unfolding wire_upstream_def by blast
  have quest: "mQuestion (out\<lparr>mId := 0\<rparr>) = mQuestion (rqMsg q)"
    using request_outbound(2) [OF assms(1,7,13)] by simp
  have qtype: "reqQType Q (out\<lparr>mId := 0\<rparr>) = reqQType Q (rqMsg q)"
    using quest assms(3) unfolding reqlib_laws_def by (metis (no_types, lifting))
  obtain qu qus where qu: "mQuestion (out\<lparr>mId := 0\<rparr>) = qu # qus"
    using assms(3,10) quest unfolding reqlib_laws_def address_query_def
    by (cases "mQuestion (rqMsg q)") (auto simp: TypeA_def TypeAAAA_def)
  have "SourceZone L (NewConfig agents (aEDNS0Code a)) ctx w (out\<lparr>mId := 0\<rparr>) = (src, ReasonOK)" for w
    using forwarded_zone_read [OF assms(1) authorized_DoH [OF assms(5,6)] assms(7,13)] assms(8) by simp
  then have "isolated_answer gw (mRcode a0) (mAnswer a0)"
    using assms(9,10,11,12) qtype req_Name_cong [OF assms(3) quest]
    by (intro central_answers_cross [OF assms(2,3) qu a0(1)]) (auto simp: address_query_def)
  with a0(2) show ?thesis by simp
qed

text \<open>
  CoreDNS around central in one state, when all goes well: what the handler writes is what
  the posted message is answered with.
\<close>

definition coredns_serves ::
  "dnslib \<Rightarrow> reqlib \<Rightarrow> unicode \<Rightarrow> go_context \<Rightarrow> ZoneDNS \<Rightarrow> (dns_msg \<Rightarrow> int \<times> (string + dns_msg)) \<Rightarrow> bool" where
  "coredns_serves L Q U ctx z served \<longleftrightarrow>
     (\<forall>m. \<exists>w M. wWritten w = [] \<and>
        (\<forall>a. wWritten (fst (snd (zonedns_ServeDNS L Q U z ctx w m M))) = [a] \<longrightarrow> served m = (200, Inr a)))"

lemma answers_same_question:
  "mQuestion out = [qu] \<Longrightarrow> mQuestion m = [qu] \<Longrightarrow> list_all ascii (qName qu) \<Longrightarrow> answersQuestion U out m"
  by (simp add: answersQuestion_def EqualFold_refl_ascii)

lemma healthy_exchange:
  assumes "doh_laws D bodies (\<lambda>h url m. Inr (served m))" and "\<And>m. \<exists>req. dhNewRequest D (clURL c) m = Inr req"
    and "served (m\<lparr>mId := 0\<rparr>) = (200, Inr a)"
  shows "fst (Exchange D c m h) = Inr (a\<lparr>mId := mId m\<rparr>)"
proof -
  obtain req where req: "dhNewRequest D (clURL c) (m\<lparr>mId := 0\<rparr>) = Inr req"
    using assms(2) by blast
  have "(\<lambda>h url m. Inr (served m)) h (clURL c) (m\<lparr>mId := 0\<rparr>) = Inr (200, Inr a)"
    using assms(3) by simp
  from doh_laws_Inr [OF assms(1) req this, of "clHC c"] obtain resp h1 h2 where
    "dhDo D (clHC c) req h = (Inr resp, h1)" "dhStatus D resp = 200" "dhToMsg D resp h1 = (Inr a, h2)" .
  with req show ?thesis
    by (simp add: Exchange_def)
qed

lemma wire_gateway:
  assumes "edns_laws L" and "reply_laws L" and "reqlib_laws Q"
    and "doh_laws D bodies (\<lambda>h url m. Inr (served m))" and "\<And>m. \<exists>req. dhNewRequest D (clURL c) m = Inr req"
    and "coredns_serves L Q U ctx z served"
    and "ctxHTTP ctx = Some (Some hreq)" and "authorized_peer agents ctx w0"
    and "central_knows U agents (aEDNS0Code a) (reqName Q (rqMsg q)) d (Some g) z"
    and "addr_ok g" and "IsValid g" and "addr_zone g = []"
    and "resolver_ok (rqResolver q)" and "request_zone a q = Some src" and "src \<noteq> d"
    and "address_query Q (rqMsg q)" and "mQuestion (rqMsg q) = [qu]"
    and "agent_outbound L (aEDNS0Code a) (request_zone a q) (rqMsg q) = Some out"
  shows "\<exists>m. mQuestion m = [qu] \<and> mRcode m = RcodeSuccess \<and> mAnswer m = gateway_records (zTTL z) qu g \<and>
    (\<forall>h cx. fst (wire_upstream D c h cx out) = Inr m)"
proof -
  let ?r = "out\<lparr>mId := 0\<rparr>"
  have quest: "mQuestion ?r = [qu]"
    using request_outbound(2) [OF assms(1,13,18)] assms(17) by simp
  obtain w M where w: "wWritten w = []"
      "\<And>m. wWritten (fst (snd (zonedns_ServeDNS L Q U z ctx w ?r M))) = [m] \<Longrightarrow> served ?r = (200, Inr m)"
    using assms(6) unfolding coredns_serves_def by blast
  have "reqQType Q ?r = reqQType Q (rqMsg q)" "reqName Q ?r = reqName Q (rqMsg q)"
    using assms(3,17) quest req_Name_cong [OF assms(3), of ?r "rqMsg q"] by (simp_all add: req_simps)
  moreover have "SourceZone L (NewConfig agents (aEDNS0Code a)) ctx w ?r = (src, ReasonOK)"
    using forwarded_zone_read [OF assms(1) authorized_DoH [OF assms(7,8)] assms(13,18)] assms(14) by simp
  ultimately have "cross_zone L Q U z ctx w ?r src d"
    using assms(9,15,16) by (simp add: cross_zone_def central_knows_def address_query_def)
  then obtain m where "wWritten (fst (snd (zonedns_ServeDNS L Q U z ctx w ?r M))) = [m]"
      and m: "mQuestion m = [qu]" "mRcode m = RcodeSuccess" "mAnswer m = gateway_records (zTTL z) qu g"
    using cross_gateway_records [OF assms(2,3) quest _ _ assms(10-12), of U z ctx w src d M] assms(9) w(1)
    by (auto simp: central_knows_def)
  then have "fst (wire_upstream D c h cx out) = Inr (m\<lparr>mId := mId out\<rparr>)" for h cx
    using healthy_exchange [OF assms(4,5)] w(2) by (simp add: wire_upstream_def)
  with m show ?thesis
    by (intro exI [of _ "m\<lparr>mId := mId out\<rparr>"]) simp
qed

section \<open>A concrete system\<close>

text \<open>The node and the central of the components' examples, joined by the example's connection.\<close>

definition demo_served :: "dns_msg \<Rightarrow> int \<times> (string + dns_msg)" where
  "demo_served m =
     (case zonedns_ServeDNS dnslib_ref reqlib_ref demo_U (demo_central (Addr4 10 0 0 9)) demo_ctx demo_writer m demo_metrics of
        (res, w', M') \<Rightarrow> (case wWritten w' of [a] \<Rightarrow> (200, Inr a) | _ \<Rightarrow> (500, Inl ''No response'')))"

definition demo_wire :: "unit doh_client" where
  "demo_wire = \<lparr>clURL = ''https://central'', clHC = buildHTTPClient () 0\<rparr>"

definition demo_node_start ::
  "(nat \<times> (key \<times> entry) list, nat \<times> (dns_msg \<times> (doh_error + dns_msg)) list) agent_state" where
  "demo_node_start = \<lparr>sCache = \<lparr>cL = (8, [])\<rparr>, sUpstream = (0, []),
     sMetrics = \<lparr>zoneResolutionTotal = (\<lambda>l. 0), cacheTotal = (\<lambda>l. 0), upstreamErrorsTotal = 0\<rparr>\<rparr>"

definition demo_arrives :: "agent_request \<Rightarrow> bool" where
  "demo_arrives q \<longleftrightarrow> (\<exists>i t. q = demo_request i t)"

lemma demo_node_start:
  "node_start lru_ref lru_ref_ok 8 demo_arrives \<lparr>nCache = sCache demo_node_start, nCalls = Map.empty\<rparr>"
  unfolding node_start_def demo_arrives_def using demo_resolver_ok lru_laws_ref
  by (auto simp: zonecache_New_def demo_node_start_def) (simp add: lru_ref_def)

lemma demo_knows:
  "central_knows demo_U [''spiffe://d/agent''] (aEDNS0Code demo_agent_node) (reqName reqlib_ref (rqMsg (demo_request i t)))
     ''zone-b'' (Some (Addr4 10 0 0 9)) (demo_central (Addr4 10 0 0 9))"
  using demo_cross_A [of "Addr4 10 0 0 9"] demo_gateway [of "Addr4 10 0 0 9"]
  by (simp add: central_knows_def cross_zone_def demo_central_def demo_agent_node_def reqlib_ref_def
      demo_request_def demo_ask_def demo_query_def demo_question_def)

lemma demo_integrity:
  "integrity (demo_doh demo_served) (central_answers dnslib_ref reqlib_ref demo_U demo_ctx
     (central_knows demo_U [''spiffe://d/agent''] (aEDNS0Code demo_agent_node)
        (reqName reqlib_ref (rqMsg (demo_request i t))) ''zone-b'' (Some (Addr4 10 0 0 9))))"
  unfolding integrity_def
proof (intro allI impI)
  fix url m req hc h resp h1 a h2
  assume "dhNewRequest (demo_doh demo_served) url m = Inr req" "dhDo (demo_doh demo_served) hc req h = (Inr resp, h1)"
    "dhStatus (demo_doh demo_served) resp = 200" "dhToMsg (demo_doh demo_served) resp h1 = (Inr a, h2)"
  then have "demo_served m = (200, Inr a)"
    by (cases "demo_served m") (simp add: demo_doh_def)
  then show "central_answers dnslib_ref reqlib_ref demo_U demo_ctx
     (central_knows demo_U [''spiffe://d/agent''] (aEDNS0Code demo_agent_node)
        (reqName reqlib_ref (rqMsg (demo_request i t))) ''zone-b'' (Some (Addr4 10 0 0 9))) m a"
    unfolding central_answers_def
    using demo_knows
    by - (rule exI [of _ "demo_central (Addr4 10 0 0 9)"], rule exI [of _ demo_writer], rule exI [of _ demo_metrics],
        auto simp: demo_served_def demo_writer_def split: prod.splits list.splits)
qed

lemma demo_serves: "coredns_serves dnslib_ref reqlib_ref demo_U demo_ctx (demo_central (Addr4 10 0 0 9)) demo_served"
  unfolding coredns_serves_def
  by (intro allI exI [of _ demo_writer] exI [of _ demo_metrics])
    (auto simp: demo_served_def demo_writer_def split: prod.splits)

lemma demo_peer: "authorized_peer [''spiffe://d/agent''] demo_ctx demo_writer"
  by (simp add: authorized_peer_def peer_id_def PeerCertificates_def demo_ctx_def certsFromState_def
      SPIFFEIDFromCert_def demo_agent_def)

lemma demo_ctx_DoH: "\<exists>hreq. ctxHTTP demo_ctx = Some (Some hreq)"
  by (simp add: demo_ctx_def)

lemma demo_request_facts:
  "mQuestion (rqMsg (demo_request i t)) = [demo_in]" "address_query reqlib_ref (rqMsg (demo_request i t))"
  "list_all ascii (reqName reqlib_ref (rqMsg (demo_request i t)))" "list_all ascii (qName demo_in)"
proof -
  show q: "mQuestion (rqMsg (demo_request i t)) = [demo_in]"
    by (simp add: demo_request_def demo_ask_def demo_in_def)
  then show "address_query reqlib_ref (rqMsg (demo_request i t))"
    by (simp add: address_query_def reqlib_ref_def demo_in_def)
  show asc: "list_all ascii (qName demo_in)"
    by code_simp
  then show "list_all ascii (reqName reqlib_ref (rqMsg (demo_request i t)))"
    by (simp add: reqlib_ref_def q)
qed

end
