(* ===== verification/Spec2Isabelle.thy ===== *)
theory Spec2Isabelle
  imports End_To_End
begin

text \<open>
  ZoneDNS, verified.

  \<^bold>\<open>The program.\<close> ZoneDNS answers DNS by zone in a mixed Kubernetes and VM environment. Within a
  zone the answer is the ordinary service address; across zones it is the address of the
  destination zone's gateway. On every node the plugin \<open>zonedns_agent\<close> finds the zone of the
  asking workload from its source address, answers from a cache keyed by zone, and else
  forwards the query to central over mutually authenticated DNS over HTTPS, with the zone
  declared in an EDNS0 option. Central, the plugin \<open>zonedns\<close>, believes a declaration only from
  an authorized agent, looks the name's zone up in a registry it polls from SPIRE, and
  answers with the gateway, fails, or hands the query to the next plugin. A separate
  command compares the names VirtualServices declare with the names pods are labelled with.

  \<^bold>\<open>Theories and sources.\<close>
  \<^item> \<open>Prelude\<close>: machine integers, Go's built-in map as the locale \<open>go_map\<close>, the two state machine
    interfaces \<open>event_handler\<close> and \<open>step_system\<close>, and the conversion \<open>float64(n)\<close>.
  \<^item> \<open>Go_Strings\<close>, \<open>Netip\<close>, \<open>Netip_Text\<close>: what the sources call of \<open>strings\<close>, \<open>strconv\<close>,
    \<open>net/netip\<close> and \<open>net\<close>; printing an address and parsing it back are shown to be inverse.
  \<^item> \<open>Dns_Msg\<close>, \<open>Transport\<close>: messages, contexts, TLS states and writers; the packages
    \<open>miekg/dns\<close> and \<open>coredns/request\<close> as the parameters \<open>dnslib\<close> and \<open>reqlib\<close> with their laws.
  \<^item> \<open>Edns_Zone\<close> (\<open>internal/ednszone\<close>): \<open>Valid\<close>, \<open>Set\<close>, \<open>Get\<close>; round trip and failing closed.
  \<^item> \<open>Spiffe_Zone\<close> (\<open>internal/spiffezone\<close>) and \<open>Identity\<close> (\<open>internal/identity\<close>): the trust boundary.
  \<^item> \<open>Decision\<close> (\<open>internal/decision\<close>, \<open>internal/zonetable\<close>): the decision table of the design and
    \<open>Decide\<close> as its implementation.
  \<^item> \<open>Registry\<close> (\<open>internal/registry/registry.go\<close>): snapshots, with the locale \<open>zone_registry\<close>;
    \<open>Poller\<close> (\<open>spire.go\<close>): paging, the polling loop and its callbacks.
  \<^item> \<open>Central\<close> (\<open>plugin/zonedns/zonedns.go\<close>, \<open>metrics.go\<close>): the handler and its counters.
  \<^item> \<open>Zone_Cache\<close> (\<open>internal/zonecache\<close>): the cache over an LRU library with laws; the locale
    \<open>forgetful_store\<close> says that a lookup finds what was last put or nothing.
  \<^item> \<open>Pod_Zone\<close> (\<open>internal/podzone\<close>): the watcher's table, its event handlers and \<open>Run\<close>
    statement by statement, against the cluster's own view of which pod holds which address.
  \<^item> \<open>Doh_Upstream\<close> (\<open>internal/dohupstream\<close>): building the client and one exchange.
  \<^item> \<open>Agent\<close> (\<open>plugin/zonedns_agent/agent.go\<close>, \<open>resolver.go\<close>, \<open>metrics.go\<close>): the node's handler, and
    runs of it over any sequence of requests.
  \<^item> \<open>Agent_Concurrent\<close>: the same handler cut at its lock boundaries into two sections, and a step
    relation in which the sections of any number of calls interleave over the shared cache.
  \<^item> \<open>Readiness\<close> (\<open>plugin/zonedns_agent/setup.go\<close>): the generations behind the readiness gauge as a
    step relation in which instances interleave.
  \<^item> \<open>Corefile\<close>, \<open>Central_Setup\<close>, \<open>Agent_Setup\<close> (both \<open>setup.go\<close>, \<open>build/zonedns_register.go\<close>): the
    parsing loops, the validation, the directive order, and the wiring with everything it
    acquires and releases.
  \<^item> \<open>Drift\<close> (\<open>internal/drift\<close>) and \<open>Drift_Cmd\<close> (\<open>cmd/zonedns-drift\<close>): collection, filtering,
    comparison, the printed report and the exit code.
  \<^item> \<open>End_To_End\<close>: the node's handler over the DoH client over central's handler. This theory
    holds the properties of the whole.

  \<^bold>\<open>How the code is represented.\<close> A struct is a record, an enumeration or interface value a
  datatype, a Go map an association list with distinct keys, an error a value of a sum type
  with one constructor per message, a nil pointer \<^const>\<open>None\<close>. State is passed explicitly: the
  handler's state is the cache, the upstream and the counters; the poller's is the store,
  the failure counter, the gauges and the server; the response writer is the list of
  messages written to it. Code that is not part of the repository (\<open>miekg/dns\<close>, CoreDNS, the
  LRU, SPIFFE, gRPC, Kubernetes and HTTP libraries) is a parameter, what the sources rely
  on is a named predicate (\<open>edns_laws\<close>, \<open>reply_laws\<close>, \<open>reqlib_laws\<close>, \<open>reqname_laws\<close>, \<open>lru_laws\<close>, \<open>doh_laws\<close>,
  \<open>dispenser_laws\<close>, \<open>range_laws\<close>, \<open>integrity\<close>), and an instance shows that it can hold.

  \<^bold>\<open>What is shown.\<close> End to end: isolation of zones through cache, wire and central under every
  interleaving; agreement of central's verdict with the label of the pod that has the client's
  address; and that the gateway does reach the client. Per component: what each operation
  returns on every branch, the invariants of the watcher's table, the cache, the readiness
  gauge and central's gauges, the termination of the parsing and paging loops, what the
  set-up functions release when they fail, and what an exit code of the drift command means.
  The last properties and some lemmas without a number record behaviour that is worth knowing
  and not a promise of the code: the order of readiness, a scoped gateway, a second OPT record, the missing class in the cache key, the TTLs
  of the authority section, duplicate directives, shared addresses, unnormalized names.

  \<^bold>\<open>Bounds and fuel.\<close> The parsing loops take fuel, one unit more than the tokens left is shown to
  be enough. Paging is bounded by \<open>maxPollPages\<close> as in the code and needs no fuel. TTLs are
  32-bit words, durations are integers wrapped to 64 bits where the code multiplies, the
  poller's failure counter and the generations of the readiness gauge are 64-bit words that
  wrap, and the gauges hold \<open>float64\<close> numbers, rounded from \<open>2\<^sup>5\<^sup>3\<close> on. The interleavings of the
  readiness gauge are those of a process that has drawn fewer than \<open>2\<^sup>6\<^sup>4\<close> generations. Lengths
  and counts of things in memory are natural numbers.

  \<^bold>\<open>Not modelled.\<close> The informer and the ticker are the sequences of events they deliver; of the
  goroutines each locked section is one step, and what a mutex protects inside a section is
  not refined further. Logging, the text of error messages, flag parsing and the registration of
  metrics have no effect in the model. TLS handshakes and certificate verification are the
  platform's: the model starts at the verified chain. \<open>internal/testcerts\<close> generates
  certificates for the tests only.
\<close>

section \<open>Properties that span the components\<close>

text \<open>
  Property C1. Zone isolation, end to end: take a node whose upstream is central over a
  mutually authenticated connection that delivers only what central answered, serving any
  number of requests at a time, interleaved in any way. A client the node resolves to zone
  \<open>src\<close> that asks for the address of a name central has registered in another zone \<open>d\<close> gets,
  from the cache or over the wire, either SERVFAIL or an answer to its own question that
  names no address but the gateway of \<open>d\<close>; with no gateway configured it gets no address at
  all. Neither options the client attached nor the plugins behind central have any influence.
\<close>

theorem zone_isolation_end_to_end:
  assumes "edns_laws L" and "reply_laws L" and "reqlib_laws Q"
    and "node_start K ok n arrives s" and "\<And>q. arrives q \<Longrightarrow> list_all ascii (reqName Q (rqMsg q))"
    and "(node_step L Q U K a arrives (wire_result D c))\<^sup>*\<^sup>* s t" and "nCalls t i = Some (Done q res w)"
    and "integrity D (central_answers L Q U ctx
           (central_knows U agents (aEDNS0Code a) (reqName Q (rqMsg q)) d gw))"
    and "ctxHTTP ctx = Some (Some hreq)" and "authorized_peer agents ctx w0"
    and "\<And>g. gw = Some g \<Longrightarrow> addr_ok g \<and> IsValid g \<and> addr_zone g = []"
    and "request_zone a q = Some src" and "src \<noteq> d" and "address_query Q (rqMsg q)"
    and "mQuestion (rqMsg q) = qu # qus"
  shows "res = (RcodeServerFailure, None) \<and> w = rqWriter q \<or>
    (\<exists>msg. wWritten w = wWritten (rqWriter q) @ [msg] \<and> mId msg = mId (rqMsg q) \<and> mQuestion msg = [qu] \<and>
       isolated_answer gw (mRcode msg) (mAnswer msg))"
proof (cases "res = (RcodeServerFailure, None) \<and> w = rqWriter q")
  case False
  then obtain q0 out m msg where q0: "asked L U a arrives (wire_result D c) q0 out m" "same_query Q U a q0 q"
      and msg: "wWritten w = wWritten (rqWriter q) @ [msg]" "mId msg = mId (rqMsg q)" "mQuestion msg = [qu]"
        "mRcode msg = mRcode m" "mAnswer msg = mAnswer m \<or> (\<exists>ttl. mAnswer msg = map (with_ttl ttl) (mAnswer m))"
    using finished_written [OF assms(2,15) reachable_finished(2) [OF assms(4,6,7)]] by blast
  obtain h cx where out: "agent_outbound L (aEDNS0Code a) (request_zone a q0) (rqMsg q0) = Some out"
      "fst (wire_upstream D c h cx out) = Inr m"
    using q0(1) by (auto simp: asked_def wire_result_def)
  have "resolver_ok (rqResolver q0)" "list_all ascii (reqName Q (rqMsg q0))" "list_all ascii (reqName Q (rqMsg q))"
    using q0(1) assms(4,5) reachable_finished(1) [OF assms(4,6,7)] by (auto simp: asked_def node_start_def)
  then have "isolated_answer gw (mRcode m) (mAnswer m)"
    using wire_answer_isolated [OF assms(1-3,8-10) _ _ assms(13) _ lookup_same_name assms(11) out] q0(2) assms(12,14)
    by (simp add: same_query_def address_query_def)
  then have "isolated_answer gw (mRcode msg) (mAnswer msg)"
    using msg(4,5) by (auto simp: isolated_answer_def list_all_iff split: option.splits)
  with msg show ?thesis by blast
qed blast

theorem zone_isolation_end_to_end_witness:
  "\<exists>t res w. (node_step dnslib_ref reqlib_ref demo_U lru_ref demo_agent_node demo_arrives
       (wire_result (demo_doh demo_served) demo_wire))\<^sup>*\<^sup>* \<lparr>nCache = sCache demo_node_start, nCalls = Map.empty\<rparr> t \<and>
     nCalls t 0 = Some (Done (demo_request 8 0) res w) \<and>
     (res = (RcodeServerFailure, None) \<and> w = demo_client ''10.0.0.1'' \<or>
      (\<exists>msg. wWritten w = [msg] \<and> isolated_answer (Some (Addr4 10 0 0 9)) (mRcode msg) (mAnswer msg)))"
proof -
  let ?step = "node_step dnslib_ref reqlib_ref demo_U lru_ref demo_agent_node demo_arrives
       (wire_result (demo_doh demo_served) demo_wire)"
  let ?s = "\<lparr>nCache = sCache demo_node_start, nCalls = Map.empty\<rparr>"
  obtain res w s' where ser: "serve dnslib_ref reqlib_ref demo_U lru_ref (exchange_log (wire_upstream (demo_doh demo_served) demo_wire))
      demo_agent_node (demo_request 8 0) demo_node_start = Some (res, w, s')"
    using serve_total [OF edns_laws_ref] by blast
  let ?t = "?s\<lparr>nCache := sCache s', nCalls := (nCalls ?s)(0 \<mapsto> Done (demo_request 8 0) res w)\<rparr>"
  have steps: "?step\<^sup>*\<^sup>* ?s ?t"
    by (rule serve_steps [OF ser])
      (auto simp: demo_arrives_def wire_result_log)
  obtain hreq where doh: "ctxHTTP demo_ctx = Some (Some hreq)"
    using demo_ctx_DoH by blast
  have gw: "addr_ok g \<and> IsValid g \<and> addr_zone g = []" if "Some (Addr4 10 0 0 9) = Some g" for g
    using that by (auto simp: addr_ok_def IsValid_def addr_zone_def)
  have ended: "nCalls ?t 0 = Some (Done (demo_request 8 0) res w)" by simp
  have asc: "list_all ascii (reqName reqlib_ref (rqMsg q))" if "demo_arrives q" for q
    using that demo_request_facts(3) by (auto simp: demo_arrives_def)
  have writer: "rqWriter (demo_request 8 0) = demo_client ''10.0.0.1''" "wWritten (demo_client ''10.0.0.1'') = []"
    by (simp_all add: demo_request_def demo_client_def)
  have "''zone-a'' \<noteq> ''zone-b''" by simp
  from zone_isolation_end_to_end [OF edns_laws_ref reply_laws_ref reqlib_laws_ref demo_node_start asc steps ended
      demo_integrity doh demo_peer gw demo_request_zone this demo_request_facts(2) demo_request_facts(1)]
  have "res = (RcodeServerFailure, None) \<and> w = demo_client ''10.0.0.1'' \<or>
      (\<exists>msg. wWritten w = [msg] \<and> isolated_answer (Some (Addr4 10 0 0 9)) (mRcode msg) (mAnswer msg))"
    unfolding writer by auto
  with steps ended show ?thesis by blast
qed

text \<open>
  Property C2. From the pod's label to central's verdict, in Kubernetes mode: as long as no
  two pods hold one address at the same time, the source zone central obtains for a query
  the node forwards is exactly the zone label of the one pod of the node that has the
  client's address, through every change the informer delivered; until
  \<open>ready\<close> is set behind the first sync, once \<open>Run\<close> has cleared it, and for an address no qualifying pod holds, it is none. The
  declarations the client itself attached make no difference.
\<close>

theorem central_reads_tenant_zone:
  assumes "edns_laws L" and "authorized_peer agents ctx w" and "never_shared l Map.empty (deliveries evs)"
    and "rqResolver q = Watcher_Zone (rsWatcher (fold Watcher_Run evs (run_init n l h)))"
    and "ParseAddr (wRemoteIP (rqWriter q)) = Some ip" and "ip \<noteq> aNodeIP a"
  shows "\<exists>out. agent_outbound L (aEDNS0Code a) (request_zone a q) (rqMsg q) = Some out \<and>
    mQuestion out = mQuestion (rqMsg q) \<and>
    (SourceZone L (NewConfig agents (aEDNS0Code a)) ctx w (out\<lparr>mId := 0\<rparr>) = (z, ReasonOK) \<longleftrightarrow>
       answering (rsPhase (fold Watcher_Run evs (run_init n l h))) \<and> tenant l (view_after evs) ip z)"
proof -
  have ok: "resolver_ok (rqResolver q)"
    using pods.ok pz.run_inv [OF run_inv_init, of h evs n l] unfolding assms(4) run_inv_def by blast
  obtain out where out: "agent_outbound L (aEDNS0Code a) (request_zone a q) (rqMsg q) = Some out"
    using outbound_total [OF assms(1)] by blast
  have "request_zone a q = Watcher_Zone (rsWatcher (fold Watcher_Run evs (run_init n l h))) ip"
    using assms(4-6) by (simp add: request_zone_def)
  then have "SourceZone L (NewConfig agents (aEDNS0Code a)) ctx w (out\<lparr>mId := 0\<rparr>) = (z, ReasonOK) \<longleftrightarrow>
      answering (rsPhase (fold Watcher_Run evs (run_init n l h))) \<and> tenant l (view_after evs) ip z"
    using Watcher_Zone_tenant [OF assms(3), of n h ip z]
    by (auto simp: forwarded_zone_read [OF assms(1,2) ok out] split: option.splits)
  with out request_outbound(2) [OF assms(1) ok out] show ?thesis by blast
qed

theorem central_reads_tenant_zone_witness:
  "\<exists>out. agent_outbound dnslib_ref 65001
      (Watcher_Zone (rsWatcher (fold Watcher_Run demo_relabel (run_init ''node'' ''zone'' True))) (Addr4 10 0 0 1)) (demo_ask 7) = Some out \<and>
    SourceZone dnslib_ref (NewConfig [''spiffe://d/agent''] 65001) demo_ctx demo_writer (out\<lparr>mId := 0\<rparr>) = (''zone-b'', ReasonOK)"
proof -
  let ?f = "Watcher_Zone (rsWatcher (fold Watcher_Run demo_relabel (run_init ''node'' ''zone'' True)))"
  let ?q = "demo_request 7 0\<lparr>rqResolver := ?f\<rparr>"
  have "rqResolver ?q = ?f" "ParseAddr (wRemoteIP (rqWriter ?q)) = Some (Addr4 10 0 0 1)" "Addr4 10 0 0 1 \<noteq> aNodeIP demo_agent_node"
    by (simp_all add: demo_request_def demo_client_def demo_addr demo_agent_node_def)
  note tenant = central_reads_tenant_zone [OF edns_laws_ref demo_peer demo_relabel_facts(1) this, of "''zone-b''"]
  have "request_zone demo_agent_node ?q = ?f (Addr4 10 0 0 1)" "rqMsg ?q = demo_ask 7" "aEDNS0Code demo_agent_node = 65001"
    by (simp_all add: request_zone_def demo_request_def demo_client_def demo_addr demo_agent_node_def)
  with tenant demo_relabel_facts(2,3) show ?thesis by auto
qed

text \<open>
  Property C3. The gateway reaches the client: on a cache miss, over a connection that works
  and a CoreDNS that delivers what central's handler writes, a client of zone \<open>src\<close> asking
  for the address of a name registered in another zone \<open>d\<close> is answered under its own ID and
  question with exactly the records of the gateway configured for \<open>d\<close>, and the answer is
  successful; serving neither fails nor crashes.
\<close>

theorem gateway_reaches_client:
  assumes "edns_laws L" and "reply_laws L" and "reqlib_laws Q"
    and "doh_laws D bodies (\<lambda>h url m. Inr (served m))" and "\<And>m. \<exists>req. dhNewRequest D (clURL c) m = Inr req"
    and "coredns_serves L Q U ctx z served"
    and "ctxHTTP ctx = Some (Some hreq)" and "authorized_peer agents ctx w0"
    and "central_knows U agents (aEDNS0Code a) (reqName Q (rqMsg q)) d (Some g) z"
    and "addr_ok g" and "IsValid g" and "addr_zone g = []"
    and "resolver_ok (rqResolver q)" and "request_zone a q = Some src" and "src \<noteq> d"
    and "address_query Q (rqMsg q)" and "mQuestion (rqMsg q) = [qu]" and "list_all ascii (qName qu)"
    and "fst (zonecache_Get U K (sCache s) (reqName Q (rqMsg q)) (reqQType Q (rqMsg q)) src (rqNow q)) = None"
  shows "\<exists>w' s' msg. serve L Q U K (exchange_log (wire_upstream D c)) a q s = Some ((RcodeSuccess, None), w', s') \<and>
    wWritten w' = wWritten (rqWriter q) @ [msg] \<and> mId msg = mId (rqMsg q) \<and> mQuestion msg = [qu] \<and>
    mRcode msg = RcodeSuccess \<and> mAnswer msg = gateway_records (zTTL z) qu g"
proof -
  obtain out where out: "agent_outbound L (aEDNS0Code a) (request_zone a q) (rqMsg q) = Some out"
    using outbound_total [OF assms(1)] by blast
  obtain m where m: "mQuestion m = [qu]" "mRcode m = RcodeSuccess" "mAnswer m = gateway_records (zTTL z) qu g"
      and x: "\<And>h cx. fst (wire_upstream D c h cx out) = Inr m"
    using wire_gateway [OF assms(1-17) out] by blast
  have ans: "answersQuestion U out m"
    using answers_same_question [OF _ m(1) assms(18)] request_outbound(2) [OF assms(1,13) out] assms(17) by simp
  obtain res w' s' where ser: "serve L Q U K (exchange_log (wire_upstream D c)) a q s = Some (res, w', s')"
    using serve_total [OF assms(1)] by blast
  then show ?thesis
  proof (cases rule: serve_cases)
    case (fresh out1 m1)
    then have "m1 = m"
      using out x by simp
    with fresh ser m reply_with_written [OF assms(2,17), of "rqWriter q" m1] show ?thesis by auto
  qed (use assms(14,19) out x ans in \<open>auto simp: zone_key_def\<close>)
qed

theorem gateway_reaches_client_witness:
  "\<exists>w' s' msg. serve dnslib_ref reqlib_ref demo_U lru_ref (exchange_log (wire_upstream (demo_doh demo_served) demo_wire))
      demo_agent_node (demo_request 7 0) demo_node_start = Some ((RcodeSuccess, None), w', s') \<and>
     wWritten w' = [msg] \<and> mId msg = 7 \<and>
     mAnswer msg = [RR_A \<lparr>hName = ''pay.io.'', hRrtype = TypeA, hClass = ClassINET, hTtl = 30\<rparr> [10, 0, 0, 9]]"
proof -
  obtain hreq where doh: "ctxHTTP demo_ctx = Some (Some hreq)"
    using demo_ctx_DoH by blast
  have req: "\<exists>req. dhNewRequest (demo_doh demo_served) (clURL demo_wire) m = Inr req" for m
    by (simp add: demo_doh_def)
  have gw: "addr_ok (Addr4 10 0 0 9)" "IsValid (Addr4 10 0 0 9)" "addr_zone (Addr4 10 0 0 9) = []"
    by (simp_all add: addr_ok_def IsValid_def addr_zone_def)
  have miss: "fst (zonecache_Get demo_U lru_ref (sCache demo_node_start) (reqName reqlib_ref (rqMsg (demo_request 7 0)))
      (reqQType reqlib_ref (rqMsg (demo_request 7 0))) ''zone-a'' (rqNow (demo_request 7 0))) = None"
    by (simp add: zonecache_Get_def lru_ref_def lru_get_def demo_node_start_def)
  have recs: "gateway_records (zTTL (demo_central (Addr4 10 0 0 9))) demo_in (Addr4 10 0 0 9) =
      [RR_A \<lparr>hName = ''pay.io.'', hRrtype = TypeA, hClass = ClassINET, hTtl = 30\<rparr> [10, 0, 0, 9]]"
    "wWritten (rqWriter (demo_request 7 0)) = []" "mId (rqMsg (demo_request 7 0)) = 7"
    by (simp_all add: gateway_records_def demo_central_def demo_in_def addr_v4_def demo_request_def demo_client_def demo_ask_def)
  have "''zone-a'' \<noteq> ''zone-b''" by simp
  from gateway_reaches_client [OF edns_laws_ref reply_laws_ref reqlib_laws_ref doh_laws_demo req demo_serves doh demo_peer
      demo_knows gw demo_resolver_ok demo_request_zone this demo_request_facts(2,1,4) miss]
  show ?thesis unfolding recs by auto
qed

end
